(* ===== verification/Prelude.thy ===== *)
theory Prelude
  imports Main "HOL-Library.Word" "HOL-Library.Signed_Division" "HOL-Library.Multiset"
begin

text \<open>
  Shared vocabulary of the development: Go's sized integers, error values, effects on the
  outside world, the retry loop that every Redis wrapper of \<open>pkg/db/redis\<close> repeats, and the
  generic lemmas on them.

  The outside world (Redis, MySQL, remote HTTP services, the clock) is a type variable
  \<open>'w\<close>; a call of a service is a function of type \<open>('w, 'a) io\<close> passed to the definitions
  that use it, so nothing is assumed about a service unless a theorem says so.
\<close>

section \<open>Go integers and errors\<close>

type_synonym int64 = "64 word"
type_synonym int32 = "32 word"

text \<open>
  An \<open>error\<close> value: the sentinels that the code compares against with \<open>==\<close> (or
  \<open>errors.Is\<close>), and every other error by its text. \<open>None\<close> of \<open>goerr option\<close> is \<open>nil\<close>.
\<close>

datatype goerr =
    RedisNil
  | CtxCanceled
  | ErrNoConn
  | ErrUserOffline
  | ErrRegistryNotReady
  | ErrGatewayNotFound
  | ErrNoAvailableGateway
  | ErrInvalidGatewayData
  | ErrSendInstanceNotFound
  | ErrInvalidSendData
  | ErrNoAvailableSend
  | ErrUserRouteNotFound
  | ErrInvalidRouteData
  | ErrText string

type_synonym ('w, 'a) io = "'w \<Rightarrow> 'a \<times> 'w"

named_theorems io_simps \<open>unfolding of effectful definitions\<close>
named_theorems acct \<open>accounting facts: amounts, sums, int32 bounds\<close>

text \<open>
  Calling a service and looking at its error: \<open>v, err := f(); if err != nil {h} ; k\<close>.
\<close>

definition return :: "'a \<Rightarrow> ('w, 'a) io" where
  "return v w = (v, w)"

definition on_call :: "('w, goerr + 'a) io \<Rightarrow> (goerr \<Rightarrow> ('w, 'b) io) \<Rightarrow> ('a \<Rightarrow> ('w, 'b) io) \<Rightarrow> ('w, 'b) io" where
  "on_call m h k w = (case m w of (Inl e, w') \<Rightarrow> h e w' | (Inr v, w') \<Rightarrow> k v w')"

lemma return_simp [simp]: "return v w = (v, w)"
  by (simp add: return_def)

lemma on_call_simps:
  "m w = (Inl e, w1) \<Longrightarrow> on_call m h k w = h e w1"
  "m w = (Inr v, w1) \<Longrightarrow> on_call m h k w = k v w1"
  by (simp_all add: on_call_def)

lemma on_callE:
  assumes "on_call m h k w = (r, w')"
  obtains (err) e w1 where "m w = (Inl e, w1)" "h e w1 = (r, w')"
    | (ok) v w1 where "m w = (Inr v, w1)" "k v w1 = (r, w')"
  using assms by (auto simp: on_call_def split: prod.splits sum.splits)

text \<open>The text of an error: the sentinels' own, as declared next to the code that returns them.\<close>

fun err_text :: "goerr \<Rightarrow> string" where
  "err_text RedisNil = ''redis: nil''"
| "err_text CtxCanceled = ''context canceled''"
| "err_text ErrNoConn = ''no connection for user''"
| "err_text ErrUserOffline = ''user is offline''"
| "err_text ErrRegistryNotReady = ''registry client not initialized''"
| "err_text ErrGatewayNotFound = ''gateway not found''"
| "err_text ErrNoAvailableGateway = ''no available gateway''"
| "err_text ErrInvalidGatewayData = ''invalid gateway data''"
| "err_text ErrSendInstanceNotFound = ''send instance not found''"
| "err_text ErrInvalidSendData = ''invalid send instance data''"
| "err_text ErrNoAvailableSend = ''no available send instance''"
| "err_text ErrUserRouteNotFound = ''user route not found''"
| "err_text ErrInvalidRouteData = ''invalid route data''"
| "err_text (ErrText s) = s"

section \<open>The retry loop\<close>

text \<open>
  \<open>for i := 0; i < retry; i++ { result, err = op(); if err == nil {return}; if stop(err)
  {return}; time.Sleep(..) }; return result, err\<close>. The third argument is the value returned
  when the loop ends: the zero values before the first attempt, the last error afterwards.
\<close>

fun retry_loop ::
  "nat \<Rightarrow> (goerr \<Rightarrow> bool) \<Rightarrow> (goerr + 'a) \<Rightarrow> ('w, goerr + 'a) io \<Rightarrow> ('w, goerr + 'a) io" where
  "retry_loop 0 stop acc call w = (acc, w)"
| "retry_loop (Suc n) stop acc call w =
     (case call w of
        (Inr v, w') \<Rightarrow> (Inr v, w')
      | (Inl e, w') \<Rightarrow> if stop e then (Inl e, w') else retry_loop n stop (Inl e) call w')"

text \<open>The states the world goes through while a call fails \<open>n\<close> times with a retryable error.\<close>

fun fails_times :: "nat \<Rightarrow> (goerr \<Rightarrow> bool) \<Rightarrow> ('w, goerr + 'a) io \<Rightarrow> 'w \<Rightarrow> 'w \<Rightarrow> bool" where
  "fails_times 0 stop call w w' \<longleftrightarrow> w' = w"
| "fails_times (Suc n) stop call w w' \<longleftrightarrow>
     (\<exists>e w1. call w = (Inl e, w1) \<and> \<not> stop e \<and> fails_times n stop call w1 w')"

lemma retry_loop_first:
  "0 < n \<Longrightarrow> call w = (Inr v, w') \<Longrightarrow> retry_loop n stop acc call w = (Inr v, w')"
  by (cases n) auto

lemma retry_loop_success:
  "0 < n \<Longrightarrow> retry_loop n stop acc call w = (Inr v, w') \<Longrightarrow>
     \<exists>k w1. k < n \<and> fails_times k stop call w w1 \<and> call w1 = (Inr v, w')"
proof (induction n arbitrary: acc w)
  case 0
  then show ?case by simp
next
  case (Suc n)
  obtain r w1 where c: "call w = (r, w1)" by (cases "call w")
  show ?case
  proof (cases r)
    case (Inr a)
    with Suc.prems c show ?thesis by (intro exI[of _ 0] exI[of _ w]) auto
  next
    case (Inl e)
    with Suc.prems c have ns: "\<not> stop e"
      and rec: "retry_loop n stop (Inl e) call w1 = (Inr v, w')"
      by (auto split: if_splits)
    from rec have "0 < n" by (cases n) auto
    from Suc.IH[OF this rec] obtain k w2 where
      "k < n" "fails_times k stop call w1 w2" "call w2 = (Inr v, w')" by blast
    with c Inl ns show ?thesis by (intro exI[of _ "Suc k"] exI[of _ w2]) auto
  qed
qed

text \<open>A view of the world that no failing call changes is what the successful attempt sees.\<close>

lemma fails_times_view:
  assumes "fails_times k stop call w w'"
    and "\<And>w e w1. call w = (Inl e, w1) \<Longrightarrow> view w1 = view w"
  shows "view w' = view w"
  using assms(1)
proof (induction k arbitrary: w)
  case 0
  then show ?case by simp
next
  case (Suc k)
  then obtain e w1 where "call w = (Inl e, w1)" "fails_times k stop call w1 w'" by auto
  with Suc.IH assms(2) show ?case by metis
qed

lemma retry_loop_error:
  "0 < n \<Longrightarrow> retry_loop n stop acc call w = (Inl e, w') \<Longrightarrow>
     \<exists>k w1. k < n \<and> fails_times k stop call w w1 \<and> call w1 = (Inl e, w')"
proof (induction n arbitrary: acc w)
  case 0
  then show ?case by simp
next
  case (Suc n)
  obtain r w1 where c: "call w = (r, w1)" by (cases "call w")
  with Suc.prems obtain e1 where r: "r = Inl e1" by (cases r) auto
  show ?case
  proof (cases "stop e1 \<or> n = 0")
    case True
    with Suc.prems c r show ?thesis
      by (intro exI[of _ 0] exI[of _ w]) (auto split: if_splits)
  next
    case False
    with Suc.prems c r have "retry_loop n stop (Inl e1) call w1 = (Inl e, w')" by auto
    from Suc.IH[OF _ this] False obtain k w2 where
      "k < n" "fails_times k stop call w1 w2" "call w2 = (Inl e, w')" by auto
    with c r False show ?thesis by (intro exI[of _ "Suc k"] exI[of _ w2]) auto
  qed
qed

section \<open>Outcomes\<close>

text \<open>\<open>halt\<close> names the two ways in which a goroutine does not go on.\<close>

datatype halt = Panicked | Blocked

type_synonym ('w, 'a) proc = "'w \<Rightarrow> halt + ('a \<times> 'w)"

definition then_do :: "('w, 'a) proc \<Rightarrow> ('a \<Rightarrow> ('w, 'b) proc) \<Rightarrow> ('w, 'b) proc" where
  "then_do m k w = (case m w of Inl h \<Rightarrow> Inl h | Inr (v, w') \<Rightarrow> k v w')"

definition returns :: "'a \<Rightarrow> ('w, 'a) proc" where
  "returns v w = Inr (v, w)"

definition run_io :: "('w, 'a) io \<Rightarrow> ('w, 'a) proc" where
  "run_io m w = Inr (m w)"

lemma proc_simps [simp]: "returns v w = Inr (v, w)" "run_io m w = Inr (m w)"
  by (simp_all add: returns_def run_io_def)

lemma then_doE:
  assumes "then_do m k w = Inr (v, w')"
  obtains u w1 where "m w = Inr (u, w1)" "k u w1 = Inr (v, w')"
  using assms by (auto simp: then_do_def split: sum.splits)

section \<open>int32 amounts\<close>

text \<open>\<open>int32(n)\<close> of a count below \<open>2^31\<close> keeps its value and its sign.\<close>

lemma sint_int32 [acct]: "n < 2 ^ 31 \<Longrightarrow> sint (word_of_nat n :: int32) = int n"
  by (simp add: signed_of_nat signed_take_bit_int_eq_self)

lemma int32_pos [acct]: "n < 2 ^ 31 \<Longrightarrow> (0 <s (word_of_nat n :: int32)) \<longleftrightarrow> 0 < n"
  by (simp add: word_sless_alt sint_int32)

lemma int32_diff [acct]:
  "m \<le> n \<Longrightarrow> (word_of_nat n :: int32) - word_of_nat m = word_of_nat (n - m)"
  by simp

end
