(* ===== verification/Pending.thy ===== *)
theory Pending
  imports Prelude
begin

text \<open>
  \<open>pkg/pendingTask/pendingTask.go\<close>: the per-message counter of outstanding deliveries, sharded
  over 64 maps. The maps hold pointers, so a \<open>pendingState\<close> is a cell of a store and a map
  holds its address; a goroutine that looked a state up keeps the address after the entry is
  deleted. The registered callbacks are named by a datatype with the functions the program
  installs, and calling one appends to the log \<open>fired\<close>.

  \<open>completion_counter\<close> is the contract the dispatchers rely on: a message initialised with
  \<open>n\<close> targets fires exactly one callback, when the amounts reported done or failed reach \<open>n\<close>.
\<close>

section \<open>State\<close>

record pending_state =
  pending :: int32
  failed :: int32

datatype done_func = DoneWarn | Done_SendACKToSender | Done_InsertAckCache

datatype fail_func = FailWarn | Fail_OnFailMessage

datatype callback = CallDone done_func int64 | CallFail fail_func int64 int32

record pending_manager =
  shards :: "(int64 \<rightharpoonup> nat) list"
  cells :: "pending_state list"
  doneFunc :: done_func
  failFunc :: fail_func
  fired :: "callback list"

definition shardCount :: nat where
  "shardCount = 64"

definition NewPendingManager :: pending_manager where
  "NewPendingManager = \<lparr>shards = replicate shardCount (\<lambda>_. None), cells = [],
     doneFunc = DoneWarn, failFunc = FailWarn, fired = []\<rparr>"

definition SetDoneFunc :: "pending_manager \<Rightarrow> done_func \<Rightarrow> pending_manager" where
  "SetDoneFunc pm f = pm\<lparr>doneFunc := f\<rparr>"

definition SetFailFunc :: "pending_manager \<Rightarrow> fail_func \<Rightarrow> pending_manager" where
  "SetFailFunc pm f = pm\<lparr>failFunc := f\<rparr>"

section \<open>Operations\<close>

text \<open>
  \<open>getShard\<close>: the negation wraps at the least \<open>int64\<close>, and Go's \<open>%\<close> truncates towards
  zero; the result indexes an array of 64 elements, so anything outside would panic.
\<close>

definition getShard :: "int64 \<Rightarrow> int" where
  "getShard msgID = (let m = (if msgID <s 0 then - msgID else msgID) in sint m smod int shardCount)"

definition shard_find :: "pending_manager \<Rightarrow> int64 \<Rightarrow> nat option" where
  "shard_find pm msgID = (shards pm ! nat (getShard msgID)) msgID"

definition shard_set :: "pending_manager \<Rightarrow> int64 \<Rightarrow> nat option \<Rightarrow> pending_manager" where
  "shard_set pm msgID v =
     (let i = nat (getShard msgID) in pm\<lparr>shards := (shards pm)[i := (shards pm ! i)(msgID := v)]\<rparr>)"

definition Init :: "pending_manager \<Rightarrow> int64 \<Rightarrow> int32 \<Rightarrow> pending_manager" where
  "Init pm msgID n =
     (let a = length (cells pm);
          pm' = pm\<lparr>cells := cells pm @ [\<lparr>pending = n, failed = 0\<rparr>]\<rparr>
      in shard_set pm' msgID (Some a))"

definition Delete :: "pending_manager \<Rightarrow> int64 \<Rightarrow> pending_manager" where
  "Delete pm msgID = shard_set pm msgID None"

text \<open>The atomic operations on a cell, and calling a registered callback.\<close>

definition addPending :: "pending_manager \<Rightarrow> nat \<Rightarrow> int32 \<Rightarrow> pending_manager" where
  "addPending pm a d = pm\<lparr>cells := (cells pm)[a := (cells pm ! a)\<lparr>pending := pending (cells pm ! a) + d\<rparr>]\<rparr>"

definition addFailed :: "pending_manager \<Rightarrow> nat \<Rightarrow> int32 \<Rightarrow> pending_manager" where
  "addFailed pm a d = pm\<lparr>cells := (cells pm)[a := (cells pm ! a)\<lparr>failed := failed (cells pm ! a) + d\<rparr>]\<rparr>"

definition fire :: "pending_manager \<Rightarrow> callback \<Rightarrow> pending_manager" where
  "fire pm c = pm\<lparr>fired := fired pm @ [c]\<rparr>"

definition DoneN :: "pending_manager \<Rightarrow> int64 \<Rightarrow> int32 \<Rightarrow> pending_manager" where
  "DoneN pm msgID n =
     (case shard_find pm msgID of
        None \<Rightarrow> pm
      | Some a \<Rightarrow>
          let pm1 = addPending pm a (- n); newPending = pending (cells pm1 ! a) in
          if 0 <s newPending then pm1
          else
            let pm2 = Delete pm1 msgID; failedCount = failed (cells pm2 ! a) in
            if 0 <s failedCount then fire pm2 (CallFail (failFunc pm2) msgID failedCount)
            else fire pm2 (CallDone (doneFunc pm2) msgID))"

definition FailN :: "pending_manager \<Rightarrow> int64 \<Rightarrow> int32 \<Rightarrow> pending_manager" where
  "FailN pm msgID n =
     (case shard_find pm msgID of
        None \<Rightarrow> pm
      | Some a \<Rightarrow>
          let pm0 = addFailed pm a n;
              pm1 = addPending pm0 a (- n); newPending = pending (cells pm1 ! a) in
          if 0 <s newPending then pm1
          else
            let pm2 = Delete pm1 msgID in
            fire pm2 (CallFail (failFunc pm2) msgID (failed (cells pm2 ! a))))"

definition Done :: "pending_manager \<Rightarrow> int64 \<Rightarrow> pending_manager" where
  "Done pm msgID = DoneN pm msgID 1"

definition Fail :: "pending_manager \<Rightarrow> int64 \<Rightarrow> pending_manager" where
  "Fail pm msgID = FailN pm msgID 1"

section \<open>Sharding\<close>

lemma smod_nonneg: "0 \<le> x \<Longrightarrow> x smod (64 :: int) = x mod 64"
  by (simp add: signed_modulo_int_def sgn_if)

text \<open>The least \<open>int64\<close> is its own negation, and is a multiple of 64: still in range.\<close>

lemma getShard_range: "0 \<le> getShard msgID \<and> getShard msgID < 64"
proof (cases "msgID <s 0")
  case True
  have neg: "sint msgID < 0" using True by (simp add: word_sless_alt)
  show ?thesis
  proof (cases "sint msgID = - (2 ^ 63)")
    case True
    have "msgID = word_of_int (sint msgID)" by simp
    with True have "msgID = word_of_int (- (2 ^ 63))" by (simp only:)
    then have "getShard msgID = (- (2 ^ 63)) smod 64"
      by (simp add: getShard_def shardCount_def)
    then show ?thesis by (simp add: signed_modulo_int_def)
  next
    case False
    have "- (2 ^ 63) \<le> sint msgID" using sint_ge [of msgID] by simp
    with False neg have "0 \<le> - sint msgID" "- sint msgID < 2 ^ 63" by auto
    then have "sint (- msgID) = - sint msgID"
      by (simp add: signed_take_bit_int_eq_self sint_word_ariths)
    with True have "getShard msgID = (- sint msgID) smod 64"
      by (simp add: getShard_def shardCount_def)
    also have "\<dots> = (- sint msgID) mod 64" using neg by (intro smod_nonneg) simp
    finally show ?thesis by simp
  qed
next
  case False
  then have "0 \<le> sint msgID" by (simp add: word_sless_alt)
  with False show ?thesis
    by (simp add: getShard_def shardCount_def smod_nonneg)
qed


section \<open>Well-formedness and the abstract counter\<close>

text \<open>
  The abstract view of the manager: for every message the pair of counters its current cell
  holds. Well-formed: 64 maps, every key in its own shard, every address allocated and used by
  one message only, so that the view can be updated key by key.
\<close>

definition view :: "pending_manager \<Rightarrow> int64 \<Rightarrow> (int32 \<times> int32) option" where
  "view pm msgID =
     map_option (\<lambda>a. (pending (cells pm ! a), failed (cells pm ! a))) (shard_find pm msgID)"

definition pm_wf :: "pending_manager \<Rightarrow> bool" where
  "pm_wf pm \<longleftrightarrow> length (shards pm) = shardCount
     \<and> (\<forall>k a. shard_find pm k = Some a \<longrightarrow> a < length (cells pm))
     \<and> (\<forall>j k a. shard_find pm j = Some a \<longrightarrow> shard_find pm k = Some a \<longrightarrow> j = k)"

lemma shard_index: "nat (getShard k) < shardCount"
  using getShard_range [of k] by (auto simp: shardCount_def nat_less_iff)

lemma shard_find_set [simp]:
  "length (shards pm) = shardCount \<Longrightarrow>
     shard_find (shard_set pm k v) j = (if j = k then v else shard_find pm j)"
  using shard_index [of k] by (auto simp: shard_find_def shard_set_def Let_def nth_list_update)

lemma shard_set_fields [simp]:
  "cells (shard_set pm k v) = cells pm" "fired (shard_set pm k v) = fired pm"
  "doneFunc (shard_set pm k v) = doneFunc pm" "failFunc (shard_set pm k v) = failFunc pm"
  "length (shards (shard_set pm k v)) = length (shards pm)"
  by (simp_all add: shard_set_def Let_def)

lemma shard_find_cells [simp]: "shard_find (pm\<lparr>cells := c\<rparr>) = shard_find pm"
  "shard_find (pm\<lparr>fired := es\<rparr>) = shard_find pm"
  by (auto simp: shard_find_def)

lemma find_lt: "pm_wf pm \<Longrightarrow> shard_find pm k = Some a \<Longrightarrow> a < length (cells pm)"
  by (simp add: pm_wf_def)

lemma find_inj: "pm_wf pm \<Longrightarrow> shard_find pm j = Some a \<Longrightarrow> shard_find pm k = Some a \<Longrightarrow> j = k"
  unfolding pm_wf_def by blast

lemma pm_wf_new [simp]: "pm_wf NewPendingManager"
  by (auto simp: pm_wf_def NewPendingManager_def shard_find_def shard_index)

lemma view_new [simp]: "view NewPendingManager k = None"
  by (simp add: view_def NewPendingManager_def shard_find_def shard_index)

lemma pm_wf_set_funcs [simp]: "pm_wf (SetDoneFunc pm f) = pm_wf pm" "pm_wf (SetFailFunc pm g) = pm_wf pm"
  by (simp_all add: pm_wf_def SetDoneFunc_def SetFailFunc_def shard_find_def)

lemma pm_wf_Init: "pm_wf pm \<Longrightarrow> pm_wf (Init pm k n)"
  unfolding pm_wf_def Init_def Let_def by (auto split: if_splits dest: less_imp_neq) fastforce+

lemma view_Init: "pm_wf pm \<Longrightarrow> view (Init pm k n) = (view pm)(k \<mapsto> (n, 0))"
  by (rule ext) (auto simp: view_def Init_def Let_def pm_wf_def nth_append
      intro!: option.map_cong0 dest: find_lt)

lemma fired_Init [simp]: "fired (Init pm k n) = fired pm"
  by (simp add: Init_def Let_def)

lemma pm_wf_Delete: "pm_wf pm \<Longrightarrow> pm_wf (Delete pm k)"
  by (auto simp: pm_wf_def Delete_def split: if_splits)

lemma view_Delete: "pm_wf pm \<Longrightarrow> view (Delete pm k) = (view pm)(k := None)"
  by (rule ext) (simp add: view_def Delete_def pm_wf_def)


text \<open>Effect of the two atomic additions on the view.\<close>

lemma shard_find_add [simp]:
  "shard_find (addPending pm a d) = shard_find pm" "shard_find (addFailed pm a d) = shard_find pm"
  "fired (addPending pm a d) = fired pm" "fired (addFailed pm a d) = fired pm"
  "doneFunc (addPending pm a d) = doneFunc pm" "doneFunc (addFailed pm a d) = doneFunc pm"
  "failFunc (addPending pm a d) = failFunc pm" "failFunc (addFailed pm a d) = failFunc pm"
  by (simp_all add: addPending_def addFailed_def)

lemma cells_add [simp]:
  "a < length (cells pm) \<Longrightarrow> cells (addPending pm a d) ! a = (cells pm ! a)\<lparr>pending := pending (cells pm ! a) + d\<rparr>"
  "a < length (cells pm) \<Longrightarrow> cells (addFailed pm a d) ! a = (cells pm ! a)\<lparr>failed := failed (cells pm ! a) + d\<rparr>"
  "length (cells (addPending pm a d)) = length (cells pm)"
  "length (cells (addFailed pm a d)) = length (cells pm)"
  by (simp_all add: addPending_def addFailed_def)

lemma shards_add [simp]: "shards (addPending pm a d) = shards pm" "shards (addFailed pm a d) = shards pm"
  by (simp_all add: addPending_def addFailed_def)

lemma pm_wf_add [simp]: "pm_wf (addPending pm a d) = pm_wf pm" "pm_wf (addFailed pm a d) = pm_wf pm"
  unfolding pm_wf_def by (simp_all only: shards_add shard_find_add cells_add)

lemma view_add_cell:
  assumes wf: "pm_wf pm" and a: "shard_find pm k = Some a"
    and cs: "cells pm' = (cells pm)[a := c]" and f: "shard_find pm' = shard_find pm"
  shows "view pm' = (view pm)(k \<mapsto> (pending c, failed c))"
proof (rule ext)
  fix j
  show "view pm' j = ((view pm)(k \<mapsto> (pending c, failed c))) j"
  proof (cases "j = k")
    case True
    with find_lt [OF wf a] a show ?thesis by (simp add: view_def cs f)
  next
    case False
    then have "shard_find pm j \<noteq> Some a" using find_inj [OF wf a] by blast
    with False show ?thesis
      by (cases "shard_find pm j") (auto simp: view_def cs f nth_list_update)
  qed
qed

lemma view_addPending:
  "pm_wf pm \<Longrightarrow> shard_find pm k = Some a \<Longrightarrow>
     view (addPending pm a d) = (view pm)(k \<mapsto> (pending (cells pm ! a) + d, failed (cells pm ! a)))"
  by (subst view_add_cell [where c = "(cells pm ! a)\<lparr>pending := pending (cells pm ! a) + d\<rparr>"])
     (auto simp: addPending_def)

lemma view_addFailed:
  "pm_wf pm \<Longrightarrow> shard_find pm k = Some a \<Longrightarrow>
     view (addFailed pm a d) = (view pm)(k \<mapsto> (pending (cells pm ! a), failed (cells pm ! a) + d))"
  by (subst view_add_cell [where c = "(cells pm ! a)\<lparr>failed := failed (cells pm ! a) + d\<rparr>"])
     (auto simp: addFailed_def)

lemma view_fire [simp]: "view (fire pm c) = view pm" "pm_wf (fire pm c) = pm_wf pm"
  "fired (fire pm c) = fired pm @ [c]"
  by (auto simp: view_def fire_def pm_wf_def)

lemma Delete_fields [simp]: "fired (Delete pm k) = fired pm" "cells (Delete pm k) = cells pm"
  "doneFunc (Delete pm k) = doneFunc pm" "failFunc (Delete pm k) = failFunc pm"
  by (simp_all add: Delete_def)

text \<open>What a completed message fires.\<close>

definition completion :: "pending_manager \<Rightarrow> int64 \<Rightarrow> int32 \<Rightarrow> callback" where
  "completion pm k f = (if 0 <s f then CallFail (failFunc pm) k f else CallDone (doneFunc pm) k)"

lemma view_find: "view pm k = Some (c, f) \<longleftrightarrow>
  (\<exists>a. shard_find pm k = Some a \<and> pending (cells pm ! a) = c \<and> failed (cells pm ! a) = f)"
  by (auto simp: view_def)

lemma DoneN_unknown: "view pm k = None \<Longrightarrow> DoneN pm k n = pm"
  by (simp add: DoneN_def view_def)

lemma FailN_unknown: "view pm k = None \<Longrightarrow> FailN pm k n = pm"
  by (simp add: FailN_def view_def)

lemma DoneN_more:
  assumes "pm_wf pm" "view pm k = Some (c, f)" "0 <s c - n"
  shows "pm_wf (DoneN pm k n) \<and> view (DoneN pm k n) = (view pm)(k \<mapsto> (c - n, f))
    \<and> fired (DoneN pm k n) = fired pm"
proof -
  from assms(2) obtain a where a: "shard_find pm k = Some a" "pending (cells pm ! a) = c"
    "failed (cells pm ! a) = f" by (auto simp: view_find)
  show ?thesis
    using a assms(1,3) find_lt [OF assms(1) a(1)] view_addPending [OF assms(1) a(1), of "- n"]
    by (simp add: DoneN_def Let_def)
qed

lemma DoneN_last:
  assumes wf: "pm_wf pm" and v: "view pm k = Some (c, f)" and le: "\<not> 0 <s c - n"
  shows "pm_wf (DoneN pm k n) \<and> view (DoneN pm k n) = (view pm)(k := None)
    \<and> fired (DoneN pm k n) = fired pm @ [completion pm k f]"
proof -
  from v obtain a where a: "shard_find pm k = Some a" "pending (cells pm ! a) = c"
    "failed (cells pm ! a) = f" by (auto simp: view_find)
  let ?pm1 = "addPending pm a (- n)"
  have wf1: "pm_wf ?pm1" using wf by simp
  show ?thesis
    using a le find_lt [OF wf a(1)] wf view_addPending [OF wf a(1), of "- n"]
      view_Delete [OF wf1, of k] pm_wf_Delete [OF wf1, of k]
    by (simp add: DoneN_def Let_def completion_def)
qed

lemma FailN_more:
  assumes "pm_wf pm" "view pm k = Some (c, f)" "0 <s c - n"
  shows "pm_wf (FailN pm k n) \<and> view (FailN pm k n) = (view pm)(k \<mapsto> (c - n, f + n))
    \<and> fired (FailN pm k n) = fired pm"
proof -
  from assms(2) obtain a where a: "shard_find pm k = Some a" "pending (cells pm ! a) = c"
    "failed (cells pm ! a) = f" by (auto simp: view_find)
  let ?pm0 = "addFailed pm a n"
  have wf0: "pm_wf ?pm0" and a0: "shard_find ?pm0 k = Some a" using assms(1) a by simp_all
  show ?thesis
    using a assms(1,3) find_lt [OF assms(1) a(1)] view_addFailed [OF assms(1) a(1), of n]
      view_addPending [OF wf0 a0, of "- n"]
    by (simp add: FailN_def Let_def)
qed

lemma FailN_last:
  assumes wf: "pm_wf pm" and v: "view pm k = Some (c, f)" and le: "\<not> 0 <s c - n"
  shows "pm_wf (FailN pm k n) \<and> view (FailN pm k n) = (view pm)(k := None)
    \<and> fired (FailN pm k n) = fired pm @ [CallFail (failFunc pm) k (f + n)]"
proof -
  from v obtain a where a: "shard_find pm k = Some a" "pending (cells pm ! a) = c"
    "failed (cells pm ! a) = f" by (auto simp: view_find)
  let ?pm0 = "addFailed pm a n"
  let ?pm1 = "addPending ?pm0 a (- n)"
  have wf0: "pm_wf ?pm0" and wf1: "pm_wf ?pm1" using wf by simp_all
  have a0: "shard_find ?pm0 k = Some a" using a by simp
  show ?thesis
    using a le find_lt [OF wf a(1)] wf view_addFailed [OF wf a(1), of n]
      view_addPending [OF wf0 a0, of "- n"] view_Delete [OF wf1, of k] pm_wf_Delete [OF wf1, of k]
    by (simp add: FailN_def Let_def)
qed


lemma funcs_DoneN [simp]: "doneFunc (DoneN pm k n) = doneFunc pm" "failFunc (DoneN pm k n) = failFunc pm"
  by (simp_all add: DoneN_def Let_def fire_def split: option.split)

lemma funcs_FailN [simp]: "doneFunc (FailN pm k n) = doneFunc pm" "failFunc (FailN pm k n) = failFunc pm"
  by (simp_all add: FailN_def Let_def fire_def split: option.split)

section \<open>The contract and its client lemmas\<close>

text \<open>A report of a dispatcher: \<open>n\<close> targets of a message delivered, or given up.\<close>

datatype report = RDone (rid: int64) (ramount: nat) | RFail (rid: int64) (ramount: nat)

fun rfailed :: "report \<Rightarrow> nat" where
  "rfailed (RDone k n) = 0"
| "rfailed (RFail k n) = n"

fun about :: "callback \<Rightarrow> int64" where
  "about (CallDone f k) = k"
| "about (CallFail f k n) = k"

definition reports_on :: "int64 \<Rightarrow> report list \<Rightarrow> report list" where
  "reports_on k rs = filter (\<lambda>r. rid r = k) rs"

definition total :: "int64 \<Rightarrow> report list \<Rightarrow> nat" where
  "total k rs = sum_list (map ramount (reports_on k rs))"

definition total_failed :: "int64 \<Rightarrow> report list \<Rightarrow> nat" where
  "total_failed k rs = sum_list (map rfailed (reports_on k rs))"

lemma total_simps [simp, acct]:
  "total k [] = 0" "total_failed k [] = 0"
  "total k (r # rs) = (if rid r = k then ramount r else 0) + total k rs"
  "total_failed k (r # rs) = (if rid r = k then rfailed r else 0) + total_failed k rs"
  "total k (rs @ rs') = total k rs + total k rs'"
  "total_failed k (rs @ rs') = total_failed k rs + total_failed k rs'"
  by (simp_all add: total_def total_failed_def reports_on_def)

lemma rfailed_le: "rfailed r \<le> ramount r"
  by (cases r) auto

lemma total_failed_le [acct]: "total_failed k rs \<le> total k rs"
  by (induction rs) (auto simp: add_mono rfailed_le)

locale completion_counter =
  fixes init :: "'p \<Rightarrow> int64 \<Rightarrow> int32 \<Rightarrow> 'p"
    and done_n :: "'p \<Rightarrow> int64 \<Rightarrow> int32 \<Rightarrow> 'p"
    and fail_n :: "'p \<Rightarrow> int64 \<Rightarrow> int32 \<Rightarrow> 'p"
    and counts :: "'p \<Rightarrow> int64 \<Rightarrow> (int32 \<times> int32) option"
    and log :: "'p \<Rightarrow> callback list"
    and on_done :: "'p \<Rightarrow> done_func"
    and on_fail :: "'p \<Rightarrow> fail_func"
    and ok :: "'p \<Rightarrow> bool"
  assumes ok_init: "ok p \<Longrightarrow> ok (init p k n)"
    and counts_init: "ok p \<Longrightarrow> counts (init p k n) = (counts p)(k \<mapsto> (n, 0))"
    and log_init: "ok p \<Longrightarrow> log (init p k n) = log p"
    and done_unknown: "counts p k = None \<Longrightarrow> done_n p k n = p"
    and fail_unknown: "counts p k = None \<Longrightarrow> fail_n p k n = p"
    and done_more: "ok p \<Longrightarrow> counts p k = Some (c, f) \<Longrightarrow> 0 <s c - n \<Longrightarrow>
      ok (done_n p k n) \<and> counts (done_n p k n) = (counts p)(k \<mapsto> (c - n, f))
      \<and> log (done_n p k n) = log p"
    and fail_more: "ok p \<Longrightarrow> counts p k = Some (c, f) \<Longrightarrow> 0 <s c - n \<Longrightarrow>
      ok (fail_n p k n) \<and> counts (fail_n p k n) = (counts p)(k \<mapsto> (c - n, f + n))
      \<and> log (fail_n p k n) = log p"
    and done_last: "ok p \<Longrightarrow> counts p k = Some (c, f) \<Longrightarrow> \<not> 0 <s c - n \<Longrightarrow>
      ok (done_n p k n) \<and> counts (done_n p k n) = (counts p)(k := None)
      \<and> log (done_n p k n) =
          log p @ [if 0 <s f then CallFail (on_fail p) k f else CallDone (on_done p) k]"
    and fail_last: "ok p \<Longrightarrow> counts p k = Some (c, f) \<Longrightarrow> \<not> 0 <s c - n \<Longrightarrow>
      ok (fail_n p k n) \<and> counts (fail_n p k n) = (counts p)(k := None)
      \<and> log (fail_n p k n) = log p @ [CallFail (on_fail p) k (f + n)]"
    and funcs_init: "on_done (init p k n) = on_done p \<and> on_fail (init p k n) = on_fail p"
    and funcs_done: "on_done (done_n p k n) = on_done p \<and> on_fail (done_n p k n) = on_fail p"
    and funcs_fail: "on_done (fail_n p k n) = on_done p \<and> on_fail (fail_n p k n) = on_fail p"
begin

definition apply_report :: "report \<Rightarrow> 'p \<Rightarrow> 'p" where
  "apply_report r p = (case r of RDone k n \<Rightarrow> done_n p k (word_of_nat n) | RFail k n \<Rightarrow> fail_n p k (word_of_nat n))"

definition run_reports :: "report list \<Rightarrow> 'p \<Rightarrow> 'p" where
  "run_reports rs p = fold apply_report rs p"

lemma run_simps [simp]: "run_reports [] p = p"
  "run_reports (r # rs) p = run_reports rs (apply_report r p)"
  "run_reports (rs @ rs') p = run_reports rs' (run_reports rs p)"
  by (simp_all add: run_reports_def)

lemma report_ok: "ok p \<Longrightarrow> ok (apply_report r p)"
  by (cases r; cases "counts p (rid r)")
     (auto simp: apply_report_def done_unknown fail_unknown dest: done_more done_last fail_more fail_last)

lemma run_ok: "ok p \<Longrightarrow> ok (run_reports rs p)"
  by (induction rs arbitrary: p) (auto intro: report_ok)

lemma report_funcs [simp]: "on_done (apply_report r p) = on_done p" "on_fail (apply_report r p) = on_fail p"
  by (simp_all add: apply_report_def funcs_done funcs_fail split: report.split)

lemma run_funcs [simp]: "on_done (run_reports rs p) = on_done p" "on_fail (run_reports rs p) = on_fail p"
  by (induction rs arbitrary: p) auto

end


context completion_counter
begin

definition log_on :: "int64 \<Rightarrow> 'p \<Rightarrow> callback list" where
  "log_on k p = filter (\<lambda>c. about c = k) (log p)"

definition verdict :: "'p \<Rightarrow> int64 \<Rightarrow> nat \<Rightarrow> callback" where
  "verdict p k f = (if 0 < f then CallFail (on_fail p) k (word_of_nat f) else CallDone (on_done p) k)"

lemma verdict_report [simp]: "verdict (apply_report r p) k f = verdict p k f"
  by (simp add: verdict_def)

lemma report_other:
  assumes "ok p" "rid r \<noteq> k"
  shows "counts (apply_report r p) k = counts p k \<and> log_on k (apply_report r p) = log_on k p"
proof (cases "counts p (rid r)")
  case None
  then show ?thesis
    by (cases r) (simp_all add: apply_report_def done_unknown fail_unknown)
next
  case (Some cf)
  obtain c f where cf: "cf = (c, f)" by force
  show ?thesis
  proof (cases "0 <s c - word_of_nat (ramount r)")
    case True
    with Some cf assms show ?thesis
      by (cases r) (auto simp: apply_report_def log_on_def done_more fail_more)
  next
    case False
    with Some cf assms show ?thesis
      by (cases r) (auto simp: apply_report_def log_on_def done_last fail_last)
  qed
qed

lemma report_more:
  assumes "ok p" and c: "counts p k = Some (word_of_nat n, word_of_nat f)"
    and "rid r = k" and lt: "ramount r < n" and n: "n < 2 ^ 31"
  shows "counts (apply_report r p) k = Some (word_of_nat (n - ramount r), word_of_nat (f + rfailed r))
    \<and> log_on k (apply_report r p) = log_on k p"
proof -
  have pos: "0 <s (word_of_nat n :: int32) - word_of_nat (ramount r)"
    using int32_pos [of "n - ramount r"] lt n by simp
  with assms show ?thesis
    by (cases r) (auto simp: apply_report_def log_on_def done_more fail_more)
qed

lemma report_last:
  assumes "ok p" and c: "counts p k = Some (word_of_nat n, word_of_nat f)"
    and "rid r = k" and eq: "ramount r = n" and n: "0 < n" and f: "n + f < 2 ^ 31"
  shows "counts (apply_report r p) k = None
    \<and> log_on k (apply_report r p) = log_on k p @ [verdict p k (f + rfailed r)]"
proof -
  have np: "\<not> 0 <s (word_of_nat n :: int32) - word_of_nat (ramount r)" using eq by simp
  have "(0 <s (word_of_nat f :: int32)) = (0 < f)" using f by (intro int32_pos) simp
  with np assms show ?thesis
    by (cases r) (auto simp: apply_report_def log_on_def verdict_def done_last fail_last)
qed

lemma report_gone:
  "counts p k = None \<Longrightarrow> rid r = k \<Longrightarrow> apply_report r p = p"
  by (cases r) (auto simp: apply_report_def done_unknown fail_unknown)

lemma run_gone:
  "ok p \<Longrightarrow> counts p k = None \<Longrightarrow> counts (run_reports rs p) k = None \<and> log_on k (run_reports rs p) = log_on k p"
proof (induction rs arbitrary: p)
  case Nil
  then show ?case by simp
next
  case (Cons r rs)
  show ?case
  proof (cases "rid r = k")
    case True
    with Cons show ?thesis by (simp add: report_gone)
  next
    case False
    with Cons report_other [of p r k] show ?thesis by (simp add: report_ok)
  qed
qed

text \<open>
  The contract's main consequence. Whatever else is reported in between, in whatever order:
  as long as fewer than \<open>n\<close> targets of \<open>k\<close> are accounted for nothing fires about \<open>k\<close>,
  and when all are, exactly one callback has fired, with the failures of all reports.
\<close>

lemma run_partial:
  "ok p \<Longrightarrow> counts p k = Some (word_of_nat n, word_of_nat f) \<Longrightarrow> n < 2 ^ 31 \<Longrightarrow> total k rs < n \<Longrightarrow>
     counts (run_reports rs p) k = Some (word_of_nat (n - total k rs), word_of_nat (f + total_failed k rs))
     \<and> log_on k (run_reports rs p) = log_on k p"
proof (induction rs arbitrary: p n f)
  case Nil
  then show ?case by simp
next
  case (Cons r rs)
  show ?case
  proof (cases "rid r = k")
    case True
    from report_more [OF Cons.prems(1,2) True] Cons.prems True
    have "counts (apply_report r p) k = Some (word_of_nat (n - ramount r), word_of_nat (f + rfailed r))
      \<and> log_on k (apply_report r p) = log_on k p" by simp
    with Cons.IH [of "apply_report r p" "n - ramount r" "f + rfailed r"] Cons.prems True
    show ?thesis by (simp add: report_ok add.assoc)
  next
    case False
    with Cons report_other [of p r k] show ?thesis by (simp add: report_ok)
  qed
qed

lemma run_completes:
  "ok p \<Longrightarrow> counts p k = Some (word_of_nat n, word_of_nat f) \<Longrightarrow> 0 < n \<Longrightarrow> n + f < 2 ^ 31 \<Longrightarrow>
     (\<forall>r \<in> set rs. rid r = k \<longrightarrow> 0 < ramount r) \<Longrightarrow> total k rs = n \<Longrightarrow>
     counts (run_reports rs p) k = None
     \<and> log_on k (run_reports rs p) = log_on k p @ [verdict p k (f + total_failed k rs)]"
proof (induction rs arbitrary: p n f)
  case Nil
  then show ?case by simp
next
  case (Cons r rs)
  note ok' = report_ok [OF Cons.prems(1), of r]
  consider "rid r \<noteq> k" | "rid r = k" "ramount r = n" | "rid r = k" "ramount r < n"
    using Cons.prems(6) by fastforce
  then show ?case
  proof cases
    case 1
    with Cons report_other [of p r k] ok' show ?thesis by simp
  next
    case 2
    from report_last [OF Cons.prems(1,2) 2] Cons.prems
    have last: "counts (apply_report r p) k = None
      \<and> log_on k (apply_report r p) = log_on k p @ [verdict p k (f + rfailed r)]" by simp
    moreover have "total_failed k rs = 0"
      using total_failed_le [of k rs] Cons.prems(6) 2 by simp
    ultimately show ?thesis using run_gone [OF ok', of k rs] 2 by simp
  next
    case 3
    from report_more [OF Cons.prems(1,2) 3] Cons.prems
    have "counts (apply_report r p) k = Some (word_of_nat (n - ramount r), word_of_nat (f + rfailed r))
      \<and> log_on k (apply_report r p) = log_on k p" by simp
    moreover have "n - ramount r + (f + rfailed r) < 2 ^ 31"
      using rfailed_le [of r] Cons.prems(4) 3 by simp
    ultimately show ?thesis
      using Cons.IH [OF ok', of "n - ramount r" "f + rfailed r"] Cons.prems 3
      by (simp add: add.assoc)
  qed
qed

end

section \<open>The manager provides the contract\<close>

interpretation pmc: completion_counter Init DoneN FailN view fired doneFunc failFunc pm_wf
  by unfold_locales
     (auto simp: pm_wf_Init view_Init DoneN_unknown FailN_unknown DoneN_more FailN_more
        DoneN_last FailN_last completion_def, simp_all add: Init_def Let_def)

section \<open>Sequences of reports\<close>

definition apply_pm_report :: "report \<Rightarrow> pending_manager \<Rightarrow> pending_manager" where
  "apply_pm_report r pm = (case r of
      RDone k n \<Rightarrow> DoneN pm k (word_of_nat n) | RFail k n \<Rightarrow> FailN pm k (word_of_nat n))"

definition run_pm :: "report list \<Rightarrow> pending_manager \<Rightarrow> pending_manager" where
  "run_pm rs pm = fold apply_pm_report rs pm"

lemma run_pm_reports: "run_pm rs pm = pmc.run_reports rs pm"
proof -
  have "apply_pm_report = pmc.apply_report"
    by (intro ext) (simp add: apply_pm_report_def pmc.apply_report_def)
  then show ?thesis by (simp add: run_pm_def pmc.run_reports_def)
qed

lemma run_pm_append [simp]: "run_pm (rs @ rs') pm = run_pm rs' (run_pm rs pm)"
  by (simp add: run_pm_def)

lemma total_replicate [simp]:
  "total k (replicate n (RDone k m)) = n * m" "total_failed k (replicate n (RDone k m)) = 0"
  by (induction n) simp_all

lemma pending_run_complete:
  assumes wf: "pm_wf pm" and n: "0 < n" "n < 2 ^ 31"
    and pos: "\<forall>r \<in> set rs. rid r = k \<longrightarrow> 0 < ramount r"
    and pm': "pm' = run_pm rs (Init pm k (word_of_nat n))"
  shows "(total k rs < n \<longrightarrow>
      view pm' k = Some (word_of_nat (n - total k rs), word_of_nat (total_failed k rs))
      \<and> filter (\<lambda>c. about c = k) (fired pm') = filter (\<lambda>c. about c = k) (fired pm))
    \<and> (total k rs = n \<longrightarrow> view pm' k = None
      \<and> filter (\<lambda>c. about c = k) (fired pm') = filter (\<lambda>c. about c = k) (fired pm)
          @ [if 0 < total_failed k rs then CallFail (failFunc pm) k (word_of_nat (total_failed k rs))
             else CallDone (doneFunc pm) k]
      \<and> (\<forall>r. rid r = k \<longrightarrow> apply_pm_report r pm' = pm'))"
proof -
  let ?p = "Init pm k (word_of_nat n)"
  have ok: "pm_wf ?p" and v: "view ?p k = Some (word_of_nat n, word_of_nat 0)"
    and f: "doneFunc ?p = doneFunc pm" "failFunc ?p = failFunc pm"
    using wf by (simp_all add: pm_wf_Init view_Init) (simp_all add: Init_def Let_def)
  have r: "pm' = pmc.run_reports rs ?p" using pm' by (simp add: run_pm_reports)
  have gone: "apply_pm_report r pm' = pm'" if "view pm' k = None" "rid r = k" for r
    using pmc.report_gone [OF that] by (simp add: apply_pm_report_def pmc.apply_report_def)
  show ?thesis
    using pmc.run_partial [OF ok v n(2), of rs] pmc.run_completes [OF ok v n(1) _ pos] n gone
    unfolding r [symmetric] by (auto simp: pmc.log_on_def pmc.verdict_def f)
qed

text \<open>
  C3: after \<open>Init\<close> with \<open>n\<close> targets, whatever sequence of \<open>DoneN\<close> and \<open>FailN\<close> calls on this and
  other messages follows: while fewer than \<open>n\<close> targets of the message are reported no callback about
  it fires; when all are, its entry is gone and exactly one callback was fired, the failure one with
  the number of failed targets if there are any, the success one otherwise; later reports do nothing.
\<close>

theorem pending_reports_complete:
  assumes wf: "pm_wf pm" and n: "0 < n" "n < 2 ^ 31"
    and pos: "\<forall>r \<in> set rs. rid r = k \<longrightarrow> 0 < ramount r"
    and pm': "pm' = run_pm rs (Init pm k (word_of_nat n))"
  shows "(total k rs < n \<longrightarrow>
      view pm' k = Some (word_of_nat (n - total k rs), word_of_nat (total_failed k rs))
      \<and> filter (\<lambda>c. about c = k) (fired pm') = filter (\<lambda>c. about c = k) (fired pm))
    \<and> (total k rs = n \<longrightarrow> view pm' k = None
      \<and> filter (\<lambda>c. about c = k) (fired pm') = filter (\<lambda>c. about c = k) (fired pm)
          @ [if 0 < total_failed k rs then CallFail (failFunc pm) k (word_of_nat (total_failed k rs))
             else CallDone (doneFunc pm) k]
      \<and> (\<forall>r. rid r = k \<longrightarrow> apply_pm_report r pm' = pm'))"
  by (rule pending_run_complete [OF assms])

theorem pending_reports_complete_witness:
  "filter (\<lambda>c. about c = 7)
     (fired (run_pm [RDone 7 2, RFail 9 1, RFail 7 1] (Init NewPendingManager 7 3))) =
     [CallFail FailWarn 7 1]"
proof -
  have "\<forall>r \<in> set [RDone 7 2, RFail 9 1, RFail 7 1]. rid r = 7 \<longrightarrow> 0 < ramount r" by simp
  from pending_reports_complete [OF pm_wf_new _ _ this refl, of 3]
  show ?thesis by (simp add: NewPendingManager_def)
qed

text \<open>
  The shard index is always within the 64 shards, also for the least \<open>int64\<close>, whose negation
  wraps to itself; so no message id makes the array access panic.
\<close>

theorem getShard_in_range:
  "0 \<le> getShard msgID \<and> getShard msgID < int (length (shards NewPendingManager))"
  using getShard_range [of msgID] by (simp add: NewPendingManager_def shardCount_def)

end
