(* ===== verification/PendingConc.thy ===== *)
theory PendingConc
  imports Pending
begin

text \<open>
  \<open>DoneN\<close> and \<open>FailN\<close> of \<open>pkg/pendingTask/pendingTask.go\<close> as interleaved goroutines. A worker
  is one call in progress; its program counter names the next shared-memory operation: the map
  lookup, the two atomic additions, the deletion under the shard lock, the load of \<open>failed\<close> with
  the callback. Workers on one message run in any order; the invariant \<open>conc_inv\<close> shows that
  exactly one of them calls back, and only after every failure has been added.
\<close>

section \<open>Workers and their steps\<close>

datatype wpc =
    AtLookup
  | AtAddFailed nat
  | AtAddPending nat
  | AtDelete nat
  | AtCallback nat
  | Returned

record worker =
  wid :: int64
  wn :: nat
  wfail :: bool
  wpc :: wpc

record psys =
  mgr :: pending_manager
  workers :: "worker list"

definition set_pc :: "psys \<Rightarrow> nat \<Rightarrow> wpc \<Rightarrow> psys" where
  "set_pc s i p = s\<lparr>workers := (workers s)[i := (workers s ! i)\<lparr>wpc := p\<rparr>]\<rparr>"

definition callback_of :: "pending_manager \<Rightarrow> worker \<Rightarrow> nat \<Rightarrow> callback" where
  "callback_of pm w a =
     (let f = failed (cells pm ! a) in
      if wfail w then CallFail (failFunc pm) (wid w) f
      else if 0 <s f then CallFail (failFunc pm) (wid w) f else CallDone (doneFunc pm) (wid w))"

inductive pstep :: "psys \<Rightarrow> psys \<Rightarrow> bool" where
  lookup_missing: "i < length (workers s) \<Longrightarrow> wpc (workers s ! i) = AtLookup \<Longrightarrow>
     shard_find (mgr s) (wid (workers s ! i)) = None \<Longrightarrow> pstep s (set_pc s i Returned)"
| lookup_found: "i < length (workers s) \<Longrightarrow> wpc (workers s ! i) = AtLookup \<Longrightarrow>
     shard_find (mgr s) (wid (workers s ! i)) = Some a \<Longrightarrow>
     pstep s (set_pc s i (if wfail (workers s ! i) then AtAddFailed a else AtAddPending a))"
| add_failed: "i < length (workers s) \<Longrightarrow> wpc (workers s ! i) = AtAddFailed a \<Longrightarrow>
     pstep s ((set_pc s i (AtAddPending a))\<lparr>mgr := addFailed (mgr s) a (word_of_nat (wn (workers s ! i)))\<rparr>)"
| add_pending: "i < length (workers s) \<Longrightarrow> wpc (workers s ! i) = AtAddPending a \<Longrightarrow>
     m = addPending (mgr s) a (- word_of_nat (wn (workers s ! i))) \<Longrightarrow>
     pstep s ((set_pc s i (if 0 <s pending (cells m ! a) then Returned else AtDelete a))\<lparr>mgr := m\<rparr>)"
| delete: "i < length (workers s) \<Longrightarrow> wpc (workers s ! i) = AtDelete a \<Longrightarrow>
     pstep s ((set_pc s i (AtCallback a))\<lparr>mgr := Delete (mgr s) (wid (workers s ! i))\<rparr>)"
| call: "i < length (workers s) \<Longrightarrow> wpc (workers s ! i) = AtCallback a \<Longrightarrow>
     pstep s ((set_pc s i Returned)\<lparr>mgr := fire (mgr s) (callback_of (mgr s) (workers s ! i) a)\<rparr>)"

inductive_cases pstepE: "pstep s t"

text \<open>\<open>k\<close> has just been initialised with \<open>n\<close> targets at address \<open>a\<close>, no call has started.\<close>

definition conc_start :: "int64 \<Rightarrow> nat \<Rightarrow> nat \<Rightarrow> psys \<Rightarrow> bool" where
  "conc_start k n a s \<longleftrightarrow> pm_wf (mgr s) \<and> shard_find (mgr s) k = Some a
     \<and> cells (mgr s) ! a = \<lparr>pending = word_of_nat n, failed = 0\<rparr>
     \<and> 0 < n \<and> n < 2 ^ 31 \<and> sum_list (map wn (workers s)) = n
     \<and> (\<forall>w \<in> set (workers s). wid w = k \<and> 0 < wn w \<and> wpc w = AtLookup)"

section \<open>The invariant\<close>

fun subtracted :: "worker \<Rightarrow> nat" where
  "subtracted w = (case wpc w of AtDelete a \<Rightarrow> wn w | AtCallback a \<Rightarrow> wn w | Returned \<Rightarrow> wn w | _ \<Rightarrow> 0)"

fun failures :: "worker \<Rightarrow> nat" where
  "failures w = (if \<not> wfail w then 0 else case wpc w of AtLookup \<Rightarrow> 0 | AtAddFailed a \<Rightarrow> 0 | _ \<Rightarrow> wn w)"

fun deleting :: "worker \<Rightarrow> nat" where
  "deleting w = (case wpc w of AtDelete a \<Rightarrow> 1 | _ \<Rightarrow> 0)"

fun calling :: "worker \<Rightarrow> nat" where
  "calling w = (case wpc w of AtCallback a \<Rightarrow> 1 | _ \<Rightarrow> 0)"

definition wsum :: "(worker \<Rightarrow> nat) \<Rightarrow> psys \<Rightarrow> nat" where
  "wsum f s = sum_list (map f (workers s))"

definition fail_total :: "psys \<Rightarrow> nat" where
  "fail_total s = wsum (\<lambda>w. if wfail w then wn w else 0) s"

definition final_call :: "psys \<Rightarrow> int64 \<Rightarrow> callback" where
  "final_call s k = (if 0 < fail_total s then CallFail (failFunc (mgr s)) k (word_of_nat (fail_total s))
     else CallDone (doneFunc (mgr s)) k)"

definition addr_ok :: "nat \<Rightarrow> worker \<Rightarrow> bool" where
  "addr_ok a w \<longleftrightarrow> (case wpc w of AtAddFailed b \<Rightarrow> b = a \<and> wfail w | AtAddPending b \<Rightarrow> b = a
     | AtDelete b \<Rightarrow> b = a | AtCallback b \<Rightarrow> b = a | _ \<Rightarrow> True)"

definition conc_inv :: "int64 \<Rightarrow> nat \<Rightarrow> nat \<Rightarrow> callback list \<Rightarrow> psys \<Rightarrow> bool" where
  "conc_inv k n a log s \<longleftrightarrow> pm_wf (mgr s) \<and> a < length (cells (mgr s)) \<and> n < 2 ^ 31
     \<and> wsum wn s = n
     \<and> (\<forall>w \<in> set (workers s). wid w = k \<and> 0 < wn w \<and> addr_ok a w)
     \<and> pending (cells (mgr s) ! a) = word_of_nat (n - wsum subtracted s)
     \<and> failed (cells (mgr s) ! a) = word_of_nat (wsum failures s)
     \<and> (if wsum subtracted s < n
        then shard_find (mgr s) k = Some a \<and> wsum deleting s = 0 \<and> wsum calling s = 0
             \<and> fired (mgr s) = log
        else (wsum deleting s = 1 \<and> wsum calling s = 0 \<and> fired (mgr s) = log)
           \<or> (wsum deleting s = 0 \<and> wsum calling s = 1 \<and> fired (mgr s) = log
                \<and> shard_find (mgr s) k = None)
           \<or> (wsum deleting s = 0 \<and> wsum calling s = 0 \<and> fired (mgr s) = log @ [final_call s k]
                \<and> shard_find (mgr s) k = None))"

lemma wsum_set_pc:
  assumes "i < length (workers s)"
  shows "wsum f (set_pc s i p) + f (workers s ! i) = wsum f s + f ((workers s ! i)\<lparr>wpc := p\<rparr>)"
proof -
  have "f (workers s ! i) \<le> sum_list (map f (workers s))"
    using assms by (intro elem_le_sum_list[of i "map f (workers s)", simplified]) auto
  with assms show ?thesis
    by (simp add: wsum_def set_pc_def map_update sum_list_update)
qed

lemma wsum_mgr [simp]: "wsum f (s\<lparr>mgr := m\<rparr>) = wsum f s"
  by (simp add: wsum_def)

lemma set_pc_fields [simp]: "mgr (set_pc s i p) = mgr s"
  "length (workers (set_pc s i p)) = length (workers s)"
  by (simp_all add: set_pc_def)

lemma wsum_le: "(\<And>w. f w \<le> g w) \<Longrightarrow> wsum f s \<le> wsum g s"
  by (simp add: wsum_def sum_list_mono)

lemma wsum_ge_nth: "i < length (workers s) \<Longrightarrow> f (workers s ! i) \<le> wsum f s"
  unfolding wsum_def by (metis elem_le_sum_list length_map nth_map)

lemma wsum_wn_set_pc [simp]: "i < length (workers s) \<Longrightarrow> wsum wn (set_pc s i p) = wsum wn s"
  using wsum_set_pc [of i s wn p] by simp

lemma fail_total_set_pc [simp]: "i < length (workers s) \<Longrightarrow> fail_total (set_pc s i p) = fail_total s"
  using wsum_set_pc [of i s "\<lambda>w. if wfail w then wn w else 0" p]
  by (simp add: fail_total_def split: if_splits)

lemma fail_total_mgr [simp]: "fail_total (s\<lparr>mgr := m\<rparr>) = fail_total s"
  by (simp add: fail_total_def)

lemma subtracted_le: "wsum subtracted s \<le> wsum wn s"
  by (rule wsum_le) (auto split: wpc.split)

lemma all_subtracted:
  assumes "wsum subtracted s = wsum wn s" and "w \<in> set (workers s)"
  shows "subtracted w = wn w"
proof (rule ccontr)
  assume neq: "subtracted w \<noteq> wn w"
  have le: "subtracted v \<le> wn v" for v by (auto split: wpc.split)
  obtain xs ys where sp: "workers s = xs @ w # ys" using assms(2) by (meson split_list)
  have "sum_list (map subtracted xs) \<le> sum_list (map wn xs)"
    "sum_list (map subtracted ys) \<le> sum_list (map wn ys)"
    using le by (simp_all add: sum_list_mono)
  moreover have "subtracted w < wn w" using le [of w] neq by simp
  ultimately show False using assms(1) by (simp add: wsum_def sp del: subtracted.simps)
qed

text \<open>When every amount is subtracted, every failure has been added.\<close>

lemma all_failures:
  assumes "wsum subtracted s = wsum wn s" "\<forall>w \<in> set (workers s). 0 < wn w"
  shows "wsum failures s = fail_total s"
  unfolding fail_total_def wsum_def
proof (rule arg_cong[where f = sum_list], rule map_cong [OF refl])
  fix w assume w: "w \<in> set (workers s)"
  then have "subtracted w = wn w" "0 < wn w" using all_subtracted assms by blast+
  then show "failures w = (if wfail w then wn w else 0)" by (auto split: wpc.splits)
qed

lemma conc_inv_start: "conc_start k n a s \<Longrightarrow> conc_inv k n a (fired (mgr s)) s"
proof -
  assume st: "conc_start k n a s"
  then have pcs: "\<And>w. w \<in> set (workers s) \<Longrightarrow> wpc w = AtLookup" by (simp add: conc_start_def)
  have "map subtracted (workers s) = map (\<lambda>_. 0) (workers s)"
    "map failures (workers s) = map (\<lambda>_. 0) (workers s)"
    "map deleting (workers s) = map (\<lambda>_. 0) (workers s)"
    "map calling (workers s) = map (\<lambda>_. 0) (workers s)"
    using pcs by (auto intro!: map_cong)
  then have "wsum subtracted s = 0" "wsum failures s = 0" "wsum deleting s = 0" "wsum calling s = 0"
    by (simp_all add: wsum_def)
  moreover have "a < length (cells (mgr s))" "wsum wn s = n"
    using st find_lt [of "mgr s" k a] by (simp_all add: conc_start_def wsum_def)
  moreover have "\<forall>w \<in> set (workers s). wid w = k \<and> 0 < wn w \<and> addr_ok a w"
    using st pcs by (simp add: conc_start_def addr_ok_def)
  ultimately show ?thesis using st by (simp add: conc_inv_def conc_start_def)
qed


lemma subtracted_lt:
  assumes "wsum wn s = n" "i < length (workers s)" "subtracted (workers s ! i) \<noteq> wn (workers s ! i)"
  shows "wsum subtracted s < n"
  using all_subtracted [of s "workers s ! i"] subtracted_le [of s] assms by fastforce

lemma set_pc_all:
  "i < length (workers s) \<Longrightarrow> \<forall>w \<in> set (workers s). P w \<Longrightarrow> P ((workers s ! i)\<lparr>wpc := p\<rparr>) \<Longrightarrow>
     \<forall>w \<in> set (workers (set_pc s i p)). P w"
  unfolding set_pc_def by (auto dest: set_update_subset_insert [THEN subsetD])

lemma fail_le: "wsum failures s \<le> wsum wn s"
  by (rule wsum_le) (auto split: wpc.split)

text \<open>The sums after moving worker \<open>i\<close> to \<open>p\<close>, from its old and new contributions.\<close>

lemma wsum_move:
  "i < length (workers s) \<Longrightarrow> f (workers s ! i) = x \<Longrightarrow> f ((workers s ! i)\<lparr>wpc := p\<rparr>) = y \<Longrightarrow>
     wsum f (set_pc s i p) = wsum f s - x + y"
  using wsum_set_pc [of i s f p] wsum_ge_nth [of i s f] by simp

text \<open>Steps that leave the completion phase alone, before the last amount is subtracted.\<close>

lemma conc_inv_early:
  assumes inv: "conc_inv k n a log s" and i: "i < length (workers s)"
    and lt: "wsum subtracted s < n"
    and sub: "wsum subtracted (set_pc s i p) < n"
    and ds: "deleting ((workers s ! i)\<lparr>wpc := p\<rparr>) = 0" "calling ((workers s ! i)\<lparr>wpc := p\<rparr>) = 0"
    and ok: "addr_ok a ((workers s ! i)\<lparr>wpc := p\<rparr>)"
    and m: "pm_wf m" "a < length (cells m)" "shard_find m k = Some a" "fired m = log"
    and pend: "pending (cells m ! a) = word_of_nat (n - wsum subtracted (set_pc s i p))"
    and fl: "failed (cells m ! a) = word_of_nat (wsum failures (set_pc s i p))"
  shows "conc_inv k n a log ((set_pc s i p)\<lparr>mgr := m\<rparr>)"
proof -
  have "wsum deleting (set_pc s i p) = 0" "wsum calling (set_pc s i p) = 0"
    using wsum_set_pc [OF i, of deleting p] wsum_set_pc [OF i, of calling p] inv lt ds
    by (simp_all add: conc_inv_def del: deleting.simps calling.simps)
  moreover have "\<forall>w \<in> set (workers (set_pc s i p)). wid w = k \<and> 0 < wn w \<and> addr_ok a w"
    using inv i ok by (intro set_pc_all) (auto simp: conc_inv_def)
  ultimately show ?thesis
    using inv i lt sub m pend fl by (simp add: conc_inv_def)
qed

lemma worker_facts:
  assumes "conc_inv k n a log s" "i < length (workers s)"
  shows "wid (workers s ! i) = k" "0 < wn (workers s ! i)" "addr_ok a (workers s ! i)"
  using assms by (auto simp: conc_inv_def)

lemma inv_early_facts:
  assumes "conc_inv k n a log s" "i < length (workers s)" "subtracted (workers s ! i) = 0"
  shows "wsum subtracted s < n" "shard_find (mgr s) k = Some a" "fired (mgr s) = log"
    "pm_wf (mgr s)" "a < length (cells (mgr s))"
    "pending (cells (mgr s) ! a) = word_of_nat (n - wsum subtracted s)"
    "failed (cells (mgr s) ! a) = word_of_nat (wsum failures s)"
proof -
  show lt: "wsum subtracted s < n"
    using assms worker_facts [OF assms(1,2)] subtracted_lt [of s n i]
    by (simp add: conc_inv_def del: subtracted.simps)
  then show "shard_find (mgr s) k = Some a" "fired (mgr s) = log"
    "pm_wf (mgr s)" "a < length (cells (mgr s))"
    "pending (cells (mgr s) ! a) = word_of_nat (n - wsum subtracted s)"
    "failed (cells (mgr s) ! a) = word_of_nat (wsum failures s)"
    using assms(1) by (simp_all add: conc_inv_def)
qed

lemma inv_lookup:
  assumes inv: "conc_inv k n a log s" and i: "i < length (workers s)"
    and pc: "wpc (workers s ! i) = AtLookup" and f: "shard_find (mgr s) (wid (workers s ! i)) = Some b"
  shows "conc_inv k n a log (set_pc s i (if wfail (workers s ! i) then AtAddFailed b else AtAddPending b))"
proof -
  have sub0: "subtracted (workers s ! i) = 0" using pc by simp
  note early = inv_early_facts [OF inv i sub0] and wf = worker_facts [OF inv i]
  have b: "b = a" using f early wf by simp
  let ?p = "if wfail (workers s ! i) then AtAddFailed b else AtAddPending b"
  have s: "wsum subtracted (set_pc s i ?p) = wsum subtracted s"
    "wsum failures (set_pc s i ?p) = wsum failures s"
    using wsum_set_pc [OF i, of subtracted ?p] wsum_set_pc [OF i, of failures ?p] pc by auto
  have "conc_inv k n a log ((set_pc s i ?p)\<lparr>mgr := mgr s\<rparr>)"
    by (rule conc_inv_early [OF inv i early(1)]) (use s early b in \<open>auto simp: addr_ok_def\<close>)
  then show ?thesis by (simp add: set_pc_def)
qed

lemma inv_add_failed:
  assumes inv: "conc_inv k n a log s" and i: "i < length (workers s)"
    and pc: "wpc (workers s ! i) = AtAddFailed b"
  shows "conc_inv k n a log ((set_pc s i (AtAddPending b))
      \<lparr>mgr := addFailed (mgr s) b (word_of_nat (wn (workers s ! i)))\<rparr>)"
proof -
  have sub0: "subtracted (workers s ! i) = 0" using pc by simp
  note early = inv_early_facts [OF inv i sub0] and wf = worker_facts [OF inv i]
  have b: "b = a" and fl: "wfail (workers s ! i)" using wf(3) pc by (auto simp: addr_ok_def)
  have s: "wsum subtracted (set_pc s i (AtAddPending b)) = wsum subtracted s"
    "wsum failures (set_pc s i (AtAddPending b)) = wsum failures s + wn (workers s ! i)"
    using wsum_set_pc [OF i, of subtracted "AtAddPending b"]
      wsum_set_pc [OF i, of failures "AtAddPending b"] pc fl by auto
  show ?thesis
    by (rule conc_inv_early [OF inv i early(1)]) (use s early b in \<open>auto simp: addr_ok_def\<close>)
qed

lemma inv_add_pending:
  assumes inv: "conc_inv k n a log s" and i: "i < length (workers s)"
    and pc: "wpc (workers s ! i) = AtAddPending b"
    and m: "m = addPending (mgr s) b (- word_of_nat (wn (workers s ! i)))"
  shows "conc_inv k n a log
      ((set_pc s i (if 0 <s pending (cells m ! b) then Returned else AtDelete b))\<lparr>mgr := m\<rparr>)"
proof -
  have sub0: "subtracted (workers s ! i) = 0" using pc by simp
  note early = inv_early_facts [OF inv i sub0] and wf = worker_facts [OF inv i]
  have b: "b = a" using wf(3) pc by (auto simp: addr_ok_def)
  let ?p = "if 0 <s pending (cells m ! b) then Returned else AtDelete b"
  let ?n = "wn (workers s ! i)"
  have S: "wsum subtracted (set_pc s i ?p) = wsum subtracted s + ?n"
    and F: "wsum failures (set_pc s i ?p) = wsum failures s"
    using wsum_set_pc [OF i, of subtracted ?p] wsum_set_pc [OF i, of failures ?p] pc
    by (auto split: if_splits)
  have Sle: "wsum subtracted s + ?n \<le> n"
    using subtracted_le [of "set_pc s i ?p"] S i inv by (simp add: conc_inv_def)
  have n31: "n < 2 ^ 31" using inv by (simp add: conc_inv_def)
  have pend: "pending (cells m ! a) = word_of_nat (n - (wsum subtracted s + ?n))"
    using early b Sle m by simp
  have m_facts: "pm_wf m" "a < length (cells m)" "shard_find m k = Some a" "fired m = log"
    "failed (cells m ! a) = word_of_nat (wsum failures s)"
    using early b m by simp_all
  show ?thesis
  proof (cases "wsum subtracted s + ?n < n")
    case True
    then have "0 <s pending (cells m ! a)"
      unfolding pend using n31 by (subst int32_pos) auto
    then have p: "?p = Returned" using b by simp
    show ?thesis unfolding p
      by (rule conc_inv_early [OF inv i early(1)])
         (use S F p True m_facts pend in \<open>auto simp: addr_ok_def\<close>)
  next
    case False
    with Sle have eq: "wsum subtracted s + ?n = n" by simp
    with pend b have p: "?p = AtDelete a" by simp
    have "wsum deleting (set_pc s i ?p) = 1" "wsum calling (set_pc s i ?p) = 0"
      unfolding p using wsum_set_pc [OF i, of deleting "AtDelete a"]
        wsum_set_pc [OF i, of calling "AtDelete a"] inv early(1) pc
      by (auto simp: conc_inv_def)
    moreover have "\<forall>w \<in> set (workers (set_pc s i ?p)). wid w = k \<and> 0 < wn w \<and> addr_ok a w"
      unfolding p using inv i by (intro set_pc_all) (auto simp: conc_inv_def addr_ok_def)
    ultimately show ?thesis
      using inv i S F eq m_facts pend by (simp add: conc_inv_def)
  qed
qed


text \<open>The completion phase: everything subtracted, one worker left to delete or to call.\<close>

lemma conc_inv_late:
  assumes inv: "conc_inv k n a log s" and i: "i < length (workers s)"
    and dn: "wsum subtracted s = n" and w: "subtracted (workers s ! i) = wn (workers s ! i)"
    and w': "subtracted ((workers s ! i)\<lparr>wpc := p\<rparr>) = wn (workers s ! i)"
    and f: "failures ((workers s ! i)\<lparr>wpc := p\<rparr>) = failures (workers s ! i)"
    and ok: "addr_ok a ((workers s ! i)\<lparr>wpc := p\<rparr>)"
    and m: "pm_wf m" "cells m = cells (mgr s)" "shard_find m k = None"
    and ph: "(wsum deleting (set_pc s i p) = 0 \<and> wsum calling (set_pc s i p) = 1 \<and> fired m = log)
      \<or> (wsum deleting (set_pc s i p) = 0 \<and> wsum calling (set_pc s i p) = 0
         \<and> fired m = log @ [final_call (s\<lparr>mgr := m\<rparr>) k])"
  shows "conc_inv k n a log ((set_pc s i p)\<lparr>mgr := m\<rparr>)"
proof -
  have "wsum subtracted (set_pc s i p) = n" "wsum failures (set_pc s i p) = wsum failures s"
    using wsum_set_pc [OF i, of subtracted p] wsum_set_pc [OF i, of failures p] dn w w' f
    by (simp_all del: subtracted.simps failures.simps)
  moreover have "\<forall>w \<in> set (workers (set_pc s i p)). wid w = k \<and> 0 < wn w \<and> addr_ok a w"
    using inv i ok by (intro set_pc_all) (auto simp: conc_inv_def)
  moreover have "final_call (s\<lparr>mgr := m\<rparr>) k = final_call ((set_pc s i p)\<lparr>mgr := m\<rparr>) k"
    using i by (simp add: final_call_def)
  ultimately show ?thesis
    using inv i dn m ph by (simp add: conc_inv_def)
qed


lemma inv_late_facts:
  assumes inv: "conc_inv k n a log s" and i: "i < length (workers s)"
    and w: "0 < deleting (workers s ! i) \<or> 0 < calling (workers s ! i)"
  shows "wsum subtracted s = n" "fired (mgr s) = log"
    "0 < deleting (workers s ! i) \<Longrightarrow> wsum deleting s = 1 \<and> wsum calling s = 0"
    "0 < calling (workers s ! i) \<Longrightarrow> wsum deleting s = 0 \<and> wsum calling s = 1
      \<and> shard_find (mgr s) k = None"
    "failed (cells (mgr s) ! a) = word_of_nat (fail_total s)"
proof -
  have pos: "0 < wsum deleting s \<or> 0 < wsum calling s"
    using w wsum_ge_nth [OF i, of deleting] wsum_ge_nth [OF i, of calling] by linarith
  then have ge: "\<not> wsum subtracted s < n" using inv by (auto simp: conc_inv_def)
  then show eq: "wsum subtracted s = n" using subtracted_le [of s] inv by (simp add: conc_inv_def)
  show "fired (mgr s) = log" using inv ge pos by (auto simp: conc_inv_def)
  show "0 < deleting (workers s ! i) \<Longrightarrow> wsum deleting s = 1 \<and> wsum calling s = 0"
    using inv ge wsum_ge_nth [OF i, of deleting] by (auto simp: conc_inv_def)
  show "0 < calling (workers s ! i) \<Longrightarrow> wsum deleting s = 0 \<and> wsum calling s = 1
      \<and> shard_find (mgr s) k = None"
    using inv ge wsum_ge_nth [OF i, of calling] by (auto simp: conc_inv_def)
  show "failed (cells (mgr s) ! a) = word_of_nat (fail_total s)"
    using inv eq all_failures [of s] by (simp add: conc_inv_def)
qed

lemma inv_delete:
  assumes inv: "conc_inv k n a log s" and i: "i < length (workers s)"
    and pc: "wpc (workers s ! i) = AtDelete b"
  shows "conc_inv k n a log ((set_pc s i (AtCallback b))\<lparr>mgr := Delete (mgr s) (wid (workers s ! i))\<rparr>)"
proof -
  note late = inv_late_facts [OF inv i] and wf = worker_facts [OF inv i]
  have b: "b = a" using wf(3) pc by (simp add: addr_ok_def)
  have sums: "wsum deleting (set_pc s i (AtCallback b)) = 0" "wsum calling (set_pc s i (AtCallback b)) = 1"
    using wsum_set_pc [OF i, of deleting "AtCallback b"] wsum_set_pc [OF i, of calling "AtCallback b"]
      late(3) pc by auto
  have d: "0 < deleting (workers s ! i) \<or> 0 < calling (workers s ! i)" using pc by simp
  show ?thesis
    by (rule conc_inv_late [OF inv i late(1) [OF d]])
       (use pc b sums late(2) [OF d] inv wf(1) in
         \<open>auto simp: addr_ok_def conc_inv_def pm_wf_Delete Delete_def pm_wf_def split: if_splits\<close>)
qed

lemma callback_final:
  assumes inv: "conc_inv k n a log s" and i: "i < length (workers s)"
    and pc: "wpc (workers s ! i) = AtCallback b"
  shows "callback_of (mgr s) (workers s ! i) b = final_call s k"
proof -
  note late = inv_late_facts [OF inv i] and wf = worker_facts [OF inv i]
  have b: "b = a" using wf(3) pc by (simp add: addr_ok_def)
  have d: "0 < deleting (workers s ! i) \<or> 0 < calling (workers s ! i)" using pc by simp
  note f = late(5) [OF d]
  have "fail_total s \<le> wsum wn s" unfolding fail_total_def by (rule wsum_le) auto
  then have "fail_total s < 2 ^ 31" using inv by (simp add: conc_inv_def)
  then have pos: "(0 <s (word_of_nat (fail_total s) :: int32)) = (0 < fail_total s)" by (rule int32_pos)
  have "wfail (workers s ! i) \<Longrightarrow> 0 < fail_total s"
    using wsum_ge_nth [OF i, of "\<lambda>w. if wfail w then wn w else 0"] wf by (simp add: fail_total_def)
  then show ?thesis
    using b f pos wf by (auto simp: callback_of_def final_call_def Let_def)
qed

lemma inv_call:
  assumes inv: "conc_inv k n a log s" and i: "i < length (workers s)"
    and pc: "wpc (workers s ! i) = AtCallback b"
  shows "conc_inv k n a log ((set_pc s i Returned)
      \<lparr>mgr := fire (mgr s) (callback_of (mgr s) (workers s ! i) b)\<rparr>)"
proof -
  note late = inv_late_facts [OF inv i]
  have sums: "wsum deleting (set_pc s i Returned) = 0" "wsum calling (set_pc s i Returned) = 0"
    using wsum_set_pc [OF i, of deleting Returned] wsum_set_pc [OF i, of calling Returned]
      late(4) pc by auto
  have d: "0 < deleting (workers s ! i) \<or> 0 < calling (workers s ! i)" using pc by simp
  let ?m = "fire (mgr s) (callback_of (mgr s) (workers s ! i) b)"
  have fm: "fired ?m = log @ [final_call (s\<lparr>mgr := ?m\<rparr>) k]"
    using late(2) [OF d] callback_final [OF inv i pc] by (simp add: final_call_def fire_def)
  show ?thesis
    by (rule conc_inv_late [OF inv i late(1) [OF d]])
       (use pc sums fm inv late(4) in \<open>auto simp: addr_ok_def conc_inv_def\<close>, simp_all add: fire_def)
qed

lemma pstep_inv: "pstep s t \<Longrightarrow> conc_inv k n a log s \<Longrightarrow> conc_inv k n a log t"
proof (induction rule: pstep.induct)
  case (lookup_missing i s)
  then have "subtracted (workers s ! i) = 0" by simp
  from inv_early_facts(2) [OF lookup_missing(4,1) this] worker_facts(1) [OF lookup_missing(4,1)]
  show ?case using lookup_missing(3) by simp
next
  case (lookup_found i s b)
  then show ?case by (intro inv_lookup)
next
  case (add_failed i s b)
  then show ?case by (intro inv_add_failed)
next
  case (add_pending i s b m)
  then show ?case by (intro inv_add_pending)
next
  case (delete i s b)
  then show ?case by (intro inv_delete)
next
  case (call i s b)
  then show ?case by (intro inv_call)
qed

section \<open>Runs end, and end with one callback\<close>

inductive preach :: "psys \<Rightarrow> psys \<Rightarrow> bool" for s0 where
  start: "preach s0 s0"
| step: "preach s0 s \<Longrightarrow> pstep s t \<Longrightarrow> preach s0 t"

lemma preach_inv:
  "preach s0 s \<Longrightarrow> conc_start k n a s0 \<Longrightarrow> conc_inv k n a (fired (mgr s0)) s"
  by (induction rule: preach.induct) (auto intro: conc_inv_start pstep_inv)

fun pc_rank :: "wpc \<Rightarrow> nat" where
  "pc_rank AtLookup = 5"
| "pc_rank (AtAddFailed a) = 4"
| "pc_rank (AtAddPending a) = 3"
| "pc_rank (AtDelete a) = 2"
| "pc_rank (AtCallback a) = 1"
| "pc_rank Returned = 0"

definition remaining :: "psys \<Rightarrow> nat" where
  "remaining s = wsum (\<lambda>w. pc_rank (wpc w)) s"

lemma remaining_set_pc:
  "i < length (workers s) \<Longrightarrow> pc_rank p < pc_rank (wpc (workers s ! i)) \<Longrightarrow>
     remaining (set_pc s i p) < remaining s"
  using wsum_set_pc [of i s "\<lambda>w. pc_rank (wpc w)" p] by (simp add: remaining_def)

lemma remaining_mgr [simp]: "remaining (s\<lparr>mgr := m\<rparr>) = remaining s"
  by (simp add: remaining_def)

lemma pstep_remaining: "pstep s t \<Longrightarrow> remaining t < remaining s"
  by (induction rule: pstep.induct) (simp_all add: remaining_set_pc)

lemma pstep_progress:
  assumes "i < length (workers s)" "wpc (workers s ! i) \<noteq> Returned"
  shows "\<exists>t. pstep s t"
  using assms by (cases "wpc (workers s ! i)"; cases "shard_find (mgr s) (wid (workers s ! i))")
    (blast intro: pstep.intros)+

lemma preach_workers: "preach s0 s \<Longrightarrow> fail_total s = fail_total s0 \<and> doneFunc (mgr s) = doneFunc (mgr s0)
  \<and> failFunc (mgr s) = failFunc (mgr s0) \<and> length (workers s) = length (workers s0)"
proof (induction rule: preach.induct)
  case start
  show ?case by simp
next
  case (step s t)
  from step(2,3) show ?case by (cases rule: pstep.cases) (auto simp: fire_def)
qed

lemma all_returned_inv:
  assumes inv: "conc_inv k n a log s" and ret: "\<forall>w \<in> set (workers s). wpc w = Returned"
  shows "fired (mgr s) = log @ [final_call s k] \<and> shard_find (mgr s) k = None"
proof -
  have "map subtracted (workers s) = map wn (workers s)"
    "map deleting (workers s) = map (\<lambda>_. 0) (workers s)" "map calling (workers s) = map (\<lambda>_. 0) (workers s)"
    using ret by (auto intro!: map_cong)
  then have "wsum subtracted s = wsum wn s" "wsum deleting s = 0" "wsum calling s = 0"
    unfolding wsum_def by (simp_all only: map_replicate_const sum_list_replicate mult_0_right)
  moreover have "wsum wn s = n" using inv by (simp add: conc_inv_def)
  ultimately show ?thesis using inv by (auto simp: conc_inv_def)
qed


lemma preach_stuck: "\<exists>s. preach s0 s \<and> (\<nexists>t. pstep s t)"
proof -
  have "\<exists>s. preach s0 s \<and> (\<forall>t. preach s0 t \<longrightarrow> remaining s \<le> remaining t)"
    using ex_has_least_nat [of "preach s0" s0 remaining] preach.start by blast
  then obtain s where s: "preach s0 s" "\<And>t. preach s0 t \<Longrightarrow> remaining s \<le> remaining t" by blast
  have "\<not> pstep s t" for t
    using s(2) [OF preach.step [OF s(1)]] pstep_remaining [of s t] by force
  with s(1) show ?thesis by blast
qed

lemma final_call_preach: "preach s0 s \<Longrightarrow> final_call s k = final_call s0 k"
  using preach_workers [of s0 s] by (simp add: final_call_def)

text \<open>
  C2: goroutines calling \<open>DoneN\<close> and \<open>FailN\<close> on one message, interleaved at every shared-memory
  operation, whose amounts sum to the number of targets. In every reachable state at most one
  callback has been made; a run cannot go on for ever, and where it stops exactly one callback has
  been made, \<open>failFunc\<close> with the sum of all failed amounts if there is any and \<open>doneFunc\<close>
  otherwise, and the message's entry is gone.
\<close>

theorem pending_conc_exactly_once:
  assumes start: "conc_start k n a s0" and run: "preach s0 s"
  shows "(fired (mgr s) = fired (mgr s0) \<or> fired (mgr s) = fired (mgr s0) @ [final_call s0 k])
    \<and> (\<forall>t. pstep s t \<longrightarrow> remaining t < remaining s)
    \<and> ((\<nexists>t. pstep s t) \<longrightarrow>
         fired (mgr s) = fired (mgr s0) @ [final_call s0 k] \<and> view (mgr s) k = None)"
proof -
  have inv: "conc_inv k n a (fired (mgr s0)) s" by (rule preach_inv [OF run start])
  note fc = final_call_preach [OF run, of k]
  have "fired (mgr s) = fired (mgr s0) \<or> fired (mgr s) = fired (mgr s0) @ [final_call s k]"
    using inv by (auto simp: conc_inv_def split: if_splits)
  moreover have "fired (mgr s) = fired (mgr s0) @ [final_call s k] \<and> view (mgr s) k = None"
    if stuck: "\<nexists>t. pstep s t"
  proof -
    have "\<forall>w \<in> set (workers s). wpc w = Returned"
      using stuck pstep_progress [of _ s] by (metis in_set_conv_nth)
    from all_returned_inv [OF inv this] show ?thesis by (simp add: view_def)
  qed
  ultimately show ?thesis using pstep_remaining fc by auto
qed

definition demo_workers :: psys where
  "demo_workers = \<lparr>mgr = Init (SetDoneFunc NewPendingManager Done_SendACKToSender) 7 3,
     workers = [\<lparr>wid = 7, wn = 2, wfail = False, wpc = AtLookup\<rparr>,
                \<lparr>wid = 7, wn = 1, wfail = True, wpc = AtLookup\<rparr>]\<rparr>"

theorem pending_conc_exactly_once_witness:
  "\<exists>s. preach demo_workers s \<and> fired (mgr s) = [CallFail FailWarn 7 1]"
proof -
  have start: "conc_start 7 3 0 demo_workers"
  proof -
    have "pm_wf (mgr demo_workers)" by (simp add: demo_workers_def pm_wf_Init)
    moreover have "shard_find (mgr demo_workers) 7 = Some 0"
      by (simp add: demo_workers_def Init_def NewPendingManager_def SetDoneFunc_def Let_def)
    ultimately show ?thesis
      by (simp add: conc_start_def demo_workers_def Init_def NewPendingManager_def SetDoneFunc_def Let_def)
  qed
  obtain s where s: "preach demo_workers s" "\<nexists>t. pstep s t" using preach_stuck by blast
  have "fired (mgr s) = fired (mgr demo_workers) @ [final_call demo_workers 7]"
    using pending_conc_exactly_once [OF start s(1)] s(2) by blast
  then have "fired (mgr s) = [CallFail FailWarn 7 1]"
    by (simp add: demo_workers_def final_call_def fail_total_def wsum_def Init_def
        NewPendingManager_def SetDoneFunc_def Let_def)
  with s(1) show ?thesis by blast
qed

end
