(* ===== verification/Json.thy ===== *)
theory Json
  imports Prelude "HOL-Library.Char_ord" "HOL-Library.List_Lexorder"
begin

text \<open>
  What the program uses of Go's \<open>encoding/json\<close> and \<open>strconv\<close>. A byte string that travels
  through Redis or HTTP is the document it spells (\<open>Doc\<close>) or bytes that are no JSON (\<open>Raw\<close>);
  struct fields are matched by their tag exactly, else case-insensitively; a value of the wrong
  type reports an error and leaves its field alone while decoding goes on; \<open>interface{}\<close> decodes
  numbers to \<open>float64\<close> (the parameter \<open>f64\<close>: an integer literal, read as a double and printed
  again) and objects to maps, which print with sorted keys.
\<close>

section \<open>Documents\<close>

datatype json =
    JNull
  | JBool bool
  | JInt int
  | JFloat string
  | JStr string
  | JArr "json list"
  | JObj "(string \<times> json) list"

datatype wire = Doc json | Raw string

text \<open>A Go value held in an \<open>interface{}\<close>: one that prints, or one \<open>json.Marshal\<close> refuses.\<close>

datatype goval = GoVal json | GoUnsupported

definition marshal_val :: "goval \<Rightarrow> goerr + json" where
  "marshal_val v = (case v of GoVal j \<Rightarrow> Inr j | GoUnsupported \<Rightarrow> Inl (ErrText ''json: unsupported value''))"

definition json_of_int64 :: "int64 \<Rightarrow> json" where
  "json_of_int64 n = JInt (sint n)"

section \<open>Decoding into fields\<close>

definition lower :: "char \<Rightarrow> char" where
  "lower c = (if CHR ''A'' \<le> c \<and> c \<le> CHR ''Z'' then char_of (of_char c + (32 :: nat)) else c)"

definition fold_name :: "string \<Rightarrow> string" where
  "fold_name s = map lower s"

definition match_field :: "string list \<Rightarrow> string \<Rightarrow> string option" where
  "match_field fields k =
     (if k \<in> set fields then Some k
      else find (\<lambda>f. fold_name f = fold_name k) fields)"

text \<open>
  The decoders of the field types: the document, the field's old value, and the pair of the error
  and the new value. \<open>null\<close> changes nothing (and empties a slice).
\<close>

definition type_error :: goerr where
  "type_error = ErrText ''json: cannot unmarshal''"

definition dec_int64 :: "json \<Rightarrow> int64 \<Rightarrow> goerr option \<times> int64" where
  "dec_int64 j old = (case j of
      JNull \<Rightarrow> (None, old)
    | JInt n \<Rightarrow> if - (2 ^ 63) \<le> n \<and> n < 2 ^ 63 then (None, word_of_int n) else (Some type_error, old)
    | _ \<Rightarrow> (Some type_error, old))"

definition dec_string :: "json \<Rightarrow> string \<Rightarrow> goerr option \<times> string" where
  "dec_string j old = (case j of
      JNull \<Rightarrow> (None, old)
    | JStr s \<Rightarrow> (None, s)
    | _ \<Rightarrow> (Some type_error, old))"

definition dec_bool :: "json \<Rightarrow> bool \<Rightarrow> goerr option \<times> bool" where
  "dec_bool j old = (case j of
      JNull \<Rightarrow> (None, old)
    | JBool b \<Rightarrow> (None, b)
    | _ \<Rightarrow> (Some type_error, old))"

text \<open>Elements of a slice are decoded in order into zero values; the first error is kept.\<close>

fun dec_elems :: "json list \<Rightarrow> goerr option \<times> int64 list" where
  "dec_elems [] = (None, [])"
| "dec_elems (j # js) =
     (let (e, x) = dec_int64 j 0; (e', xs) = dec_elems js
      in (case e of None \<Rightarrow> e' | Some _ \<Rightarrow> e, x # xs))"

definition dec_int64s :: "json \<Rightarrow> int64 list \<Rightarrow> goerr option \<times> int64 list" where
  "dec_int64s j old = (case j of
      JNull \<Rightarrow> (None, [])
    | JArr js \<Rightarrow> dec_elems js
    | _ \<Rightarrow> (Some type_error, old))"

text \<open>\<open>interface{}\<close>: numbers through \<open>float64\<close>, objects as maps (last duplicate wins, sorted).\<close>

fun obj_insert :: "string \<Rightarrow> json \<Rightarrow> (string \<times> json) list \<Rightarrow> (string \<times> json) list" where
  "obj_insert k v [] = [(k, v)]"
| "obj_insert k v ((k', v') # kvs) =
     (if k < k' then (k, v) # (k', v') # kvs
      else if k = k' then (k, v) # kvs
      else (k', v') # obj_insert k v kvs)"

definition obj_canon :: "(string \<times> json) list \<Rightarrow> (string \<times> json) list" where
  "obj_canon kvs = fold (\<lambda>(k, v) m. obj_insert k v m) kvs []"

fun iface :: "(int \<Rightarrow> int) \<Rightarrow> json \<Rightarrow> json" where
  "iface f64 (JInt n) = JInt (f64 n)"
| "iface f64 (JArr js) = JArr (map (iface f64) js)"
| "iface f64 (JObj kvs) = JObj (obj_canon (map (\<lambda>(k, v). (k, iface f64 v)) kvs))"
| "iface f64 j = j"

definition dec_iface :: "(int \<Rightarrow> int) \<Rightarrow> json \<Rightarrow> goval \<Rightarrow> goerr option \<times> goval" where
  "dec_iface f64 j old = (None, GoVal (iface f64 j))"

text \<open>Storing a decoded value into its field, keeping the error.\<close>

definition upd :: "('r \<Rightarrow> 'a \<Rightarrow> 'r) \<Rightarrow> 'r \<Rightarrow> goerr option \<times> 'a \<Rightarrow> goerr option \<times> 'r" where
  "upd put r ea = (fst ea, put r (snd ea))"

lemma upd_ok [simp]: "upd put r (None, x) = (None, put r x)"
  by (simp add: upd_def)

text \<open>Decoding an object into a struct, entry by entry, keeping the first error.\<close>

fun decode_entries ::
  "(string \<Rightarrow> json \<Rightarrow> 'r \<Rightarrow> goerr option \<times> 'r) \<Rightarrow> (string \<times> json) list \<Rightarrow> 'r \<Rightarrow> goerr option \<times> 'r" where
  "decode_entries setf [] r = (None, r)"
| "decode_entries setf ((k, v) # kvs) r =
     (let (e, r1) = setf k v r; (e', r2) = decode_entries setf kvs r1
      in (case e of None \<Rightarrow> e' | Some _ \<Rightarrow> e, r2))"

definition unmarshal_struct ::
  "(string \<Rightarrow> json \<Rightarrow> 'r \<Rightarrow> goerr option \<times> 'r) \<Rightarrow> wire \<Rightarrow> 'r \<Rightarrow> goerr option \<times> 'r" where
  "unmarshal_struct setf w r = (case w of
      Raw s \<Rightarrow> (Some (ErrText ''invalid json''), r)
    | Doc JNull \<Rightarrow> (None, r)
    | Doc (JObj kvs) \<Rightarrow> decode_entries setf kvs r
    | Doc _ \<Rightarrow> (Some type_error, r))"

text \<open>Reading a key of a \<open>map[string]json.RawMessage\<close>: the last entry with that key.\<close>

definition obj_get :: "(string \<times> json) list \<Rightarrow> string \<Rightarrow> json option" where
  "obj_get kvs k = map_of (rev kvs) k"

lemma dec_int64_of [simp]: "dec_int64 (json_of_int64 n) old = (None, n)"
proof -
  have "- (2 ^ 63) \<le> sint n" "sint n < 2 ^ 63"
    using sint_ge [of n] sint_lt [of n] by simp_all
  then show ?thesis by (simp add: dec_int64_def json_of_int64_def)
qed

lemma dec_string_JStr [simp]: "dec_string (JStr s) old = (None, s)"
  by (simp add: dec_string_def)

lemma dec_elems_of [simp]: "dec_elems (map json_of_int64 xs) = (None, xs)"
  by (induction xs) simp_all

lemma dec_int64s_of [simp]: "dec_int64s (JArr (map json_of_int64 xs)) old = (None, xs)"
  by (simp add: dec_int64s_def)

section \<open>Decimal printing and parsing of integers\<close>

text \<open>\<open>strconv.FormatInt(n, 10)\<close> and \<open>strconv.ParseInt(s, 10, 64)\<close>.\<close>

definition digit_char :: "nat \<Rightarrow> char" where
  "digit_char d = char_of (48 + d)"

fun format_nat :: "nat \<Rightarrow> string" where
  "format_nat n = (if n < 10 then [digit_char n] else format_nat (n div 10) @ [digit_char (n mod 10)])"

declare format_nat.simps [simp del]

definition FormatInt :: "int64 \<Rightarrow> string" where
  "FormatInt n = (let i = sint n in if i < 0 then CHR ''-'' # format_nat (nat (- i)) else format_nat (nat i))"

definition char_digit :: "char \<Rightarrow> nat option" where
  "char_digit c = (let v = of_char c in if 48 \<le> v \<and> v < (58 :: nat) then Some (v - 48) else None)"

fun parse_digits :: "nat \<Rightarrow> string \<Rightarrow> nat option" where
  "parse_digits acc [] = Some acc"
| "parse_digits acc (c # cs) =
     (case char_digit c of None \<Rightarrow> None | Some d \<Rightarrow> parse_digits (10 * acc + d) cs)"

definition parse_error :: goerr where
  "parse_error = ErrText ''strconv.ParseInt''"

definition ParseInt :: "string \<Rightarrow> goerr + int64" where
  "ParseInt s =
     (let (neg, body) = (case s of [] \<Rightarrow> (False, [])
          | c # cs \<Rightarrow> if c = CHR ''-'' then (True, cs) else if c = CHR ''+'' then (False, cs) else (False, s))
      in if body = [] then Inl parse_error
         else case parse_digits 0 body of
             None \<Rightarrow> Inl parse_error
           | Some v \<Rightarrow>
               if neg then (if v \<le> 2 ^ 63 then Inr (word_of_int (- int v)) else Inl parse_error)
               else (if v < 2 ^ 63 then Inr (word_of_int (int v)) else Inl parse_error))"

lemma char_digit_digit [simp]: "d < 10 \<Longrightarrow> char_digit (digit_char d) = Some d"
  by (simp add: char_digit_def digit_char_def Let_def of_char_of)

lemma parse_digits_append:
  "parse_digits acc (s @ t) = (case parse_digits acc s of None \<Rightarrow> None | Some v \<Rightarrow> parse_digits v t)"
  by (induction s arbitrary: acc) (auto split: option.split)

lemma parse_format_nat: "parse_digits 0 (format_nat n) = Some n"
proof (induction n rule: format_nat.induct)
  case (1 n)
  show ?case
  proof (cases "n < 10")
    case True
    then show ?thesis by (subst format_nat.simps) simp
  next
    case False
    with 1 have "parse_digits 0 (format_nat (n div 10)) = Some (n div 10)" by simp
    with False show ?thesis by (subst format_nat.simps) (simp add: parse_digits_append)
  qed
qed

lemma format_nat_Nil [simp]: "format_nat n \<noteq> []"
  by (subst format_nat.simps) simp

lemma digit_char_not_sign: "d < 10 \<Longrightarrow> digit_char d \<noteq> CHR ''-'' \<and> digit_char d \<noteq> CHR ''+''"
proof -
  assume "d < 10"
  then have "char_digit (digit_char d) = Some d" by simp
  moreover have "char_digit CHR ''-'' = None" "char_digit CHR ''+'' = None"
    by (simp_all add: char_digit_def)
  ultimately show ?thesis by force
qed

lemma hd_format_nat: "hd (format_nat n) \<noteq> CHR ''-'' \<and> hd (format_nat n) \<noteq> CHR ''+''"
proof (induction n rule: format_nat.induct)
  case (1 n)
  then show ?case by (subst (1 2) format_nat.simps) (simp add: digit_char_not_sign)
qed

text \<open>Printing and parsing back gives the same \<open>int64\<close>, the least one included.\<close>

lemma Parse_Format [simp]: "ParseInt (FormatInt n) = Inr n"
proof -
  have r: "- (2 ^ 63) \<le> sint n" "sint n < 2 ^ 63"
    using sint_ge [of n] sint_lt [of n] by simp_all
  show ?thesis
  proof (cases "sint n < 0")
    case True
    then have "FormatInt n = CHR ''-'' # format_nat (nat (- sint n))" by (simp add: FormatInt_def)
    moreover have "nat (- sint n) \<le> 2 ^ 63" using r True by (simp add: nat_le_iff)
    ultimately show ?thesis using True by (simp add: ParseInt_def parse_format_nat)
  next
    case False
    obtain c cs where cs: "format_nat (nat (sint n)) = c # cs" by (cases "format_nat (nat (sint n))") auto
    with hd_format_nat [of "nat (sint n)"] have "c \<noteq> CHR ''-''" "c \<noteq> CHR ''+''" by simp_all
    moreover have "parse_digits 0 (c # cs) = Some (nat (sint n))"
      using parse_format_nat [of "nat (sint n)"] cs by simp
    moreover have "nat (sint n) < 2 ^ 63" using r False by (simp add: nat_less_iff)
    ultimately show ?thesis
      using False cs by (simp add: ParseInt_def FormatInt_def Let_def del: parse_digits.simps)
  qed
qed

lemma FormatInt_inject [simp]: "FormatInt m = FormatInt n \<longleftrightarrow> m = n"
  by (metis Parse_Format sum.inject(2))

end
