(* ===== verification/Messages.thy ===== *)
theory Messages
  imports Json
begin

text \<open>
  The messages the services exchange: \<open>PushMessage\<close> and \<open>ClientMessage\<close> of
  \<open>internal/send/push/types.go\<close>, \<open>internal/gateway/push/types/types.go\<close> (with its tolerant
  \<open>UnmarshalJSON\<close>) and \<open>internal/msgflusher/reclaimer.go\<close>, and the chat payloads of
  \<open>internal/send/chat/send/chatpayload.go\<close>. The three Go declarations of each message have the
  same fields and differ in their JSON tags, so they share a record and have an encoder or decoder
  per package.
\<close>

section \<open>Push and client messages\<close>

record push_message =
  pID :: int64
  pType :: string
  pRoomID :: int64
  pSenderID :: int64
  pTargetIDs :: "int64 list"
  pPayload :: goval

record client_message =
  cID :: int64
  cType :: string
  cRoomID :: int64
  cSenderID :: int64
  cPayload :: goval

definition zero_push :: push_message where
  "zero_push = \<lparr>pID = 0, pType = [], pRoomID = 0, pSenderID = 0, pTargetIDs = [], pPayload = GoVal JNull\<rparr>"

definition zero_client :: client_message where
  "zero_client = \<lparr>cID = 0, cType = [], cRoomID = 0, cSenderID = 0, cPayload = GoVal JNull\<rparr>"

definition client_of_push :: "push_message \<Rightarrow> client_message" where
  "client_of_push m = \<lparr>cID = pID m, cType = pType m, cRoomID = pRoomID m,
     cSenderID = pSenderID m, cPayload = pPayload m\<rparr>"

text \<open>The send service's \<open>PushMessage\<close> has no tags: its keys are the field names.\<close>

definition send_push_json :: "push_message \<Rightarrow> goerr + json" where
  "send_push_json m =
     (case marshal_val (pPayload m) of
        Inl e \<Rightarrow> Inl e
      | Inr p \<Rightarrow> Inr (JObj [(''ID'', json_of_int64 (pID m)), (''Type'', JStr (pType m)),
          (''RoomID'', json_of_int64 (pRoomID m)), (''SenderID'', json_of_int64 (pSenderID m)),
          (''TargetIDs'', JArr (map json_of_int64 (pTargetIDs m))), (''Payload'', p)]))"

text \<open>\<open>ClientMessage\<close> has the same snake-case tags in every package.\<close>

definition client_json :: "client_message \<Rightarrow> goerr + json" where
  "client_json m =
     (case marshal_val (cPayload m) of
        Inl e \<Rightarrow> Inl e
      | Inr p \<Rightarrow> Inr (JObj [(''id'', json_of_int64 (cID m)), (''type'', JStr (cType m)),
          (''room_id'', json_of_int64 (cRoomID m)), (''sender_id'', json_of_int64 (cSenderID m)),
          (''payload'', p)]))"

section \<open>Decoding by tags\<close>

definition client_setf :: "(int \<Rightarrow> int) \<Rightarrow> string \<Rightarrow> json \<Rightarrow> client_message \<Rightarrow> goerr option \<times> client_message" where
  "client_setf f64 k v m =
     (case match_field [''id'', ''type'', ''room_id'', ''sender_id'', ''payload''] k of
        None \<Rightarrow> (None, m)
      | Some f \<Rightarrow>
          if f = ''id'' then upd (\<lambda>m x. m\<lparr>cID := x\<rparr>) m (dec_int64 v (cID m))
          else if f = ''type'' then upd (\<lambda>m x. m\<lparr>cType := x\<rparr>) m (dec_string v (cType m))
          else if f = ''room_id'' then upd (\<lambda>m x. m\<lparr>cRoomID := x\<rparr>) m (dec_int64 v (cRoomID m))
          else if f = ''sender_id'' then upd (\<lambda>m x. m\<lparr>cSenderID := x\<rparr>) m (dec_int64 v (cSenderID m))
          else upd (\<lambda>m x. m\<lparr>cPayload := x\<rparr>) m (dec_iface f64 v (cPayload m)))"

definition client_unmarshal :: "(int \<Rightarrow> int) \<Rightarrow> wire \<Rightarrow> goerr option \<times> client_message" where
  "client_unmarshal f64 w = unmarshal_struct (client_setf f64) w zero_client"

definition push_setf :: "(int \<Rightarrow> int) \<Rightarrow> string \<Rightarrow> json \<Rightarrow> push_message \<Rightarrow> goerr option \<times> push_message" where
  "push_setf f64 k v m =
     (case match_field [''id'', ''type'', ''room_id'', ''sender_id'', ''target_ids'', ''payload''] k of
        None \<Rightarrow> (None, m)
      | Some f \<Rightarrow>
          if f = ''id'' then upd (\<lambda>m x. m\<lparr>pID := x\<rparr>) m (dec_int64 v (pID m))
          else if f = ''type'' then upd (\<lambda>m x. m\<lparr>pType := x\<rparr>) m (dec_string v (pType m))
          else if f = ''room_id'' then upd (\<lambda>m x. m\<lparr>pRoomID := x\<rparr>) m (dec_int64 v (pRoomID m))
          else if f = ''sender_id'' then upd (\<lambda>m x. m\<lparr>pSenderID := x\<rparr>) m (dec_int64 v (pSenderID m))
          else if f = ''target_ids'' then upd (\<lambda>m x. m\<lparr>pTargetIDs := x\<rparr>) m (dec_int64s v (pTargetIDs m))
          else upd (\<lambda>m x. m\<lparr>pPayload := x\<rparr>) m (dec_iface f64 v (pPayload m)))"

text \<open>
  The gateway's tolerant \<open>UnmarshalJSON\<close>: the tagged decode is kept when it reports no error, then
  every field is filled from its snake-case or else its CamelCase key; a value of the wrong type
  is skipped.
\<close>

fun getRaw :: "(string \<times> json) list \<Rightarrow> string list \<Rightarrow> json option" where
  "getRaw kvs [] = None"
| "getRaw kvs (k # ks) = (case obj_get kvs k of Some v \<Rightarrow> Some v | None \<Rightarrow> getRaw kvs ks)"

definition fill :: "(string \<times> json) list \<Rightarrow> string list \<Rightarrow> (json \<Rightarrow> goerr option \<times> 'a) \<Rightarrow>
    ('r \<Rightarrow> 'a \<Rightarrow> 'r) \<Rightarrow> 'r \<Rightarrow> 'r" where
  "fill kvs ks dec put r =
     (case getRaw kvs ks of
        None \<Rightarrow> r
      | Some v \<Rightarrow> (case dec v of (None, x) \<Rightarrow> put r x | (Some _, _) \<Rightarrow> r))"

definition UnmarshalJSON :: "(int \<Rightarrow> int) \<Rightarrow> wire \<Rightarrow> push_message \<Rightarrow> goerr + push_message" where
  "UnmarshalJSON f64 w p =
     (let (e, a) = unmarshal_struct (push_setf f64) w zero_push;
          p0 = (if e = None then a else p) in
      case w of
        Raw s \<Rightarrow> Inl (ErrText ''pushmessage: invalid json'')
      | Doc JNull \<Rightarrow> Inr p0
      | Doc (JObj kvs) \<Rightarrow>
          let p1 = fill kvs [''id'', ''ID''] (\<lambda>v. dec_int64 v 0) (\<lambda>m x. m\<lparr>pID := x\<rparr>) p0;
              p2 = fill kvs [''type'', ''Type''] (\<lambda>v. dec_string v []) (\<lambda>m x. m\<lparr>pType := x\<rparr>) p1;
              p3 = fill kvs [''room_id'', ''RoomID''] (\<lambda>v. dec_int64 v 0) (\<lambda>m x. m\<lparr>pRoomID := x\<rparr>) p2;
              p4 = fill kvs [''sender_id'', ''SenderID''] (\<lambda>v. dec_int64 v 0) (\<lambda>m x. m\<lparr>pSenderID := x\<rparr>) p3;
              p5 = fill kvs [''target_ids'', ''TargetIDs''] (\<lambda>v. dec_int64s v []) (\<lambda>m x. m\<lparr>pTargetIDs := x\<rparr>) p4
          in Inr (fill kvs [''payload'', ''Payload''] (\<lambda>v. dec_iface f64 v (GoVal JNull)) (\<lambda>m x. m\<lparr>pPayload := x\<rparr>) p5)
      | Doc _ \<Rightarrow> Inl (ErrText ''pushmessage: invalid json''))"

text \<open>The reclaimer decodes the same stream entry by its snake-case tags only.\<close>

definition xMessageToPushMessage :: "(int \<Rightarrow> int) \<Rightarrow> wire option \<Rightarrow> goerr + push_message" where
  "xMessageToPushMessage f64 data =
     (case data of
        None \<Rightarrow> Inl (ErrText ''stream message missing data field'')
      | Some w \<Rightarrow> (case unmarshal_struct (push_setf f64) w zero_push of
            (Some e, _) \<Rightarrow> Inl e
          | (None, m) \<Rightarrow> Inr m))"

lemma match_push_keys [simp]:
  "match_field [''id'', ''type'', ''room_id'', ''sender_id'', ''target_ids'', ''payload''] ''ID'' = Some ''id''"
  "match_field [''id'', ''type'', ''room_id'', ''sender_id'', ''target_ids'', ''payload''] ''Type'' = Some ''type''"
  "match_field [''id'', ''type'', ''room_id'', ''sender_id'', ''target_ids'', ''payload''] ''RoomID'' = None"
  "match_field [''id'', ''type'', ''room_id'', ''sender_id'', ''target_ids'', ''payload''] ''SenderID'' = None"
  "match_field [''id'', ''type'', ''room_id'', ''sender_id'', ''target_ids'', ''payload''] ''TargetIDs'' = None"
  "match_field [''id'', ''type'', ''room_id'', ''sender_id'', ''target_ids'', ''payload''] ''Payload'' = Some ''payload''"
  by code_simp+

lemma match_client_keys [simp]:
  "match_field [''id'', ''type'', ''room_id'', ''sender_id'', ''payload''] ''id'' = Some ''id''"
  "match_field [''id'', ''type'', ''room_id'', ''sender_id'', ''payload''] ''type'' = Some ''type''"
  "match_field [''id'', ''type'', ''room_id'', ''sender_id'', ''payload''] ''room_id'' = Some ''room_id''"
  "match_field [''id'', ''type'', ''room_id'', ''sender_id'', ''payload''] ''sender_id'' = Some ''sender_id''"
  "match_field [''id'', ''type'', ''room_id'', ''sender_id'', ''payload''] ''payload'' = Some ''payload''"
  by code_simp+

text \<open>The tagged decode of the send service's keys: three of the six are recognised.\<close>

lemma push_setf_send [simp]:
  "push_setf f64 ''ID'' v m = upd (\<lambda>m x. m\<lparr>pID := x\<rparr>) m (dec_int64 v (pID m))"
  "push_setf f64 ''Type'' v m = upd (\<lambda>m x. m\<lparr>pType := x\<rparr>) m (dec_string v (pType m))"
  "push_setf f64 ''RoomID'' v m = (None, m)"
  "push_setf f64 ''SenderID'' v m = (None, m)"
  "push_setf f64 ''TargetIDs'' v m = (None, m)"
  "push_setf f64 ''Payload'' v m = upd (\<lambda>m x. m\<lparr>pPayload := x\<rparr>) m (dec_iface f64 v (pPayload m))"
  by (simp_all add: push_setf_def)

lemma client_setf_keys [simp]:
  "client_setf f64 ''id'' v m = upd (\<lambda>m x. m\<lparr>cID := x\<rparr>) m (dec_int64 v (cID m))"
  "client_setf f64 ''type'' v m = upd (\<lambda>m x. m\<lparr>cType := x\<rparr>) m (dec_string v (cType m))"
  "client_setf f64 ''room_id'' v m = upd (\<lambda>m x. m\<lparr>cRoomID := x\<rparr>) m (dec_int64 v (cRoomID m))"
  "client_setf f64 ''sender_id'' v m = upd (\<lambda>m x. m\<lparr>cSenderID := x\<rparr>) m (dec_int64 v (cSenderID m))"
  "client_setf f64 ''payload'' v m = upd (\<lambda>m x. m\<lparr>cPayload := x\<rparr>) m (dec_iface f64 v (cPayload m))"
  by (simp_all add: client_setf_def)

lemma dec_iface_ok [simp]: "dec_iface f64 j old = (None, GoVal (iface f64 j))"
  by (simp add: dec_iface_def)

lemma send_push_json_Inr:
  "send_push_json m = Inr j \<longleftrightarrow> (\<exists>p. pPayload m = GoVal p
     \<and> j = JObj [(''ID'', json_of_int64 (pID m)), (''Type'', JStr (pType m)),
          (''RoomID'', json_of_int64 (pRoomID m)), (''SenderID'', json_of_int64 (pSenderID m)),
          (''TargetIDs'', JArr (map json_of_int64 (pTargetIDs m))), (''Payload'', p)])"
  by (cases "pPayload m") (auto simp: send_push_json_def marshal_val_def)

lemma tagged_send:
  "send_push_json m = Inr j \<Longrightarrow> \<exists>p. pPayload m = GoVal p
     \<and> unmarshal_struct (push_setf f64) (Doc j) zero_push =
         (None, \<lparr>pID = pID m, pType = pType m, pRoomID = 0, pSenderID = 0, pTargetIDs = [],
                 pPayload = GoVal (iface f64 p)\<rparr>)"
  by (auto simp: send_push_json_Inr unmarshal_struct_def zero_push_def)

lemma UnmarshalJSON_send:
  assumes "send_push_json m = Inr j"
  shows "\<exists>p. pPayload m = GoVal p
    \<and> UnmarshalJSON f64 (Doc j) old = Inr (m\<lparr>pPayload := GoVal (iface f64 p)\<rparr>)"
proof -
  obtain p where p: "pPayload m = GoVal p" and u: "unmarshal_struct (push_setf f64) (Doc j) zero_push =
      (None, \<lparr>pID = pID m, pType = pType m, pRoomID = 0, pSenderID = 0, pTargetIDs = [],
              pPayload = GoVal (iface f64 p)\<rparr>)"
    using tagged_send [OF assms] by blast
  from assms p have j: "j = JObj [(''ID'', json_of_int64 (pID m)), (''Type'', JStr (pType m)),
      (''RoomID'', json_of_int64 (pRoomID m)), (''SenderID'', json_of_int64 (pSenderID m)),
      (''TargetIDs'', JArr (map json_of_int64 (pTargetIDs m))), (''Payload'', p)]"
    by (simp add: send_push_json_Inr)
  show ?thesis
    unfolding UnmarshalJSON_def u by (simp add: j p fill_def obj_get_def)
qed

text \<open>
  C4: what the send service writes to a gateway's stream is what the gateway reads, whatever the
  receiver held before: same message, its payload as a decoded \<open>interface{}\<close>.
\<close>

theorem gateway_reads_send:
  assumes "send_push_json m = Inr j"
  shows "\<exists>p. pPayload m = GoVal p
    \<and> UnmarshalJSON f64 (Doc j) old = Inr (m\<lparr>pPayload := GoVal (iface f64 p)\<rparr>)"
  by (rule UnmarshalJSON_send [OF assms])

definition demo_push :: push_message where
  "demo_push = \<lparr>pID = 9007199254740993, pType = ''chat'', pRoomID = 5, pSenderID = 8,
     pTargetIDs = [8, 9], pPayload = GoVal (JObj [(''text'', JStr ''hi'')])\<rparr>"

definition demo_json :: json where
  "demo_json = JObj [(''ID'', JInt 9007199254740993), (''Type'', JStr ''chat''), (''RoomID'', JInt 5),
     (''SenderID'', JInt 8), (''TargetIDs'', JArr [JInt 8, JInt 9]),
     (''Payload'', JObj [(''text'', JStr ''hi'')])]"

lemma demo_push_json: "send_push_json demo_push = Inr demo_json"
  by (simp add: send_push_json_def demo_push_def demo_json_def marshal_val_def json_of_int64_def)

theorem gateway_reads_send_witness:
  "UnmarshalJSON (\<lambda>n. n) (Doc demo_json) zero_push = Inr demo_push"
  using gateway_reads_send [OF demo_push_json, of "\<lambda>n. n" zero_push]
  by (auto simp: demo_push_def obj_canon_def)

text \<open>
  The reclaimer reads the same entry with no targets, no room and no sender: none of the
  CamelCase keys \<open>TargetIDs\<close>, \<open>RoomID\<close>, \<open>SenderID\<close> matches its tags, even ignoring case.
\<close>

theorem reclaimer_misreads_send:
  assumes "send_push_json m = Inr j"
  shows "\<exists>p. xMessageToPushMessage f64 (Some (Doc j)) = Inr \<lparr>pID = pID m, pType = pType m,
      pRoomID = 0, pSenderID = 0, pTargetIDs = [], pPayload = GoVal p\<rparr>"
  using tagged_send [OF assms, of f64] by (auto simp: xMessageToPushMessage_def)

theorem reclaimer_misreads_send_witness:
  "\<exists>p. xMessageToPushMessage (\<lambda>n. n) (Some (Doc demo_json)) = Inr \<lparr>pID = 9007199254740993,
     pType = ''chat'', pRoomID = 0, pSenderID = 0, pTargetIDs = [], pPayload = GoVal p\<rparr>"
  using reclaimer_misreads_send [OF demo_push_json, of "\<lambda>n. n"] by (simp add: demo_push_def)

lemma client_roundtrip:
  "client_json m = Inr j \<Longrightarrow> \<exists>p. cPayload m = GoVal p
     \<and> client_unmarshal f64 (Doc j) = (None, m\<lparr>cPayload := GoVal (iface f64 p)\<rparr>)"
  by (cases "cPayload m")
     (auto simp: client_json_def marshal_val_def client_unmarshal_def unmarshal_struct_def zero_client_def)


end
