(* ===== verification/Chat.thy ===== *)
theory Chat
  imports Messages
begin

text \<open>
  \<open>internal/send/chat/send/chatpayload.go\<close>: the four chat payloads, how they print, and how
  \<open>UnmarshalChatPayload\<close> picks the one to decode from the content's \<open>type\<close> key. Printing a
  payload writes its own fields only, so a printed payload has no \<open>type\<close> key.
\<close>

section \<open>Payloads\<close>

datatype chat_payload =
    TextPayload string
  | ImagePayload string int64 int64
  | VoicePayload string int64
  | FilePayload string string int64

fun GetType :: "chat_payload \<Rightarrow> string" where
  "GetType (TextPayload t) = ''text''"
| "GetType (ImagePayload u w h) = ''image''"
| "GetType (VoicePayload u d) = ''voice''"
| "GetType (FilePayload u n sz) = ''file''"

fun payload_fields :: "chat_payload \<Rightarrow> (string \<times> json) list" where
  "payload_fields (TextPayload t) = [(''text'', JStr t)]"
| "payload_fields (ImagePayload u w h) =
     [(''url'', JStr u), (''width'', json_of_int64 w), (''height'', json_of_int64 h)]"
| "payload_fields (VoicePayload u d) = [(''url'', JStr u), (''duration'', json_of_int64 d)]"
| "payload_fields (FilePayload u n sz) =
     [(''url'', JStr u), (''file_name'', JStr n), (''size'', json_of_int64 sz)]"

definition payload_json :: "chat_payload \<Rightarrow> json" where
  "payload_json p = JObj (payload_fields p)"

section \<open>Decoding\<close>

definition probe_setf :: "string \<Rightarrow> json \<Rightarrow> string \<Rightarrow> goerr option \<times> string" where
  "probe_setf k v t = (case match_field [''type''] k of None \<Rightarrow> (None, t) | Some f \<Rightarrow> dec_string v t)"

definition text_setf :: "string \<Rightarrow> json \<Rightarrow> string \<Rightarrow> goerr option \<times> string" where
  "text_setf k v t = (case match_field [''text''] k of None \<Rightarrow> (None, t) | Some f \<Rightarrow> dec_string v t)"

definition image_setf ::
  "string \<Rightarrow> json \<Rightarrow> string \<times> int64 \<times> int64 \<Rightarrow> goerr option \<times> string \<times> int64 \<times> int64" where
  "image_setf k v r =
     (case r of (u, w, h) \<Rightarrow>
       (case match_field [''url'', ''width'', ''height''] k of
          None \<Rightarrow> (None, r)
        | Some f \<Rightarrow>
            if f = ''url'' then upd (\<lambda>_ x. (x, w, h)) r (dec_string v u)
            else if f = ''width'' then upd (\<lambda>_ x. (u, x, h)) r (dec_int64 v w)
            else upd (\<lambda>_ x. (u, w, x)) r (dec_int64 v h)))"

definition voice_setf :: "string \<Rightarrow> json \<Rightarrow> string \<times> int64 \<Rightarrow> goerr option \<times> string \<times> int64" where
  "voice_setf k v r =
     (case r of (u, d) \<Rightarrow>
       (case match_field [''url'', ''duration''] k of
          None \<Rightarrow> (None, r)
        | Some f \<Rightarrow>
            if f = ''url'' then upd (\<lambda>_ x. (x, d)) r (dec_string v u)
            else upd (\<lambda>_ x. (u, x)) r (dec_int64 v d)))"

definition file_setf ::
  "string \<Rightarrow> json \<Rightarrow> string \<times> string \<times> int64 \<Rightarrow> goerr option \<times> string \<times> string \<times> int64" where
  "file_setf k v r =
     (case r of (u, n, sz) \<Rightarrow>
       (case match_field [''url'', ''file_name'', ''size''] k of
          None \<Rightarrow> (None, r)
        | Some f \<Rightarrow>
            if f = ''url'' then upd (\<lambda>_ x. (x, n, sz)) r (dec_string v u)
            else if f = ''file_name'' then upd (\<lambda>_ x. (u, x, sz)) r (dec_string v n)
            else upd (\<lambda>_ x. (u, n, x)) r (dec_int64 v sz)))"

text \<open>\<open>json.Unmarshal(data, &p)\<close> and the error wrap that follows it.\<close>

definition decode_as ::
  "(string \<Rightarrow> json \<Rightarrow> 'r \<Rightarrow> goerr option \<times> 'r) \<Rightarrow> wire \<Rightarrow> 'r \<Rightarrow> string \<Rightarrow> ('r \<Rightarrow> chat_payload) \<Rightarrow> goerr + chat_payload" where
  "decode_as setf data z msg mk =
     (case unmarshal_struct setf data z of (None, r) \<Rightarrow> Inr (mk r) | (Some e, r) \<Rightarrow> Inl (ErrText msg))"

definition UnmarshalChatPayload :: "wire \<Rightarrow> goerr + chat_payload" where
  "UnmarshalChatPayload data =
     (case unmarshal_struct probe_setf data [] of
        (Some e, _) \<Rightarrow> Inl (ErrText ''invalid content json'')
      | (None, t) \<Rightarrow>
          if t = ''text'' then decode_as text_setf data [] ''invalid text payload'' TextPayload
          else if t = ''image'' then
            decode_as image_setf data ([], 0, 0) ''invalid image payload'' (\<lambda>(u, w, h). ImagePayload u w h)
          else if t = ''voice'' then
            decode_as voice_setf data ([], 0) ''invalid voice payload'' (\<lambda>(u, d). VoicePayload u d)
          else if t = ''file'' then
            decode_as file_setf data ([], [], 0) ''invalid file payload'' (\<lambda>(u, n, sz). FilePayload u n sz)
          else Inl (ErrText (''unknown content type: '' @ t)))"

lemma match_payload_keys [simp]:
  "match_field [''type''] ''type'' = Some ''type''" "match_field [''type''] ''text'' = None"
  "match_field [''type''] ''url'' = None" "match_field [''type''] ''width'' = None"
  "match_field [''type''] ''height'' = None" "match_field [''type''] ''duration'' = None"
  "match_field [''type''] ''file_name'' = None" "match_field [''type''] ''size'' = None"
  "match_field [''text''] ''type'' = None" "match_field [''text''] ''text'' = Some ''text''"
  "match_field [''url'', ''width'', ''height''] ''type'' = None"
  "match_field [''url'', ''width'', ''height''] ''url'' = Some ''url''"
  "match_field [''url'', ''width'', ''height''] ''width'' = Some ''width''"
  "match_field [''url'', ''width'', ''height''] ''height'' = Some ''height''"
  "match_field [''url'', ''duration''] ''type'' = None"
  "match_field [''url'', ''duration''] ''url'' = Some ''url''"
  "match_field [''url'', ''duration''] ''duration'' = Some ''duration''"
  "match_field [''url'', ''file_name'', ''size''] ''type'' = None"
  "match_field [''url'', ''file_name'', ''size''] ''url'' = Some ''url''"
  "match_field [''url'', ''file_name'', ''size''] ''file_name'' = Some ''file_name''"
  "match_field [''url'', ''file_name'', ''size''] ''size'' = Some ''size''"
  by code_simp+

lemma probe_fields [simp]:
  "decode_entries probe_setf (payload_fields p) t = (None, t)"
  by (cases p) (simp_all add: probe_setf_def)

text \<open>
  A client's content, the payload's fields next to the \<open>type\<close> of \<open>GetType\<close>, decodes to that
  payload.
\<close>

theorem content_roundtrip:
  "UnmarshalChatPayload (Doc (JObj ((''type'', JStr (GetType p)) # payload_fields p))) = Inr p"
proof -
  have "unmarshal_struct probe_setf (Doc (JObj ((''type'', JStr (GetType p)) # payload_fields p))) []
    = (None, GetType p)"
    by (simp add: unmarshal_struct_def) (simp add: probe_setf_def)
  then show ?thesis
    by (cases p)
       (simp_all add: UnmarshalChatPayload_def decode_as_def unmarshal_struct_def text_setf_def
          image_setf_def voice_setf_def file_setf_def)
qed

text \<open>
  Content as it is stored, the payload printed by \<open>json.Marshal\<close> and so without a \<open>type\<close> key,
  is rejected by \<open>UnmarshalChatPayload\<close>, for every payload.
\<close>

theorem stored_content_rejected:
  "UnmarshalChatPayload (Doc (payload_json p)) = Inl (ErrText ''unknown content type: '')"
proof -
  have "unmarshal_struct probe_setf (Doc (payload_json p)) [] = (None, [])"
    by (simp add: unmarshal_struct_def payload_json_def)
  then show ?thesis by (simp add: UnmarshalChatPayload_def)
qed

end
