(* ===== verification/ConnStore.thy ===== *)
theory ConnStore
  imports Prelude
begin

text \<open>
  What the WebSocket handlers rely on in a connection manager: registering a user's connection makes
  it the one that is found, removing the user removes whatever is found. Both managers, the send
  service's and the gateway's, provide it.
\<close>

datatype 'c conn_event = Registered int64 'c | Removed int64

fun event_user :: "'c conn_event \<Rightarrow> int64" where
  "event_user (Registered u c) = u"
| "event_user (Removed u) = u"

fun last_event :: "int64 \<Rightarrow> 'c conn_event list \<Rightarrow> 'c conn_event option" where
  "last_event u [] = None"
| "last_event u (e # es) = (case last_event u es of Some e' \<Rightarrow> Some e' | None \<Rightarrow> if event_user e = u then Some e else None)"

locale conn_registry =
  fixes reg :: "int64 \<Rightarrow> 'c \<Rightarrow> 's \<Rightarrow> 's"
    and rem :: "int64 \<Rightarrow> 's \<Rightarrow> 's"
    and conn_of :: "'s \<Rightarrow> int64 \<Rightarrow> 'c option"
    and ok :: "'s \<Rightarrow> bool"
  assumes reg_ok: "ok s \<Longrightarrow> ok (reg u c s)"
    and rem_ok: "ok s \<Longrightarrow> ok (rem u s)"
    and conn_reg: "ok s \<Longrightarrow> conn_of (reg u c s) = (conn_of s)(u \<mapsto> c)"
    and conn_rem: "ok s \<Longrightarrow> conn_of (rem u s) = (conn_of s)(u := None)"
begin

fun run_event :: "'c conn_event \<Rightarrow> 's \<Rightarrow> 's" where
  "run_event (Registered u c) s = reg u c s"
| "run_event (Removed u) s = rem u s"

definition run_events :: "'c conn_event list \<Rightarrow> 's \<Rightarrow> 's" where
  "run_events es s = fold run_event es s"

lemma run_event_ok: "ok s \<Longrightarrow> ok (run_event e s)"
  by (cases e) (auto simp: reg_ok rem_ok)

lemma run_events_ok: "ok s \<Longrightarrow> ok (run_events es s)"
  unfolding run_events_def by (induction es arbitrary: s) (auto simp: run_event_ok)

text \<open>The connection found is the one of the user's last event.\<close>

lemma last_event_wins:
  "ok s \<Longrightarrow> conn_of (run_events es s) u =
     (case last_event u es of None \<Rightarrow> conn_of s u | Some (Registered v c) \<Rightarrow> Some c | Some (Removed v) \<Rightarrow> None)"
proof (induction es arbitrary: s)
  case Nil
  then show ?case by (simp add: run_events_def)
next
  case (Cons e es)
  have "conn_of (run_events (e # es) s) u = conn_of (run_events es (run_event e s)) u"
    by (simp add: run_events_def)
  also have "\<dots> = (case last_event u es of None \<Rightarrow> conn_of (run_event e s) u
      | Some (Registered v c) \<Rightarrow> Some c | Some (Removed v) \<Rightarrow> None)"
    using Cons.IH [OF run_event_ok [OF Cons.prems]] .
  finally show ?case using Cons.prems
    by (cases e) (auto simp: conn_reg conn_rem split: option.splits)
qed

text \<open>A handler that ends after its user reconnected removes the newer connection.\<close>

lemma stale_removal:
  assumes "ok s"
  shows "conn_of (reg u c2 (reg u c1 s)) u = Some c2" "conn_of (rem u (reg u c2 (reg u c1 s))) u = None"
  using assms by (simp_all add: conn_reg conn_rem reg_ok)

end

end
