(* ===== verification/Http.thy ===== *)
theory Http
  imports Json
begin

text \<open>
  \<open>pkg/response/response.go\<close> and the request side of \<open>pkg/registry_client/client.go\<close>: the
  envelope that the handlers reply with, and the client that sends requests and decodes replies.
  The transport is a parameter: \<open>hDo meth url body\<close> is \<open>httpClient.Do\<close> followed by \<open>io.ReadAll\<close>,
  an error or the status code and the body.
\<close>

section \<open>Replies\<close>

record standard_response =
  sCode :: int64
  sMsg :: string
  sData :: "json option"

record reply =
  status :: nat
  envelope :: standard_response

definition ReplySuccess :: "string \<Rightarrow> reply" where
  "ReplySuccess msg = \<lparr>status = 200, envelope = \<lparr>sCode = 0, sMsg = msg, sData = None\<rparr>\<rparr>"

definition ReplySuccessWithData :: "string \<Rightarrow> json \<Rightarrow> reply" where
  "ReplySuccessWithData msg d = \<lparr>status = 200, envelope = \<lparr>sCode = 0, sMsg = msg, sData = Some d\<rparr>\<rparr>"

definition ReplyBadRequest :: "string \<Rightarrow> reply" where
  "ReplyBadRequest msg = \<lparr>status = 400, envelope = \<lparr>sCode = 400, sMsg = msg, sData = None\<rparr>\<rparr>"

definition ReplyUnauthorized :: "string \<Rightarrow> reply" where
  "ReplyUnauthorized msg = \<lparr>status = 401, envelope = \<lparr>sCode = 401, sMsg = msg, sData = None\<rparr>\<rparr>"

definition ReplyNotFound :: "string \<Rightarrow> reply" where
  "ReplyNotFound msg = \<lparr>status = 404, envelope = \<lparr>sCode = 404, sMsg = msg, sData = None\<rparr>\<rparr>"

definition ReplyError500 :: "string \<Rightarrow> reply" where
  "ReplyError500 msg = \<lparr>status = 500, envelope = \<lparr>sCode = 500, sMsg = msg, sData = None\<rparr>\<rparr>"

lemmas reply_defs = ReplySuccess_def ReplySuccessWithData_def ReplyBadRequest_def
  ReplyUnauthorized_def ReplyNotFound_def ReplyError500_def

text \<open>
  The envelope as \<open>c.JSON\<close> prints it. \<open>omitempty\<close> on an \<open>interface{}\<close> omits a nil value only.
\<close>

definition envelope_json :: "standard_response \<Rightarrow> json" where
  "envelope_json s = JObj ([(''code'', json_of_int64 (sCode s)), (''msg'', JStr (sMsg s))]
     @ (case sData s of None \<Rightarrow> [] | Some d \<Rightarrow> [(''data'', d)]))"

definition reply_body :: "reply \<Rightarrow> nat \<times> wire" where
  "reply_body r = (status r, Doc (envelope_json (envelope r)))"

section \<open>Binding request bodies\<close>

text \<open>
  \<open>c.ShouldBindJSON(&req)\<close>: decode, then check the fields marked \<open>required\<close>. The bytes of an
  absent body are \<open>Raw []\<close>.
\<close>

definition bind_json ::
  "(string \<Rightarrow> json \<Rightarrow> 'r \<Rightarrow> goerr option \<times> 'r) \<Rightarrow> ('r \<Rightarrow> bool) \<Rightarrow> 'r \<Rightarrow> wire \<Rightarrow> goerr + 'r" where
  "bind_json setf required z w =
     (case unmarshal_struct setf w z of
        (Some e, _) \<Rightarrow> Inl e
      | (None, r) \<Rightarrow> if required r then Inr r else Inl (ErrText ''required field missing''))"

definition invalid_request :: "goerr \<Rightarrow> reply" where
  "invalid_request e = ReplyBadRequest (''Invalid request: '' @ err_text e)"

text \<open>
  The validator's \<open>min\<close> and \<open>max\<close> count runes (\<open>utf8.RuneCountInString\<close>): in the valid UTF-8 that
  \<open>encoding/json\<close> decodes strings to, the bytes that do not continue a rune. \<open>len\<close> counts all bytes.
\<close>

definition rune_count :: "string \<Rightarrow> nat" where
  "rune_count s = length (filter (\<lambda>c. (of_char c :: nat) < 128 \<or> 192 \<le> (of_char c :: nat)) s)"

lemma rune_count_le: "rune_count s \<le> length s"
  by (simp add: rune_count_def)

section \<open>The registry client\<close>

text \<open>\<open>Response\<close> of the client: its message key is \<open>message\<close>, where the server writes \<open>msg\<close>.\<close>

record client_response =
  crCode :: int64
  crMessage :: string
  crData :: "json option"

definition zero_response :: client_response where
  "zero_response = \<lparr>crCode = 0, crMessage = [], crData = None\<rparr>"

definition response_setf :: "(int \<Rightarrow> int) \<Rightarrow> string \<Rightarrow> json \<Rightarrow> client_response \<Rightarrow> goerr option \<times> client_response" where
  "response_setf f64 k v r =
     (case match_field [''code'', ''message'', ''data''] k of
        None \<Rightarrow> (None, r)
      | Some f \<Rightarrow>
          if f = ''code'' then upd (\<lambda>r x. r\<lparr>crCode := x\<rparr>) r (dec_int64 v (crCode r))
          else if f = ''message'' then upd (\<lambda>r x. r\<lparr>crMessage := x\<rparr>) r (dec_string v (crMessage r))
          else (None, r\<lparr>crData := (if v = JNull then None else Some (iface f64 v))\<rparr>))"

record 'w http =
  baseURL :: string
  hDo :: "string \<Rightarrow> string \<Rightarrow> wire option \<Rightarrow> ('w, goerr + nat \<times> wire) io"

text \<open>
  \<open>doSingleRequest\<close>: the bodies the program sends always marshal, so the body is a document.
\<close>

definition doSingleRequest :: "(int \<Rightarrow> int) \<Rightarrow> 'w http \<Rightarrow> string \<Rightarrow> string \<Rightarrow> json option \<Rightarrow>
    ('w, goerr + client_response) io" where
  "doSingleRequest f64 h meth path body =
     on_call (hDo h meth (baseURL h @ path) (map_option Doc body))
       (\<lambda>e. return (Inl (ErrText (''failed to send request: '' @ err_text e))))
       (\<lambda>(st, w). case unmarshal_struct (response_setf f64) w zero_response of
          (Some e, _) \<Rightarrow> return (Inl (ErrText (''failed to unmarshal response: '' @ err_text e)))
        | (None, r) \<Rightarrow>
            if 400 \<le> st then return (Inl (ErrText (''request failed with status '' @ format_nat st @ '': '' @ crMessage r)))
            else return (Inr r))"

definition doRequest :: "(int \<Rightarrow> int) \<Rightarrow> 'w http \<Rightarrow> string \<Rightarrow> string \<Rightarrow> json option \<Rightarrow> nat \<Rightarrow>
    ('w, goerr + client_response) io" where
  "doRequest f64 h meth path body maxRetries =
     on_call (retry_loop (Suc maxRetries) (\<lambda>_. False) (Inr zero_response) (doSingleRequest f64 h meth path body))
       (\<lambda>e. return (Inl (ErrText (''failed after '' @ format_nat (Suc maxRetries) @ '' attempts: '' @ err_text e))))
       (\<lambda>r. return (Inr r))"

text \<open>\<open>backoff\<close> before the attempt \<open>k\<close>, in milliseconds: doubled each time, at most five seconds.\<close>

fun backoff :: "nat \<Rightarrow> nat" where
  "backoff 0 = 100"
| "backoff (Suc k) = min 5000 (2 * backoff k)"

definition Ping :: "(int \<Rightarrow> int) \<Rightarrow> 'w http \<Rightarrow> ('w, goerr option) io" where
  "Ping f64 h =
     on_call (doSingleRequest f64 h ''GET'' ''/ping'' None) (\<lambda>e. return (Some e))
       (\<lambda>r. return (if crCode r \<noteq> 0 then Some (ErrText (''ping failed: '' @ crMessage r)) else None))"

section \<open>Client and server\<close>

lemma match_response_keys [simp]:
  "match_field [''code'', ''message'', ''data''] ''code'' = Some ''code''"
  "match_field [''code'', ''message'', ''data''] ''msg'' = None"
  "match_field [''code'', ''message'', ''data''] ''data'' = Some ''data''"
  by code_simp+

lemma response_of_envelope [simp]:
  "unmarshal_struct (response_setf f64) (Doc (envelope_json s)) zero_response =
     (None, \<lparr>crCode = sCode s, crMessage = [],
             crData = (case sData s of None \<Rightarrow> None | Some d \<Rightarrow> if d = JNull then None else Some (iface f64 d))\<rparr>)"
  by (simp add: envelope_json_def unmarshal_struct_def zero_response_def response_setf_def split: option.split)

text \<open>A server that answers every request with a handler's reply.\<close>

definition serves :: "'w http \<Rightarrow> string \<Rightarrow> string \<Rightarrow> json option \<Rightarrow> ('w, reply) io \<Rightarrow> bool" where
  "serves h meth path body handler \<longleftrightarrow>
     (\<forall>w. hDo h meth (baseURL h @ path) (map_option Doc body) w = (case handler w of (r, w') \<Rightarrow> (Inr (reply_body r), w')))"

lemma doSingleRequest_serves:
  assumes "serves h meth path body handler" "handler w = (r, w')"
  shows "doSingleRequest f64 h meth path body w =
    (if 400 \<le> status r then Inl (ErrText (''request failed with status '' @ format_nat (status r) @ '': ''))
     else Inr \<lparr>crCode = sCode (envelope r), crMessage = [],
        crData = (case sData (envelope r) of None \<Rightarrow> None | Some d \<Rightarrow> if d = JNull then None else Some (iface f64 d))\<rparr>, w')"
  using assms by (simp add: doSingleRequest_def serves_def on_call_def reply_body_def)

lemma doRequest_serves_ok:
  assumes "serves h meth path body handler" "handler w = (r, w')" "status r < 400"
  shows "doRequest f64 h meth path body n w = (Inr \<lparr>crCode = sCode (envelope r), crMessage = [],
        crData = (case sData (envelope r) of None \<Rightarrow> None | Some d \<Rightarrow> if d = JNull then None else Some (iface f64 d))\<rparr>, w')"
  using doSingleRequest_serves [OF assms(1,2), of f64] assms(3)
  by (simp add: doRequest_def on_call_def)

lemma backoff_le: "backoff k \<le> 5000"
  by (induction k) auto

text \<open>
  The text of a failure never reaches the registry's clients: whatever handler serves the
  request, if it replies with an error status the client's error carries the status and an empty
  message, because the server prints \<open>msg\<close> and the client reads \<open>message\<close>.
\<close>

theorem error_text_lost:
  assumes "serves h meth path body handler" "handler w = (r, w')" "400 \<le> status r"
  shows "doSingleRequest f64 h meth path body w =
    (Inl (ErrText (''request failed with status '' @ format_nat (status r) @ '': '')), w')"
  using doSingleRequest_serves [OF assms(1,2), of f64] assms(3) by simp

theorem error_text_lost_witness:
  "doSingleRequest (\<lambda>n. n)
     \<lparr>baseURL = [], hDo = (\<lambda>meth url b w. (Inr (reply_body (ReplyNotFound ''Gateway not registered'')), w))\<rparr>
     ''GET'' ''/x'' None () = (Inl (ErrText (''request failed with status '' @ format_nat 404 @ '': '')), ())"
  using error_text_lost [of "\<lparr>baseURL = [], hDo = (\<lambda>meth url b w. (Inr (reply_body (ReplyNotFound ''Gateway not registered'')), w))\<rparr>"
      "''GET''" "''/x''" None "return (ReplyNotFound ''Gateway not registered'')" "()"
      "ReplyNotFound ''Gateway not registered''" "()" "\<lambda>n. n"]
  by (simp add: serves_def reply_defs)

end
