(* ===== verification/RedisApi.thy ===== *)
theory RedisApi
  imports Json Complex_Main
begin

text \<open>
  \<open>pkg/db/redis/redis.go\<close> and \<open>send_roles.go\<close>. The Redis client is third-party code talking to
  a server: every command the program issues is a field of the record \<open>redis\<close>, a function on the
  world, and the definitions take such a record as an argument. The wrappers with their retry
  loops, the error they swallow, and the choice of a client by role are the program's own.

  \<open>list_laws\<close> states Redis's documented list behaviour, with the ambiguity of a command that
  reports an error: it may or may not have been applied. Only theorems that name it rely on it.
\<close>

section \<open>The client\<close>

type_synonym score = rat

record 'w redis =
  cRPush :: "string \<Rightarrow> wire \<Rightarrow> ('w, goerr + unit) io"
  cLPop :: "string \<Rightarrow> ('w, goerr + wire) io"
  cLLen :: "string \<Rightarrow> ('w, goerr + nat) io"
  cSetEx :: "string \<Rightarrow> wire \<Rightarrow> int \<Rightarrow> ('w, goerr + unit) io"
  cGet :: "string \<Rightarrow> ('w, goerr + wire) io"
  cMGet :: "string list \<Rightarrow> ('w, goerr + wire option list) io"
  cDel :: "string \<Rightarrow> ('w, goerr + unit) io"
  cExists :: "string \<Rightarrow> ('w, goerr + nat) io"
  cExpire :: "string \<Rightarrow> int \<Rightarrow> ('w, goerr + unit) io"
  cPersist :: "string \<Rightarrow> ('w, goerr + unit) io"
  cSAdd :: "string \<Rightarrow> string list \<Rightarrow> ('w, goerr + unit) io"
  cSRem :: "string \<Rightarrow> string list \<Rightarrow> ('w, goerr + unit) io"
  cSMembers :: "string \<Rightarrow> ('w, goerr + string list) io"
  cSIsMember :: "string \<Rightarrow> string \<Rightarrow> ('w, goerr + bool) io"
  cSCard :: "string \<Rightarrow> ('w, goerr + nat) io"
  cSRandMember :: "string \<Rightarrow> ('w, goerr + string) io"
  cZAdd :: "string \<Rightarrow> score \<Rightarrow> string \<Rightarrow> ('w, goerr + unit) io"
  cZRem :: "string \<Rightarrow> string list \<Rightarrow> ('w, goerr + unit) io"
  cZRange :: "string \<Rightarrow> int \<Rightarrow> int \<Rightarrow> ('w, goerr + string list) io"
  cZRangeByScore :: "string \<Rightarrow> score \<Rightarrow> ('w, goerr + string list) io"
  cZScore :: "string \<Rightarrow> string \<Rightarrow> ('w, goerr + score) io"
  cXAdd :: "string \<Rightarrow> wire \<Rightarrow> ('w, goerr + unit) io"
  cXAck :: "string \<Rightarrow> string \<Rightarrow> string list \<Rightarrow> ('w, goerr + unit) io"
  cXGroupCreate :: "string \<Rightarrow> string \<Rightarrow> string \<Rightarrow> ('w, goerr + unit) io"
  cXReadGroup :: "string \<Rightarrow> string \<Rightarrow> string \<Rightarrow> nat \<Rightarrow> string \<Rightarrow> ('w, goerr + (string \<times> wire option) list) io"
  cXAutoClaim :: "string \<Rightarrow> string \<Rightarrow> string \<Rightarrow> int \<Rightarrow> string \<Rightarrow> nat \<Rightarrow>
     ('w, goerr + (string \<times> wire option) list \<times> string) io"
  cPing :: "('w, goerr + string) io"

section \<open>Wrappers with retries\<close>

abbreviation never :: "goerr \<Rightarrow> bool" where
  "never \<equiv> (\<lambda>_. False)"

abbreviation on_nil :: "goerr \<Rightarrow> bool" where
  "on_nil \<equiv> (\<lambda>e. e = RedisNil)"

definition LPopWithRetry :: "'w redis \<Rightarrow> nat \<Rightarrow> string \<Rightarrow> ('w, goerr + wire) io" where
  "LPopWithRetry rd retry key = retry_loop retry on_nil (Inr (Raw [])) (cLPop rd key)"

definition RPushWithRetry :: "'w redis \<Rightarrow> nat \<Rightarrow> string \<Rightarrow> wire \<Rightarrow> ('w, goerr + unit) io" where
  "RPushWithRetry rd retry key v = retry_loop retry never (Inr ()) (cRPush rd key v)"

definition SAddWithRetry :: "'w redis \<Rightarrow> nat \<Rightarrow> string \<Rightarrow> string list \<Rightarrow> ('w, goerr + unit) io" where
  "SAddWithRetry rd retry key ms = retry_loop retry never (Inr ()) (cSAdd rd key ms)"

definition SMembersWithRetry :: "'w redis \<Rightarrow> nat \<Rightarrow> string \<Rightarrow> ('w, goerr + string list) io" where
  "SMembersWithRetry rd retry key = retry_loop retry never (Inr []) (cSMembers rd key)"

text \<open>
  \<open>SSCAN\<close> returns keys, a cursor and an error; every attempt assigns all three, so the next one starts at the
  cursor that came with the error (0 in the client), not at the caller's.
\<close>

fun SScanWithRetry :: "(nat \<Rightarrow> ('w, string list \<times> nat \<times> goerr option) io) \<Rightarrow> nat \<Rightarrow> nat \<Rightarrow> string list \<Rightarrow> goerr option \<Rightarrow>
    ('w, string list \<times> nat \<times> goerr option) io" where
  "SScanWithRetry scan 0 cursor result err w = ((result, cursor, err), w)"
| "SScanWithRetry scan (Suc n) cursor result err w =
     (case scan cursor w of
        ((ks, c, None), w') \<Rightarrow> ((ks, c, None), w')
      | ((ks, c, Some e), w') \<Rightarrow> SScanWithRetry scan n c ks (Some e) w')"

lemma scan_restarts:
  "scan c w = ((ks, 0, Some e), w1) \<Longrightarrow> SScanWithRetry scan (Suc n) c r err w = SScanWithRetry scan n 0 ks (Some e) w1"
  by simp

definition SIsEmptyWithRetry :: "'w redis \<Rightarrow> nat \<Rightarrow> string \<Rightarrow> ('w, goerr + bool) io" where
  "SIsEmptyWithRetry rd retry key w =
     (case retry_loop retry never (Inr 0) (cSCard rd key) w of
        (Inr n, w') \<Rightarrow> (if retry = 0 then Inr False else Inr (n = 0), w')
      | (Inl e, w') \<Rightarrow> (Inl e, w'))"

definition XAddWithRetry :: "'w redis \<Rightarrow> nat \<Rightarrow> string \<Rightarrow> wire \<Rightarrow> ('w, goerr + unit) io" where
  "XAddWithRetry rd retry stream data = retry_loop retry never (Inr ()) (cXAdd rd stream data)"

definition XGroupCreateMkStreamWithRetry ::
  "'w redis \<Rightarrow> nat \<Rightarrow> string \<Rightarrow> string \<Rightarrow> string \<Rightarrow> ('w, goerr + unit) io" where
  "XGroupCreateMkStreamWithRetry rd retry stream grp from =
     retry_loop retry never (Inr ()) (cXGroupCreate rd stream grp from)"

definition XReadGroupBlockingWithContext :: "'w redis \<Rightarrow> string \<Rightarrow> string \<Rightarrow> string \<Rightarrow> nat \<Rightarrow> string \<Rightarrow>
    ('w, goerr + (string \<times> wire option) list) io" where
  [simp]: "XReadGroupBlockingWithContext rd stream grp consumer n lastID = cXReadGroup rd stream grp consumer n lastID"

definition XAckWithRetry :: "'w redis \<Rightarrow> nat \<Rightarrow> string \<Rightarrow> string \<Rightarrow> string list \<Rightarrow> ('w, goerr + unit) io" where
  "XAckWithRetry rd retry stream grp ids = retry_loop retry never (Inr ()) (cXAck rd stream grp ids)"

definition SetEXWithRetry :: "'w redis \<Rightarrow> nat \<Rightarrow> string \<Rightarrow> wire \<Rightarrow> int \<Rightarrow> ('w, goerr + unit) io" where
  "SetEXWithRetry rd retry key v ttl = retry_loop retry never (Inr ()) (cSetEx rd key v ttl)"

definition GetWithRetry :: "'w redis \<Rightarrow> nat \<Rightarrow> string \<Rightarrow> ('w, goerr + wire) io" where
  "GetWithRetry rd retry key = retry_loop retry on_nil (Inr (Raw [])) (cGet rd key)"

text \<open>
  \<open>MGetWithRetry\<close> and \<open>ZRangeWithScoresWithRetry\<close> declare a new \<open>err\<close> inside the loop, so the
  \<open>err\<close> they return after the last attempt is the outer one, still \<open>nil\<close>. A missing key reads as
  the empty string.
\<close>

definition swallow :: "'a \<Rightarrow> ('w, goerr + 'a) io \<Rightarrow> ('w, goerr + 'a) io" where
  "swallow z call w = (case call w of (Inl e, w') \<Rightarrow> (Inr z, w') | (Inr v, w') \<Rightarrow> (Inr v, w'))"

definition MGetWithRetry :: "'w redis \<Rightarrow> nat \<Rightarrow> string list \<Rightarrow> ('w, goerr + wire list) io" where
  "MGetWithRetry rd retry keys w =
     (case swallow [] (retry_loop retry never (Inr []) (cMGet rd keys)) w of
        (Inl e, w') \<Rightarrow> (Inl e, w')
      | (Inr vs, w') \<Rightarrow> (Inr (map (\<lambda>v. case v of None \<Rightarrow> Raw [] | Some x \<Rightarrow> x) vs), w'))"

definition ZRangeWithScoresWithRetry ::
  "'w redis \<Rightarrow> nat \<Rightarrow> string \<Rightarrow> int \<Rightarrow> int \<Rightarrow> ('w, goerr + string list) io" where
  "ZRangeWithScoresWithRetry rd retry key lo hi =
     swallow [] (retry_loop retry never (Inr []) (cZRange rd key lo hi))"

definition DelWithRetry :: "'w redis \<Rightarrow> nat \<Rightarrow> string \<Rightarrow> ('w, goerr + unit) io" where
  "DelWithRetry rd retry key = retry_loop retry never (Inr ()) (cDel rd key)"

definition ExistsWithRetry :: "'w redis \<Rightarrow> nat \<Rightarrow> string \<Rightarrow> ('w, goerr + nat) io" where
  "ExistsWithRetry rd retry key = retry_loop retry never (Inr 0) (cExists rd key)"

definition ExpireWithRetry :: "'w redis \<Rightarrow> nat \<Rightarrow> string \<Rightarrow> int \<Rightarrow> ('w, goerr + unit) io" where
  "ExpireWithRetry rd retry key ttl = retry_loop retry never (Inr ()) (cExpire rd key ttl)"

definition ZAddWithRetry :: "'w redis \<Rightarrow> nat \<Rightarrow> string \<Rightarrow> score \<Rightarrow> string \<Rightarrow> ('w, goerr + unit) io" where
  "ZAddWithRetry rd retry key sc m = retry_loop retry never (Inr ()) (cZAdd rd key sc m)"

definition ZRemWithRetry :: "'w redis \<Rightarrow> nat \<Rightarrow> string \<Rightarrow> string list \<Rightarrow> ('w, goerr + unit) io" where
  "ZRemWithRetry rd retry key ms = retry_loop retry never (Inr ()) (cZRem rd key ms)"

definition SRemWithRetry :: "'w redis \<Rightarrow> nat \<Rightarrow> string \<Rightarrow> string list \<Rightarrow> ('w, goerr + unit) io" where
  "SRemWithRetry rd retry key ms = retry_loop retry never (Inr ()) (cSRem rd key ms)"

definition SCardWithRetry :: "'w redis \<Rightarrow> nat \<Rightarrow> string \<Rightarrow> ('w, goerr + nat) io" where
  "SCardWithRetry rd retry key = retry_loop retry never (Inr 0) (cSCard rd key)"

definition SRandMemberWithRetry :: "'w redis \<Rightarrow> nat \<Rightarrow> string \<Rightarrow> ('w, goerr + string) io" where
  "SRandMemberWithRetry rd retry key = retry_loop retry on_nil (Inr []) (cSRandMember rd key)"

section \<open>Clients by role\<close>

datatype role = RoleStream | RoleQueue | RoleCache

text \<open>
  \<open>sendRoleClients\<close> maps a role to a client; \<open>Rdb\<close> is the fallback. Clients are pointers, so
  they are named; \<open>closed\<close> lists the clients that \<open>Close\<close> was called on.
\<close>

record 'c role_clients =
  sendRoleClients :: "role \<rightharpoonup> 'c"
  Rdb :: "'c option"
  closed :: "'c list"

definition getSendRoleClient :: "'c role_clients \<Rightarrow> role \<Rightarrow> 'c option" where
  "getSendRoleClient st r = (case sendRoleClients st r of Some c \<Rightarrow> Some c | None \<Rightarrow> Rdb st)"

fun close_distinct :: "'c option \<Rightarrow> 'c option list \<Rightarrow> 'c list \<Rightarrow> 'c list" where
  "close_distinct rdb [] seen = seen"
| "close_distinct rdb (c # cs) seen =
     (case c of
        None \<Rightarrow> close_distinct rdb cs seen
      | Some x \<Rightarrow>
          if c = rdb \<or> x \<in> set seen then close_distinct rdb cs seen
          else close_distinct rdb cs (seen @ [x]))"

definition closeSendRoleClientsLocked :: "'c role_clients \<Rightarrow> 'c role_clients" where
  "closeSendRoleClientsLocked st =
     st\<lparr>closed := closed st @ close_distinct (Rdb st)
          [sendRoleClients st RoleStream, sendRoleClients st RoleQueue, sendRoleClients st RoleCache] [],
        sendRoleClients := (\<lambda>_. None)\<rparr>"

text \<open>
  \<open>InitSendRoleClients\<close>: \<open>mk\<close> is \<open>newRedisClient\<close> (dial and ping), the configurations are
  opaque. Roles without a configuration share the base client. The roles are visited in the
  order of a Go map, which is unspecified: it is the argument \<open>ord\<close>.
\<close>

fun init_roles :: "('g \<Rightarrow> ('w, goerr + 'c) io) \<Rightarrow> 'c \<Rightarrow> (role \<Rightarrow> 'g option) \<Rightarrow> role list \<Rightarrow>
    'c role_clients \<Rightarrow> 'w \<Rightarrow> (goerr option \<times> 'c role_clients) \<times> 'w" where
  "init_roles mk base cfg [] st w = ((None, st), w)"
| "init_roles mk base cfg (r # rs) st w =
     (case cfg r of
        None \<Rightarrow> init_roles mk base cfg rs (st\<lparr>sendRoleClients := (sendRoleClients st)(r \<mapsto> base)\<rparr>) w
      | Some g \<Rightarrow>
          (case mk g w of
             (Inl e, w') \<Rightarrow> ((Some (ErrText ''init send redis role failed''), closeSendRoleClientsLocked st), w')
           | (Inr c, w') \<Rightarrow>
               init_roles mk base cfg rs (st\<lparr>sendRoleClients := (sendRoleClients st)(r \<mapsto> c)\<rparr>) w'))"

definition InitSendRoleClients :: "('g \<Rightarrow> ('w, goerr + 'c) io) \<Rightarrow> 'g option \<Rightarrow> (role \<Rightarrow> 'g option) option \<Rightarrow>
    role list \<Rightarrow> 'c role_clients \<Rightarrow> 'w \<Rightarrow> (goerr option \<times> 'c role_clients) \<times> 'w" where
  "InitSendRoleClients mk defaultCfg sendCfg ord st0 w =
     (let st = closeSendRoleClientsLocked st0;
          cfg = (case sendCfg of None \<Rightarrow> (\<lambda>_. None) | Some c \<Rightarrow> c) in
      case Rdb st of
        Some base \<Rightarrow> init_roles mk base cfg ord st w
      | None \<Rightarrow>
          (case defaultCfg of
             None \<Rightarrow> ((Some (ErrText ''default redis config is nil''), st), w)
           | Some g \<Rightarrow>
               (case mk g w of
                  (Inl e, w') \<Rightarrow> ((Some (ErrText ''init default redis client failed''), st), w')
                | (Inr base, w') \<Rightarrow> init_roles mk base cfg ord (st\<lparr>Rdb := Some base\<rparr>) w')))"

text \<open>The role-based wrappers: an uninitialised client is an error of its own.\<close>

definition no_client :: goerr where
  "no_client = ErrText ''redis client not initialized''"

definition sendRPushWithRetry :: "'w redis option \<Rightarrow> nat \<Rightarrow> string \<Rightarrow> wire \<Rightarrow> ('w, goerr + unit) io" where
  "sendRPushWithRetry c retry key v w =
     (case c of None \<Rightarrow> (Inl no_client, w) | Some rd \<Rightarrow> retry_loop retry never (Inr ()) (cRPush rd key v) w)"

definition sendLPopWithRetry :: "'w redis option \<Rightarrow> nat \<Rightarrow> string \<Rightarrow> ('w, goerr + wire) io" where
  "sendLPopWithRetry c retry key w =
     (case c of None \<Rightarrow> (Inl no_client, w) | Some rd \<Rightarrow> retry_loop retry on_nil (Inr (Raw [])) (cLPop rd key) w)"

definition sendLLenWithRetry :: "'w redis option \<Rightarrow> nat \<Rightarrow> string \<Rightarrow> ('w, goerr + nat) io" where
  "sendLLenWithRetry c retry key w =
     (case c of None \<Rightarrow> (Inl no_client, w) | Some rd \<Rightarrow> retry_loop retry on_nil (Inr 0) (cLLen rd key) w)"

definition sendXAddWithRetry :: "'w redis option \<Rightarrow> nat \<Rightarrow> string \<Rightarrow> wire \<Rightarrow> ('w, goerr + unit) io" where
  "sendXAddWithRetry c retry stream data w =
     (case c of None \<Rightarrow> (Inl no_client, w) | Some rd \<Rightarrow> retry_loop retry never (Inr ()) (cXAdd rd stream data) w)"

definition SendStreamXAddWithRetry ::
  "'w redis role_clients \<Rightarrow> nat \<Rightarrow> string \<Rightarrow> wire \<Rightarrow> ('w, goerr + unit) io" where
  "SendStreamXAddWithRetry st = sendXAddWithRetry (getSendRoleClient st RoleStream)"

definition SendQueueRPushWithRetry ::
  "'w redis role_clients \<Rightarrow> nat \<Rightarrow> string \<Rightarrow> wire \<Rightarrow> ('w, goerr + unit) io" where
  "SendQueueRPushWithRetry st = sendRPushWithRetry (getSendRoleClient st RoleQueue)"

definition SendQueueLPopWithRetry :: "'w redis role_clients \<Rightarrow> nat \<Rightarrow> string \<Rightarrow> ('w, goerr + wire) io" where
  "SendQueueLPopWithRetry st = sendLPopWithRetry (getSendRoleClient st RoleQueue)"

definition SendQueueLLenWithRetry :: "'w redis role_clients \<Rightarrow> nat \<Rightarrow> string \<Rightarrow> ('w, goerr + nat) io" where
  "SendQueueLLenWithRetry st = sendLLenWithRetry (getSendRoleClient st RoleQueue)"

definition SendCacheRPushWithRetry ::
  "'w redis role_clients \<Rightarrow> nat \<Rightarrow> string \<Rightarrow> wire \<Rightarrow> ('w, goerr + unit) io" where
  "SendCacheRPushWithRetry st = sendRPushWithRetry (getSendRoleClient st RoleCache)"

definition SendCacheLPopWithRetry :: "'w redis role_clients \<Rightarrow> nat \<Rightarrow> string \<Rightarrow> ('w, goerr + wire) io" where
  "SendCacheLPopWithRetry st = sendLPopWithRetry (getSendRoleClient st RoleCache)"


section \<open>Errors that disappear\<close>

lemma swallow_never_fails: "fst (swallow z call w) \<noteq> Inl e"
  by (simp add: swallow_def split: prod.split sum.split)

text \<open>
  When every attempt of an MGET or ZRANGE fails, the wrapper reports success with an empty
  list; its answer otherwise is the server's, a missing key read as the empty string. So a caller
  cannot tell an unreachable server from an empty answer.
\<close>

theorem mget_error_swallowed:
  "fst (MGetWithRetry rd retry keys w) = Inr
     (case fst (retry_loop retry never (Inr []) (cMGet rd keys) w) of
        Inl e \<Rightarrow> []
      | Inr vs \<Rightarrow> map (\<lambda>v. case v of None \<Rightarrow> Raw [] | Some x \<Rightarrow> x) vs)
   \<and> fst (ZRangeWithScoresWithRetry rd retry key lo hi w) = Inr
     (case fst (retry_loop retry never (Inr []) (cZRange rd key lo hi) w) of Inl e \<Rightarrow> [] | Inr ms \<Rightarrow> ms)"
  by (auto simp: MGetWithRetry_def ZRangeWithScoresWithRetry_def swallow_def
      split: prod.splits sum.splits)

section \<open>Redis lists\<close>

text \<open>
  The documented behaviour of \<open>RPUSH\<close>, \<open>LPOP\<close> and \<open>LLEN\<close>: \<open>lst w k\<close> is the content of the
  list at \<open>k\<close>. A command that answers with an error other than the nil reply (a timeout, a lost
  connection) may have been applied or not.
\<close>

definition list_laws :: "'w redis \<Rightarrow> ('w \<Rightarrow> string \<Rightarrow> wire list) \<Rightarrow> bool" where
  "list_laws rd lst \<longleftrightarrow>
     (\<forall>k v w r w'. cRPush rd k v w = (r, w') \<longrightarrow>
        (case r of Inr _ \<Rightarrow> lst w' = (lst w)(k := lst w k @ [v])
         | Inl _ \<Rightarrow> lst w' = lst w \<or> lst w' = (lst w)(k := lst w k @ [v])))
   \<and> (\<forall>k w r w'. cLPop rd k w = (r, w') \<longrightarrow>
        (case r of Inr v \<Rightarrow> lst w k = v # lst w' k \<and> lst w' = (lst w)(k := tl (lst w k))
         | Inl e \<Rightarrow> (if e = RedisNil then lst w k = [] \<and> lst w' = lst w
             else lst w' = lst w \<or> lst w' = (lst w)(k := tl (lst w k)))))
   \<and> (\<forall>k w r w'. cLLen rd k w = (r, w') \<longrightarrow>
        lst w' = lst w \<and> (case r of Inr n \<Rightarrow> n = length (lst w k) | Inl e \<Rightarrow> e \<noteq> RedisNil))"

lemma rpush_law:
  "list_laws rd lst \<Longrightarrow> cRPush rd k v w = (r, w') \<Longrightarrow>
     (\<exists>m. lst w' = (lst w)(k := lst w k @ replicate m v) \<and> m \<le> 1 \<and> (r = Inr () \<longrightarrow> m = 1))"
proof -
  assume "list_laws rd lst" "cRPush rd k v w = (r, w')"
  then have "case r of Inr _ \<Rightarrow> lst w' = (lst w)(k := lst w k @ [v])
      | Inl _ \<Rightarrow> lst w' = lst w \<or> lst w' = (lst w)(k := lst w k @ [v])"
    unfolding list_laws_def by blast
  then consider "lst w' = (lst w)(k := lst w k @ replicate 1 v)"
    | "lst w' = (lst w)(k := lst w k @ replicate 0 v)" "r \<noteq> Inr ()"
    by (cases r) auto
  then show ?thesis by cases (blast intro: le0 le_refl)+
qed

lemma rpush_retried:
  assumes laws: "list_laws rd lst" and pos: "0 < retry"
    and call: "RPushWithRetry rd retry k v w = (r, w')"
  shows "\<exists>m. lst w' = (lst w)(k := lst w k @ replicate m v) \<and> m \<le> retry \<and> (r = Inr () \<longrightarrow> 1 \<le> m)"
proof -
  have "\<exists>m. lst w' = (lst w)(k := lst w k @ replicate m v) \<and> m \<le> n \<and> (r = Inr () \<longrightarrow> 1 \<le> m)"
    if "retry_loop n never acc (cRPush rd k v) w = (r, w')" "0 < n \<or> acc \<noteq> Inr ()" for n acc w
    using that
  proof (induction n arbitrary: acc w)
    case 0
    then show ?case by (intro exI[of _ 0]) auto
  next
    case (Suc n)
    obtain r1 w1 where c: "cRPush rd k v w = (r1, w1)" by (cases "cRPush rd k v w")
    obtain m where m: "lst w1 = (lst w)(k := lst w k @ replicate m v)" "m \<le> 1"
      "r1 = Inr () \<longrightarrow> m = 1" using rpush_law [OF laws c] by blast
    show ?case
    proof (cases r1)
      case (Inr u)
      with Suc.prems c m show ?thesis by (intro exI[of _ m]) auto
    next
      case (Inl e)
      with Suc.prems c have rec: "retry_loop n never (Inl e) (cRPush rd k v) w1 = (r, w')" by simp
      have "0 < n \<or> (Inl e :: goerr + unit) \<noteq> Inr ()" by simp
      from Suc.IH [OF rec this] obtain m' where m': "lst w' = (lst w1)(k := lst w1 k @ replicate m' v)"
        "m' \<le> n" "r = Inr () \<longrightarrow> 1 \<le> m'" by blast
      from m(1) m'(1) have "lst w' = (lst w)(k := lst w k @ replicate (m + m') v)"
        by (simp add: replicate_add)
      with m m' show ?thesis by (intro exI[of _ "m + m'"]) auto
    qed
  qed
  with call pos show ?thesis by (simp add: RPushWithRetry_def)
qed

text \<open>
  A push with retries is at-least-once: when it reports success the value is at the end of the
  list between one and \<open>retry\<close> times, when it reports an error at most \<open>retry\<close> times, and no
  other list changes.
\<close>

theorem rpush_at_least_once:
  assumes laws: "list_laws rd lst" and pos: "0 < retry"
    and call: "RPushWithRetry rd retry k v w = (r, w')"
  shows "\<exists>m. lst w' = (lst w)(k := lst w k @ replicate m v) \<and> m \<le> retry \<and> (r = Inr () \<longrightarrow> 1 \<le> m)"
  by (rule rpush_retried [OF assms])

text \<open>A retried pop: attempts that report an error may have removed an element.\<close>

lemma lpop_law:
  assumes "list_laws rd lst" "cLPop rd k w = (r, w')"
  shows "\<exists>m \<le> 1. lst w' = (lst w)(k := drop m (lst w k)) \<and> (\<forall>v. r = Inr v \<longrightarrow> m = 1 \<and> lst w k = v # lst w' k)
    \<and> (r = Inl RedisNil \<longrightarrow> lst w k = [])"
proof -
  from assms have law: "case r of Inr v \<Rightarrow> lst w k = v # lst w' k \<and> lst w' = (lst w)(k := tl (lst w k))
      | Inl e \<Rightarrow> (if e = RedisNil then lst w k = [] \<and> lst w' = lst w
             else lst w' = lst w \<or> lst w' = (lst w)(k := tl (lst w k)))"
    unfolding list_laws_def by blast
  have d: "drop 1 xs = tl xs" "drop 0 xs = xs" for xs :: "wire list" by (cases xs) simp_all
  have "(lst w' = lst w \<and> (\<forall>v. r \<noteq> Inr v) \<and> (r = Inl RedisNil \<longrightarrow> lst w k = []))
    \<or> (lst w' = (lst w)(k := tl (lst w k)) \<and> r \<noteq> Inl RedisNil \<and> (\<forall>v. r = Inr v \<longrightarrow> lst w k = v # lst w' k))"
  proof (cases r)
    case (Inl e)
    from law have "if e = RedisNil then lst w k = [] \<and> lst w' = lst w
      else lst w' = lst w \<or> lst w' = (lst w)(k := tl (lst w k))" unfolding Inl sum.case .
    then have "(e = RedisNil \<and> lst w k = [] \<and> lst w' = lst w) \<or>
      (e \<noteq> RedisNil \<and> (lst w' = lst w \<or> lst w' = (lst w)(k := tl (lst w k))))" by presburger
    with Inl show ?thesis by blast
  next
    case (Inr v)
    from law have "lst w k = v # lst w' k \<and> lst w' = (lst w)(k := tl (lst w k))"
      unfolding Inr sum.case .
    with Inr show ?thesis by blast
  qed
  then consider "lst w' = lst w" "\<forall>v. r \<noteq> Inr v" "r = Inl RedisNil \<longrightarrow> lst w k = []"
    | "lst w' = (lst w)(k := tl (lst w k))" "r \<noteq> Inl RedisNil" "\<forall>v. r = Inr v \<longrightarrow> lst w k = v # lst w' k"
    by blast
  then show ?thesis
  proof cases
    case 1
    then show ?thesis by (intro exI[of _ 0]) simp
  next
    case 2
    then show ?thesis by (intro exI[of _ 1]) (simp add: d [simplified])
  qed
qed

lemma lpop_retried:
  assumes laws: "list_laws rd lst" and pos: "0 < retry" and call: "LPopWithRetry rd retry k w = (r, w')"
  shows "\<exists>lost. length lost \<le> retry \<and> (\<forall>j. j \<noteq> k \<longrightarrow> lst w' j = lst w j)
    \<and> (case r of Inr v \<Rightarrow> length lost < retry \<and> lst w k = lost @ v # lst w' k
       | Inl e \<Rightarrow> lst w k = lost @ lst w' k \<and> (e = RedisNil \<longrightarrow> lst w' k = [] \<and> length lost < retry))"
proof -
  have "\<exists>lost. length lost \<le> n \<and> (\<forall>j. j \<noteq> k \<longrightarrow> lst w' j = lst w j)
    \<and> (case r of Inr v \<Rightarrow> length lost < n \<and> lst w k = lost @ v # lst w' k
       | Inl e \<Rightarrow> lst w k = lost @ lst w' k \<and> (e = RedisNil \<longrightarrow> lst w' k = [] \<and> length lost < n))"
    if "retry_loop n on_nil acc (cLPop rd k) w = (r, w')" "0 < n \<or> (\<exists>e. acc = Inl e \<and> e \<noteq> RedisNil)" for n acc w
    using that
  proof (induction n arbitrary: acc w)
    case 0
    then show ?case by auto
  next
    case (Suc n)
    obtain r1 w1 where c: "cLPop rd k w = (r1, w1)" by (cases "cLPop rd k w")
    obtain m where m: "m \<le> 1" "lst w1 = (lst w)(k := drop m (lst w k))"
      "\<forall>v. r1 = Inr v \<longrightarrow> m = 1 \<and> lst w k = v # lst w1 k" "r1 = Inl RedisNil \<longrightarrow> lst w k = []"
      using lpop_law [OF laws c] by blast
    show ?case
    proof (cases "\<exists>e. r1 = Inl e \<and> e \<noteq> RedisNil")
      case False
      with Suc.prems c have "r = r1" "w' = w1" by (cases r1; auto)+
      with m False show ?thesis by (intro exI[of _ "[]"]) (auto split: sum.splits)
    next
      case True
      then obtain e where e: "r1 = Inl e" "e \<noteq> RedisNil" by blast
      with Suc.prems c have rec: "retry_loop n on_nil (Inl e) (cLPop rd k) w1 = (r, w')" by simp
      from Suc.IH [OF rec] e obtain lost where l: "length lost \<le> n" "\<forall>j. j \<noteq> k \<longrightarrow> lst w' j = lst w1 j"
        "case r of Inr v \<Rightarrow> length lost < n \<and> lst w1 k = lost @ v # lst w' k
         | Inl e \<Rightarrow> lst w1 k = lost @ lst w' k \<and> (e = RedisNil \<longrightarrow> lst w' k = [] \<and> length lost < n)" by blast
      have "lst w k = take m (lst w k) @ lst w1 k" using m(2) by simp
      moreover have "length (take m (lst w k) @ lost) \<le> Suc n" using l(1) m(1) by simp
      moreover have "\<forall>j. j \<noteq> k \<longrightarrow> lst w' j = lst w j" using l(2) m(2) by simp
      ultimately show ?thesis using l(3) m(1)
        by (intro exI[of _ "take m (lst w k) @ lost"]) (cases r; auto)
    qed
  qed
  with call pos show ?thesis by (simp add: LPopWithRetry_def)
qed

text \<open>
  A pop with retries removes from the head only and touches no other list. When it returns a value,
  fewer than \<open>retry\<close> elements before it were removed by attempts whose reply was lost, and those are
  gone; when it fails up to \<open>retry\<close> elements are. So a retried pop is not exactly-once.
\<close>

theorem lpop_skips_lost:
  assumes laws: "list_laws rd lst" and pos: "0 < retry" and call: "LPopWithRetry rd retry k w = (r, w')"
  shows "\<exists>lost. length lost \<le> retry \<and> (\<forall>j. j \<noteq> k \<longrightarrow> lst w' j = lst w j)
    \<and> (case r of Inr v \<Rightarrow> length lost < retry \<and> lst w k = lost @ v # lst w' k
       | Inl e \<Rightarrow> lst w k = lost @ lst w' k \<and> (e = RedisNil \<longrightarrow> lst w' k = [] \<and> length lost < retry))"
  by (rule lpop_retried [OF assms])

section \<open>Roles\<close>

lemma init_roles_covers:
  assumes "init_roles mk base cfg rs st w = ((None, st'), w')"
  shows "(\<forall>r \<in> set rs. cfg r = None \<longrightarrow> sendRoleClients st' r = Some base)
    \<and> (\<forall>r \<in> set rs. \<exists>c. sendRoleClients st' r = Some c)
    \<and> (\<forall>r. r \<notin> set rs \<longrightarrow> sendRoleClients st' r = sendRoleClients st r) \<and> Rdb st' = Rdb st"
  using assms
proof (induction rs arbitrary: st w)
  case Nil
  then show ?case by simp
next
  case (Cons r rs)
  show ?case
  proof (cases "cfg r")
    case None
    with Cons.prems have "init_roles mk base cfg rs (st\<lparr>sendRoleClients := (sendRoleClients st)(r \<mapsto> base)\<rparr>) w
        = ((None, st'), w')" by simp
    from Cons.IH [OF this] None show ?thesis by (cases "r \<in> set rs") auto
  next
    case (Some g)
    with Cons.prems obtain c w1 where "mk g w = (Inr c, w1)"
      and "init_roles mk base cfg rs (st\<lparr>sendRoleClients := (sendRoleClients st)(r \<mapsto> c)\<rparr>) w1 = ((None, st'), w')"
      by (auto split: prod.splits sum.splits)
    from Cons.IH [OF this(2)] Some show ?thesis by (cases "r \<in> set rs") auto
  qed
qed

lemma close_distinct_closes:
  "set seen \<subseteq> set (close_distinct rdb cs seen)
   \<and> (\<forall>c. Some c \<in> set cs \<longrightarrow> Some c \<noteq> rdb \<longrightarrow> c \<in> set (close_distinct rdb cs seen))"
  by (induction rdb cs seen rule: close_distinct.induct) (auto split: option.splits)

lemma closeSendRoleClientsLocked_closes:
  assumes "sendRoleClients st r = Some c" "Rdb st \<noteq> Some c"
  shows "c \<in> set (closed (closeSendRoleClientsLocked st))"
  using assms close_distinct_closes [of "[]" "Rdb st"
      "[sendRoleClients st RoleStream, sendRoleClients st RoleQueue, sendRoleClients st RoleCache]"]
  by (cases r) (auto simp: closeSendRoleClientsLocked_def)

lemma init_roles_fails:
  assumes "init_roles mk base cfg rs st w = ((Some e, st'), w')"
  shows "sendRoleClients st' = (\<lambda>_. None) \<and> Rdb st' = Rdb st
    \<and> (\<forall>r c. r \<notin> set rs \<longrightarrow> sendRoleClients st r = Some c \<longrightarrow> Rdb st \<noteq> Some c \<longrightarrow> c \<in> set (closed st'))"
  using assms
proof (induction rs arbitrary: st w)
  case (Cons r rs)
  show ?case
  proof (cases "cfg r")
    case None
    with Cons.prems have "init_roles mk base cfg rs (st\<lparr>sendRoleClients := (sendRoleClients st)(r \<mapsto> base)\<rparr>) w
        = ((Some e, st'), w')" by simp
    from Cons.IH [OF this] show ?thesis by auto
  next
    case (Some g)
    obtain v w1 where m: "mk g w = (v, w1)" by fastforce
    show ?thesis
    proof (cases v)
      case (Inl err)
      with Cons.prems Some m have "st' = closeSendRoleClientsLocked st" by simp
      then show ?thesis using closeSendRoleClientsLocked_closes [of st] by (auto simp: closeSendRoleClientsLocked_def)
    next
      case (Inr c)
      with Cons.prems Some m have "init_roles mk base cfg rs (st\<lparr>sendRoleClients := (sendRoleClients st)(r \<mapsto> c)\<rparr>) w1
          = ((Some e, st'), w')" by simp
      from Cons.IH [OF this] show ?thesis by auto
    qed
  qed
qed simp

lemma init_roles_keeps_closed:
  "init_roles mk base cfg rs st w = ((x, st'), w') \<Longrightarrow> set (closed st) \<subseteq> set (closed st')"
proof (induction rs arbitrary: st w)
  case (Cons r rs)
  then show ?case
    by (fastforce simp: closeSendRoleClientsLocked_def split: option.splits prod.splits sum.splits)
qed simp

lemma init_roles_failed:
  assumes "init_roles mk base cfg rs st w = ((Some e, st'), w')"
  shows "sendRoleClients st' = (\<lambda>_. None) \<and> set (closed st) \<subseteq> set (closed st')"
  using init_roles_fails [OF assms] init_roles_keeps_closed [OF assms] by blast

text \<open>
  A failed initialisation keeps no client for a role and leaves none of the clients open that were in use
  before it; until it is repeated, every role falls back to the default client.
\<close>

lemma failed_roles_fall_back:
  assumes "InitSendRoleClients mk d cfg ord st w = ((Some e, st'), w')"
  shows "getSendRoleClient st' r = Rdb st'"
    and "sendRoleClients st r = Some c \<Longrightarrow> Rdb st \<noteq> Some c \<Longrightarrow> c \<in> set (closed st')"
proof -
  let ?st = "closeSendRoleClientsLocked st"
  have n: "sendRoleClients ?st = (\<lambda>_. None)" "Rdb ?st = Rdb st" by (simp_all add: closeSendRoleClientsLocked_def)
  have "sendRoleClients st' = (\<lambda>_. None) \<and> set (closed ?st) \<subseteq> set (closed st')"
    using assms n
    by (auto simp: InitSendRoleClients_def Let_def dest!: init_roles_failed split: option.splits prod.splits sum.splits)
  then show "getSendRoleClient st' r = Rdb st'"
    and "sendRoleClients st r = Some c \<Longrightarrow> Rdb st \<noteq> Some c \<Longrightarrow> c \<in> set (closed st')"
    using closeSendRoleClientsLocked_closes [of st r c] by (auto simp: getSendRoleClient_def)
qed

end
