(* ===== verification/Store.thy ===== *)
theory Store
  imports RedisApi "HOL-Library.Product_Lexorder"
begin

text \<open>
  What a theorem may assume of a Redis server for strings, sets and sorted sets: a view of the
  world as a \<open>store\<close>, and for each command the documented effect on it. A writing command that
  reports an error may have been applied or not; a reading command never writes. Expiry is not a
  command: a key that expired is simply absent from the view.

  \<open>mem_redis\<close> is an in-memory server with a schedule of faults. It meets the laws, so theorems that
  assume them are about something, and their witnesses run on it.
\<close>

section \<open>Views and laws\<close>

record store =
  kv :: "string \<rightharpoonup> wire"
  sets :: "string \<Rightarrow> string set"
  zsets :: "string \<Rightarrow> (score \<times> string) list"

definition zadd :: "score \<Rightarrow> string \<Rightarrow> (score \<times> string) list \<Rightarrow> (score \<times> string) list" where
  "zadd sc m l = insort (sc, m) (filter (\<lambda>x. snd x \<noteq> m) l)"

definition zrem :: "string list \<Rightarrow> (score \<times> string) list \<Rightarrow> (score \<times> string) list" where
  "zrem ms l = filter (\<lambda>x. snd x \<notin> set ms) l"

text \<open>\<open>ZRANGE lo hi\<close>: both ends inclusive, negative indices count from the end.\<close>

definition zslice :: "int \<Rightarrow> int \<Rightarrow> 'a list \<Rightarrow> 'a list" where
  "zslice lo hi l =
     (let n = int (length l);
          a = (if lo < 0 then max 0 (n + lo) else lo);
          b = (if hi < 0 then n + hi else hi)
      in take (nat (b + 1 - a)) (drop (nat a) l))"

text \<open>
  \<open>SETEX\<close> overwrites a key whatever its type, \<open>DEL\<close> removes it whatever its type; a command for
  another type than the key's fails.
\<close>

definition store_setex :: "string \<Rightarrow> wire \<Rightarrow> store \<Rightarrow> store" where
  "store_setex k v s = s\<lparr>kv := (kv s)(k \<mapsto> v), sets := (sets s)(k := {}), zsets := (zsets s)(k := [])\<rparr>"

definition store_del :: "string \<Rightarrow> store \<Rightarrow> store" where
  "store_del k s = s\<lparr>kv := (kv s)(k := None), sets := (sets s)(k := {}), zsets := (zsets s)(k := [])\<rparr>"

definition mutates :: "('w \<Rightarrow> 's) \<Rightarrow> ('w, goerr + 'a) io \<Rightarrow> ('s \<Rightarrow> 's) \<Rightarrow> bool" where
  "mutates vw c f \<longleftrightarrow> (\<forall>w r w'. c w = (r, w') \<longrightarrow>
     (case r of Inr _ \<Rightarrow> vw w' = f (vw w) | Inl _ \<Rightarrow> vw w' = vw w \<or> vw w' = f (vw w)))"

definition reads :: "('w \<Rightarrow> 's) \<Rightarrow> ('w, goerr + 'a) io \<Rightarrow> ('s \<Rightarrow> goerr + 'a \<Rightarrow> bool) \<Rightarrow> bool" where
  "reads vw c P \<longleftrightarrow> (\<forall>w r w'. c w = (r, w') \<longrightarrow> vw w' = vw w \<and> P (vw w) r)"

definition get_reply :: "string \<Rightarrow> store \<Rightarrow> goerr + wire \<Rightarrow> bool" where
  "get_reply k s r \<longleftrightarrow> (case r of Inr v \<Rightarrow> kv s k = Some v | Inl e \<Rightarrow> e = RedisNil \<longrightarrow> kv s k = None)"

definition on_ok :: "('a \<Rightarrow> bool) \<Rightarrow> goerr + 'a \<Rightarrow> bool" where
  "on_ok P r \<longleftrightarrow> (case r of Inr v \<Rightarrow> P v | Inl _ \<Rightarrow> True)"

definition store_laws :: "'w redis \<Rightarrow> ('w \<Rightarrow> store) \<Rightarrow> bool" where
  "store_laws rd vw \<longleftrightarrow>
     (\<forall>k v t. mutates vw (cSetEx rd k v t) (store_setex k v))
   \<and> (\<forall>k. mutates vw (cDel rd k) (store_del k))
   \<and> (\<forall>k. reads vw (cGet rd k) (get_reply k))
   \<and> (\<forall>ks. reads vw (cMGet rd ks) (\<lambda>s. on_ok (\<lambda>vs. vs = map (kv s) ks)))
   \<and> (\<forall>k. reads vw (cExists rd k) (\<lambda>s. on_ok (\<lambda>n. (n = 0 \<longrightarrow> kv s k = None) \<and> (kv s k \<noteq> None \<longrightarrow> n = 1))))
   \<and> (\<forall>k ms. mutates vw (cSAdd rd k ms) (\<lambda>s. s\<lparr>sets := (sets s)(k := sets s k \<union> set ms)\<rparr>))
   \<and> (\<forall>k ms. mutates vw (cSRem rd k ms) (\<lambda>s. s\<lparr>sets := (sets s)(k := sets s k - set ms)\<rparr>))
   \<and> (\<forall>k. reads vw (cSMembers rd k) (\<lambda>s. on_ok (\<lambda>ms. set ms = sets s k)))
   \<and> (\<forall>k m. reads vw (cSIsMember rd k m) (\<lambda>s. on_ok (\<lambda>b. b = (m \<in> sets s k))))
   \<and> (\<forall>k. reads vw (cSCard rd k) (\<lambda>s. on_ok (\<lambda>n. n = card (sets s k))))
   \<and> (\<forall>k. reads vw (cSRandMember rd k) (\<lambda>s. on_ok (\<lambda>m. m \<in> sets s k)))
   \<and> (\<forall>k sc m. mutates vw (cZAdd rd k sc m) (\<lambda>s. s\<lparr>zsets := (zsets s)(k := zadd sc m (zsets s k))\<rparr>))
   \<and> (\<forall>k ms. mutates vw (cZRem rd k ms) (\<lambda>s. s\<lparr>zsets := (zsets s)(k := zrem ms (zsets s k))\<rparr>))
   \<and> (\<forall>k lo hi. reads vw (cZRange rd k lo hi)
        (\<lambda>s. on_ok (\<lambda>ms. ms = zslice lo hi (map snd (zsets s k)))))
   \<and> (\<forall>k t. mutates vw (cExpire rd k t) (\<lambda>s. s))
   \<and> (\<forall>k. mutates vw (cPersist rd k) (\<lambda>s. s))
   \<and> (\<forall>k m. reads vw (cZScore rd k m) (\<lambda>s. on_ok (\<lambda>sc. (sc, m) \<in> set (zsets s k))))
   \<and> (\<forall>k sc. reads vw (cZRangeByScore rd k sc)
        (\<lambda>s. on_ok (\<lambda>ms. ms = map snd (filter (\<lambda>x. fst x \<le> sc) (zsets s k)))))"

lemma store_lawsD:
  assumes "store_laws rd vw"
  shows "mutates vw (cSetEx rd k v t) (store_setex k v)"
    and "mutates vw (cDel rd k) (store_del k)"
    and "reads vw (cGet rd k) (get_reply k)"
    and "reads vw (cMGet rd ks) (\<lambda>s. on_ok (\<lambda>vs. vs = map (kv s) ks))"
    and "reads vw (cExists rd k) (\<lambda>s. on_ok (\<lambda>n. (n = 0 \<longrightarrow> kv s k = None) \<and> (kv s k \<noteq> None \<longrightarrow> n = 1)))"
    and "mutates vw (cSAdd rd k ms) (\<lambda>s. s\<lparr>sets := (sets s)(k := sets s k \<union> set ms)\<rparr>)"
    and "mutates vw (cSRem rd k ms) (\<lambda>s. s\<lparr>sets := (sets s)(k := sets s k - set ms)\<rparr>)"
    and "reads vw (cSMembers rd k) (\<lambda>s. on_ok (\<lambda>ms. set ms = sets s k))"
    and "reads vw (cSIsMember rd k m) (\<lambda>s. on_ok (\<lambda>b. b = (m \<in> sets s k)))"
    and "reads vw (cSCard rd k) (\<lambda>s. on_ok (\<lambda>n. n = card (sets s k)))"
    and "reads vw (cSRandMember rd k) (\<lambda>s. on_ok (\<lambda>m. m \<in> sets s k))"
    and "mutates vw (cZAdd rd k sc m) (\<lambda>s. s\<lparr>zsets := (zsets s)(k := zadd sc m (zsets s k))\<rparr>)"
    and "mutates vw (cZRem rd k ms) (\<lambda>s. s\<lparr>zsets := (zsets s)(k := zrem ms (zsets s k))\<rparr>)"
    and "reads vw (cZRange rd k lo hi) (\<lambda>s. on_ok (\<lambda>ms. ms = zslice lo hi (map snd (zsets s k))))"
    and "mutates vw (cExpire rd k t) (\<lambda>s. s)"
    and "mutates vw (cPersist rd k) (\<lambda>s. s)"
    and "reads vw (cZScore rd k m) (\<lambda>s. on_ok (\<lambda>sc. (sc, m) \<in> set (zsets s k)))"
    and "reads vw (cZRangeByScore rd k sc)
      (\<lambda>s. on_ok (\<lambda>ms. ms = map snd (filter (\<lambda>x. fst x \<le> sc) (zsets s k))))"
  using assms unfolding store_laws_def by auto

section \<open>Retried commands\<close>

lemma mutatesD:
  "mutates vw c f \<Longrightarrow> c w = (Inr v, w') \<Longrightarrow> vw w' = f (vw w)"
  "mutates vw c f \<Longrightarrow> c w = (Inl e, w') \<Longrightarrow> vw w' = vw w \<or> vw w' = f (vw w)"
  unfolding mutates_def by fastforce+

lemma readsD: "reads vw c P \<Longrightarrow> c w = (r, w') \<Longrightarrow> vw w' = vw w \<and> P (vw w) r"
  unfolding reads_def by blast

lemma reads_mono: "reads vw c P \<Longrightarrow> (\<And>s r. P s r \<Longrightarrow> Q s r) \<Longrightarrow> reads vw c Q"
  unfolding reads_def by blast

text \<open>An idempotent effect survives retries: applied once or several times is the same.\<close>

lemma mutates_retry:
  assumes m: "mutates vw c f" and idem: "\<And>s. f (f s) = f s" and "0 < n"
  shows "mutates vw (retry_loop n stop acc c) f"
proof -
  have "case r of Inr _ \<Rightarrow> vw w' = f (vw w) | Inl _ \<Rightarrow> vw w' = vw w \<or> vw w' = f (vw w)"
    if "retry_loop n stop acc c w = (r, w')" "0 < n" for n acc w r w'
    using that
  proof (induction n arbitrary: acc w)
    case 0
    then show ?case by simp
  next
    case (Suc n)
    obtain r1 w1 where c: "c w = (r1, w1)" by (cases "c w")
    show ?case
    proof (cases r1)
      case (Inr v)
      with c Suc.prems mutatesD(1) [OF m, of w v w1] show ?thesis by (auto split: sum.split)
    next
      case (Inl e)
      with c have v1: "vw w1 = vw w \<or> vw w1 = f (vw w)" using mutatesD(2) [OF m] by blast
      show ?thesis
      proof (cases "stop e \<or> n = 0")
        case True
        with c Inl Suc.prems v1 show ?thesis by (auto split: if_splits)
      next
        case False
        with c Inl Suc.prems have "retry_loop n stop (Inl e) c w1 = (r, w')" by simp
        from Suc.IH [OF this] False v1 show ?thesis by (auto simp: idem split: sum.splits)
      qed
    qed
  qed
  with \<open>0 < n\<close> show ?thesis unfolding mutates_def by blast
qed

lemma reads_retry:
  assumes m: "reads vw c P" and "0 < n"
  shows "reads vw (retry_loop n stop acc c) P"
proof -
  have "vw w' = vw w \<and> P (vw w) r"
    if "retry_loop n stop acc c w = (r, w')" "0 < n" for n acc w r w'
    using that
  proof (induction n arbitrary: acc w)
    case 0
    then show ?case by simp
  next
    case (Suc n)
    obtain r1 w1 where c: "c w = (r1, w1)" by (cases "c w")
    note rd = readsD [OF m c]
    show ?case
    proof (cases "\<exists>e. r1 = Inl e \<and> \<not> stop e \<and> 0 < n")
      case True
      then obtain e where e: "r1 = Inl e" "\<not> stop e" "0 < n" by blast
      with c Suc.prems have "retry_loop n stop (Inl e) c w1 = (r, w')" by simp
      from Suc.IH [OF this \<open>0 < n\<close>] rd show ?thesis by simp
    next
      case False
      with c Suc.prems have "r = r1 \<and> w' = w1"
        by (cases r1; cases n) (auto split: if_splits)
      with rd show ?thesis by simp
    qed
  qed
  with \<open>0 < n\<close> show ?thesis unfolding reads_def by blast
qed

lemma store_setex_simps [simp]:
  "kv (store_setex k v s) = (kv s)(k \<mapsto> v)" "sets (store_setex k v s) = (sets s)(k := {})"
  "zsets (store_setex k v s) = (zsets s)(k := [])" "store_setex k v (store_setex k v s) = store_setex k v s"
  by (simp_all add: store_setex_def)

lemma store_del_simps [simp]:
  "kv (store_del k s) = (kv s)(k := None)" "sets (store_del k s) = (sets s)(k := {})"
  "zsets (store_del k s) = (zsets s)(k := [])" "store_del k (store_del k s) = store_del k s"
  by (simp_all add: store_del_def)

lemma zadd_idem [simp]: "zadd sc m (zadd sc m l) = zadd sc m l"
proof -
  have "filter (\<lambda>x. snd x \<noteq> m) (insort (sc, m) xs) = xs" if "\<forall>x \<in> set xs. snd x \<noteq> m" for xs
    using that by (induction xs) auto
  then show ?thesis by (simp add: zadd_def)
qed

lemma zrem_idem [simp]: "zrem ms (zrem ms l) = zrem ms l"
  by (simp add: zrem_def)

text \<open>What the wrappers do to the view, whatever the number of attempts.\<close>

lemma retried [intro]:
  assumes "store_laws rd vw" "0 < n"
  shows "mutates vw (SetEXWithRetry rd n k v t) (store_setex k v)"
    and "mutates vw (DelWithRetry rd n k) (store_del k)"
    and "mutates vw (SAddWithRetry rd n k ms) (\<lambda>s. s\<lparr>sets := (sets s)(k := sets s k \<union> set ms)\<rparr>)"
    and "mutates vw (SRemWithRetry rd n k ms) (\<lambda>s. s\<lparr>sets := (sets s)(k := sets s k - set ms)\<rparr>)"
    and "mutates vw (ZAddWithRetry rd n k sc m) (\<lambda>s. s\<lparr>zsets := (zsets s)(k := zadd sc m (zsets s k))\<rparr>)"
    and "mutates vw (ZRemWithRetry rd n k ms) (\<lambda>s. s\<lparr>zsets := (zsets s)(k := zrem ms (zsets s k))\<rparr>)"
    and "reads vw (GetWithRetry rd n k) (get_reply k)"
    and "reads vw (ExistsWithRetry rd n k)
      (\<lambda>s. on_ok (\<lambda>n. (n = 0 \<longrightarrow> kv s k = None) \<and> (kv s k \<noteq> None \<longrightarrow> n = 1)))"
    and "reads vw (SMembersWithRetry rd n k) (\<lambda>s. on_ok (\<lambda>ms. set ms = sets s k))"
    and "reads vw (SCardWithRetry rd n k) (\<lambda>s. on_ok (\<lambda>n. n = card (sets s k)))"
    and "reads vw (SRandMemberWithRetry rd n k) (\<lambda>s. on_ok (\<lambda>m. m \<in> sets s k))"
  unfolding SetEXWithRetry_def DelWithRetry_def SAddWithRetry_def SRemWithRetry_def ZAddWithRetry_def
    ZRemWithRetry_def GetWithRetry_def ExistsWithRetry_def SMembersWithRetry_def SCardWithRetry_def
    SRandMemberWithRetry_def
  using store_lawsD [OF assms(1)] assms(2)
  by (auto intro!: mutates_retry reads_retry)

lemma SetEX_done:
  "store_laws rd vw \<Longrightarrow> SetEXWithRetry rd 2 k v t w = (Inr x, w') \<Longrightarrow> vw w' = store_setex k v (vw w)"
  by (rule mutatesD(1) [OF retried(1)]) simp_all

lemma Get_reads:
  "store_laws rd vw \<Longrightarrow> GetWithRetry rd 2 k w = (r, w') \<Longrightarrow> vw w' = vw w \<and> get_reply k (vw w) r"
  by (rule readsD [OF retried(7)]) simp_all

lemma Exists_view:
  "store_laws rd vw \<Longrightarrow> ExistsWithRetry rd 2 k w = (r, w') \<Longrightarrow> vw w' = vw w"
  by (rule readsD [OF retried(8), THEN conjunct1]) simp_all

text \<open>The two readers that swallow errors: the server's answer, or the empty list.\<close>

lemma swallow_reads:
  "reads vw c P \<Longrightarrow> reads vw (swallow z c) (\<lambda>s r. \<exists>v. r = Inr v \<and> (v = z \<or> P s (Inr v)))"
  by (auto simp: reads_def swallow_def split: prod.splits sum.splits)

lemma ZRange_reads:
  assumes "store_laws rd vw" "0 < n"
  shows "reads vw (ZRangeWithScoresWithRetry rd n k lo hi)
    (\<lambda>s r. \<exists>v. r = Inr v \<and> (v = [] \<or> v = zslice lo hi (map snd (zsets s k))))"
  using swallow_reads [OF reads_retry [OF store_lawsD(14) [OF assms(1)] assms(2)]]
  by (auto simp: ZRangeWithScoresWithRetry_def [abs_def] on_ok_def elim!: reads_mono)

section \<open>An in-memory server\<close>

text \<open>
  Each command takes the next entry of the fault schedule: it works, fails before it is applied,
  or fails after. With the schedule exhausted every command works.
\<close>

datatype fault = Works | LostRequest | LostReply

record mem =
  m_lists :: "string \<Rightarrow> wire list"
  m_kv :: "string \<rightharpoonup> wire"
  m_sets :: "string \<Rightarrow> string list"
  m_zsets :: "string \<Rightarrow> (score \<times> string) list"
  m_stream :: "(string \<times> wire) list"
  m_acks :: "(string \<times> string \<times> string list) list"
  m_faults :: "fault list"

definition mem_empty :: mem where
  "mem_empty = \<lparr>m_lists = (\<lambda>_. []), m_kv = (\<lambda>_. None), m_sets = (\<lambda>_. []), m_zsets = (\<lambda>_. []),
     m_stream = [], m_acks = [], m_faults = []\<rparr>"

definition net_err :: goerr where
  "net_err = ErrText ''i/o timeout''"

definition mem_write :: "(mem \<Rightarrow> mem) \<Rightarrow> (mem, goerr + unit) io" where
  "mem_write f w =
     (case m_faults w of
        [] \<Rightarrow> (Inr (), f w)
      | Works # fs \<Rightarrow> (Inr (), f (w\<lparr>m_faults := fs\<rparr>))
      | LostRequest # fs \<Rightarrow> (Inl net_err, w\<lparr>m_faults := fs\<rparr>)
      | LostReply # fs \<Rightarrow> (Inl net_err, f (w\<lparr>m_faults := fs\<rparr>)))"

definition mem_read :: "(mem \<Rightarrow> goerr + 'a) \<Rightarrow> (mem, goerr + 'a) io" where
  "mem_read f w =
     (case m_faults w of
        [] \<Rightarrow> (f w, w)
      | Works # fs \<Rightarrow> (f w, w\<lparr>m_faults := fs\<rparr>)
      | _ # fs \<Rightarrow> (Inl net_err, w\<lparr>m_faults := fs\<rparr>))"

definition mem_pop :: "string \<Rightarrow> (mem, goerr + wire) io" where
  "mem_pop k w =
     (let pop = (\<lambda>w. w\<lparr>m_lists := (m_lists w)(k := tl (m_lists w k))\<rparr>);
          reply = (case m_lists w k of [] \<Rightarrow> Inl RedisNil | v # vs \<Rightarrow> Inr v)
      in case m_faults w of
        [] \<Rightarrow> (reply, pop w)
      | Works # fs \<Rightarrow> (reply, pop (w\<lparr>m_faults := fs\<rparr>))
      | LostRequest # fs \<Rightarrow> (Inl net_err, w\<lparr>m_faults := fs\<rparr>)
      | LostReply # fs \<Rightarrow> (Inl net_err, pop (w\<lparr>m_faults := fs\<rparr>)))"

definition mem_redis :: "mem redis" where
  "mem_redis = \<lparr>
     cRPush = (\<lambda>k v. mem_write (\<lambda>w. w\<lparr>m_lists := (m_lists w)(k := m_lists w k @ [v])\<rparr>)),
     cLPop = mem_pop,
     cLLen = (\<lambda>k. mem_read (\<lambda>w. Inr (length (m_lists w k)))),
     cSetEx = (\<lambda>k v t. mem_write (\<lambda>w. w\<lparr>m_kv := (m_kv w)(k \<mapsto> v), m_sets := (m_sets w)(k := []),
        m_zsets := (m_zsets w)(k := [])\<rparr>)),
     cGet = (\<lambda>k. mem_read (\<lambda>w. case m_kv w k of None \<Rightarrow> Inl RedisNil | Some v \<Rightarrow> Inr v)),
     cMGet = (\<lambda>ks. mem_read (\<lambda>w. Inr (map (m_kv w) ks))),
     cDel = (\<lambda>k. mem_write (\<lambda>w. w\<lparr>m_kv := (m_kv w)(k := None), m_sets := (m_sets w)(k := []),
        m_zsets := (m_zsets w)(k := [])\<rparr>)),
     cExists = (\<lambda>k. mem_read (\<lambda>w. Inr (if m_kv w k = None then 0 else 1))),
     cExpire = (\<lambda>k t. mem_write id),
     cPersist = (\<lambda>k. mem_write id),
     cSAdd = (\<lambda>k ms. mem_write (\<lambda>w. w\<lparr>m_sets := (m_sets w)(k := remdups (m_sets w k @ ms))\<rparr>)),
     cSRem = (\<lambda>k ms. mem_write (\<lambda>w. w\<lparr>m_sets := (m_sets w)(k := filter (\<lambda>x. x \<notin> set ms) (m_sets w k))\<rparr>)),
     cSMembers = (\<lambda>k. mem_read (\<lambda>w. Inr (m_sets w k))),
     cSIsMember = (\<lambda>k m. mem_read (\<lambda>w. Inr (m \<in> set (m_sets w k)))),
     cSCard = (\<lambda>k. mem_read (\<lambda>w. Inr (length (remdups (m_sets w k))))),
     cSRandMember = (\<lambda>k. mem_read (\<lambda>w. case m_sets w k of [] \<Rightarrow> Inl RedisNil | m # ms \<Rightarrow> Inr m)),
     cZAdd = (\<lambda>k sc m. mem_write (\<lambda>w. w\<lparr>m_zsets := (m_zsets w)(k := zadd sc m (m_zsets w k))\<rparr>)),
     cZRem = (\<lambda>k ms. mem_write (\<lambda>w. w\<lparr>m_zsets := (m_zsets w)(k := zrem ms (m_zsets w k))\<rparr>)),
     cZRange = (\<lambda>k lo hi. mem_read (\<lambda>w. Inr (zslice lo hi (map snd (m_zsets w k))))),
     cZRangeByScore = (\<lambda>k sc. mem_read (\<lambda>w. Inr (map snd (filter (\<lambda>x. fst x \<le> sc) (m_zsets w k))))),
     cZScore = (\<lambda>k m. mem_read (\<lambda>w. case find (\<lambda>x. snd x = m) (m_zsets w k) of
        None \<Rightarrow> Inl RedisNil | Some x \<Rightarrow> Inr (fst x))),
     cXAdd = (\<lambda>k v. mem_write (\<lambda>w. w\<lparr>m_stream := m_stream w @ [(k, v)]\<rparr>)),
     cXAck = (\<lambda>k g ids. mem_write (\<lambda>w. w\<lparr>m_acks := m_acks w @ [(k, g, ids)]\<rparr>)),
     cXGroupCreate = (\<lambda>k g from. mem_write id),
     cXReadGroup = (\<lambda>k g c n i. mem_read (\<lambda>w. Inr [])),
     cXAutoClaim = (\<lambda>k g c t i n. mem_read (\<lambda>w. Inr ([], ''0-0''))),
     cPing = mem_read (\<lambda>w. Inr ''PONG'')\<rparr>"

lemma mem_ops:
  "cRPush mem_redis k v = mem_write (\<lambda>w. w\<lparr>m_lists := (m_lists w)(k := m_lists w k @ [v])\<rparr>)"
  "cLPop mem_redis k = mem_pop k" "cLLen mem_redis k = mem_read (\<lambda>w. Inr (length (m_lists w k)))"
  by (simp_all add: mem_redis_def)

definition mem_store :: "mem \<Rightarrow> store" where
  "mem_store w = \<lparr>kv = m_kv w, sets = (\<lambda>k. set (m_sets w k)), zsets = m_zsets w\<rparr>"

lemma mem_write_mutates:
  assumes "\<And>w. vw (f w) = g (vw w)" "\<And>w fs. vw (w\<lparr>m_faults := fs\<rparr>) = vw w"
  shows "mutates vw (mem_write f) g"
  using assms by (auto simp: mutates_def mem_write_def split: list.splits fault.splits)

lemma mem_read_reads:
  assumes "\<And>w. P (vw w) (f w)" "\<And>s. P s (Inl net_err)" "\<And>w fs. vw (w\<lparr>m_faults := fs\<rparr>) = vw w"
  shows "reads vw (mem_read f) P"
  using assms by (auto simp: reads_def mem_read_def split: list.splits fault.splits)

lemma mem_store_faults [simp]: "mem_store (w\<lparr>m_faults := fs\<rparr>) = mem_store w"
  by (simp add: mem_store_def)

lemma find_SomeD: "find P xs = Some x \<Longrightarrow> x \<in> set xs \<and> P x"
  by (induction xs) (auto split: if_splits)

theorem mem_store_laws: "store_laws mem_redis mem_store"
  unfolding store_laws_def mem_redis_def redis.simps
  by (intro conjI allI mem_write_mutates mem_read_reads)
     (auto simp: mem_store_def store_setex_def store_del_def get_reply_def on_ok_def net_err_def fun_eq_iff
        distinct_card [symmetric] split: option.split list.split dest!: find_SomeD)

theorem mem_list_laws: "list_laws mem_redis m_lists"
  unfolding list_laws_def mem_redis_def redis.simps
  by (auto simp: mem_write_def mem_read_def mem_pop_def net_err_def Let_def fun_upd_idem
      split: list.splits fault.splits prod.splits)

text \<open>A reply lost on the way: the retried push is applied twice.\<close>

theorem rpush_at_least_once_witness:
  "\<exists>m. m_lists (snd (RPushWithRetry mem_redis 2 ''q'' (Raw ''x'') (mem_empty\<lparr>m_faults := [LostReply]\<rparr>))) ''q''
     = replicate m (Raw ''x'') \<and> m \<le> 2 \<and> 1 \<le> m"
proof -
  let ?w = "mem_empty\<lparr>m_faults := [LostReply]\<rparr>"
  obtain w' where c: "RPushWithRetry mem_redis 2 ''q'' (Raw ''x'') ?w = (Inr (), w')"
    by (simp add: RPushWithRetry_def numeral_2_eq_2 mem_redis_def mem_write_def mem_empty_def)
  show ?thesis
    using rpush_at_least_once [OF mem_list_laws _ c] c by (auto simp: mem_empty_def)
qed

text \<open>A reply lost on the way: the retried pop returns the second element, the first is gone.\<close>

theorem lpop_skips_lost_witness:
  "\<exists>w' lost. LPopWithRetry mem_redis 2 ''q'' (mem_empty\<lparr>m_lists := (\<lambda>k. [Raw ''x'', Raw ''y'']), m_faults := [LostReply]\<rparr>)
       = (Inr (Raw ''y''), w')
     \<and> length lost < 2 \<and> [Raw ''x'', Raw ''y''] = lost @ Raw ''y'' # m_lists w' ''q''"
proof -
  let ?w = "mem_empty\<lparr>m_lists := (\<lambda>k. [Raw ''x'', Raw ''y'']), m_faults := [LostReply]\<rparr>"
  obtain w' where c: "LPopWithRetry mem_redis 2 ''q'' ?w = (Inr (Raw ''y''), w')"
    by (simp add: LPopWithRetry_def numeral_2_eq_2 mem_redis_def mem_pop_def mem_empty_def net_err_def)
  show ?thesis
    using lpop_skips_lost [OF mem_list_laws _ c] c by auto
qed

end
