(* ===== verification/RegGateway.thy ===== *)
theory RegGateway
  imports Http Store
begin

text \<open>
  \<open>internal/registry/gateway\<close>: the gateways registered in Redis, their heartbeats, the choice of
  the least loaded one, and the HTTP handlers. \<open>float32\<close> values are the decimal text that
  \<open>encoding/json\<close> prints for them; what Go computes from them (the ranking score) and what counts
  as a time stamp are fields of the environment, as is the configuration of the time-outs. The
  clock's answer is the argument \<open>now\<close>.
\<close>

section \<open>Data\<close>

record regenv =
  ranking_score :: "string \<Rightarrow> score"
  float_text :: "json \<Rightarrow> string option"
  time_ok :: "string \<Rightarrow> bool"
  gatewayTimeout :: "int option"
  sendTimeout :: "int option"
  routeTTL :: "int option"

record gateway_info =
  giID :: string
  giAddress :: string
  giPort :: int64
  giLoad :: string
  giCapacity :: int64
  giConnected :: int64
  giHeartbeat :: string

definition gateway_json :: "gateway_info \<Rightarrow> json" where
  "gateway_json g = JObj [(''gateway_id'', JStr (giID g)), (''address'', JStr (giAddress g)),
     (''port'', json_of_int64 (giPort g)), (''load'', JFloat (giLoad g)),
     (''capacity'', json_of_int64 (giCapacity g)), (''connected_users'', json_of_int64 (giConnected g)),
     (''last_heartbeat'', JStr (giHeartbeat g))]"

definition dec_float :: "regenv \<Rightarrow> json \<Rightarrow> string \<Rightarrow> goerr option \<times> string" where
  "dec_float env j old = (case j of
      JNull \<Rightarrow> (None, old)
    | _ \<Rightarrow> (case float_text env j of Some t \<Rightarrow> (None, t) | None \<Rightarrow> (Some type_error, old)))"

definition dec_time :: "regenv \<Rightarrow> json \<Rightarrow> string \<Rightarrow> goerr option \<times> string" where
  "dec_time env j old = (case j of
      JNull \<Rightarrow> (None, old)
    | JStr s \<Rightarrow> if time_ok env s then (None, s) else (Some type_error, old)
    | _ \<Rightarrow> (Some type_error, old))"

definition zero_time :: string where
  "zero_time = ''0001-01-01T00:00:00Z''"

definition zero_gateway :: gateway_info where
  "zero_gateway = \<lparr>giID = [], giAddress = [], giPort = 0, giLoad = ''0'', giCapacity = 0,
     giConnected = 0, giHeartbeat = zero_time\<rparr>"

abbreviation gateway_keys :: "string list" where
  "gateway_keys \<equiv> [''gateway_id'', ''address'', ''port'', ''load'', ''capacity'', ''connected_users'', ''last_heartbeat'']"

definition gateway_setf :: "regenv \<Rightarrow> string \<Rightarrow> json \<Rightarrow> gateway_info \<Rightarrow> goerr option \<times> gateway_info" where
  "gateway_setf env k v g =
     (case match_field gateway_keys k of
        None \<Rightarrow> (None, g)
      | Some f \<Rightarrow>
          if f = ''gateway_id'' then upd (\<lambda>g x. g\<lparr>giID := x\<rparr>) g (dec_string v (giID g))
          else if f = ''address'' then upd (\<lambda>g x. g\<lparr>giAddress := x\<rparr>) g (dec_string v (giAddress g))
          else if f = ''port'' then upd (\<lambda>g x. g\<lparr>giPort := x\<rparr>) g (dec_int64 v (giPort g))
          else if f = ''load'' then upd (\<lambda>g x. g\<lparr>giLoad := x\<rparr>) g (dec_float env v (giLoad g))
          else if f = ''capacity'' then upd (\<lambda>g x. g\<lparr>giCapacity := x\<rparr>) g (dec_int64 v (giCapacity g))
          else if f = ''connected_users'' then upd (\<lambda>g x. g\<lparr>giConnected := x\<rparr>) g (dec_int64 v (giConnected g))
          else upd (\<lambda>g x. g\<lparr>giHeartbeat := x\<rparr>) g (dec_time env v (giHeartbeat g)))"

definition gateway_unmarshal :: "regenv \<Rightarrow> wire \<Rightarrow> goerr option \<times> gateway_info" where
  "gateway_unmarshal env w = unmarshal_struct (gateway_setf env) w zero_gateway"

record register_request =
  rrID :: string
  rrAddress :: string
  rrPort :: int64
  rrCapacity :: int64

record heartbeat_request =
  hrID :: string
  hrLoad :: string
  hrConnected :: int64

definition register_setf :: "string \<Rightarrow> json \<Rightarrow> register_request \<Rightarrow> goerr option \<times> register_request" where
  "register_setf k v r =
     (case match_field [''gateway_id'', ''address'', ''port'', ''capacity''] k of
        None \<Rightarrow> (None, r)
      | Some f \<Rightarrow>
          if f = ''gateway_id'' then upd (\<lambda>r x. r\<lparr>rrID := x\<rparr>) r (dec_string v (rrID r))
          else if f = ''address'' then upd (\<lambda>r x. r\<lparr>rrAddress := x\<rparr>) r (dec_string v (rrAddress r))
          else if f = ''port'' then upd (\<lambda>r x. r\<lparr>rrPort := x\<rparr>) r (dec_int64 v (rrPort r))
          else upd (\<lambda>r x. r\<lparr>rrCapacity := x\<rparr>) r (dec_int64 v (rrCapacity r)))"

definition heartbeat_setf :: "regenv \<Rightarrow> string \<Rightarrow> json \<Rightarrow> heartbeat_request \<Rightarrow> goerr option \<times> heartbeat_request" where
  "heartbeat_setf env k v r =
     (case match_field [''gateway_id'', ''load'', ''connected_users''] k of
        None \<Rightarrow> (None, r)
      | Some f \<Rightarrow>
          if f = ''gateway_id'' then upd (\<lambda>r x. r\<lparr>hrID := x\<rparr>) r (dec_string v (hrID r))
          else if f = ''load'' then upd (\<lambda>r x. r\<lparr>hrLoad := x\<rparr>) r (dec_float env v (hrLoad r))
          else upd (\<lambda>r x. r\<lparr>hrConnected := x\<rparr>) r (dec_int64 v (hrConnected r)))"

definition bind_register :: "wire \<Rightarrow> goerr + register_request" where
  "bind_register = bind_json register_setf
     (\<lambda>r. rrID r \<noteq> [] \<and> rrAddress r \<noteq> [] \<and> rrPort r \<noteq> 0 \<and> rrCapacity r \<noteq> 0)
     \<lparr>rrID = [], rrAddress = [], rrPort = 0, rrCapacity = 0\<rparr>"

definition bind_heartbeat :: "regenv \<Rightarrow> wire \<Rightarrow> goerr + heartbeat_request" where
  "bind_heartbeat env = bind_json (heartbeat_setf env) (\<lambda>r. hrID r \<noteq> [])
     \<lparr>hrID = [], hrLoad = ''0'', hrConnected = 0\<rparr>"

section \<open>Service\<close>

definition gatewayInfoPrefix :: string where
  "gatewayInfoPrefix = ''registry:gateway:''"

definition gatewayRankingKey :: string where
  "gatewayRankingKey = ''registry:gateway:ranking''"

definition gatewayInstanceKey :: string where
  "gatewayInstanceKey = ''registry:gateway:instances''"

definition gateway_ttl :: "regenv \<Rightarrow> int" where
  "gateway_ttl env = (case gatewayTimeout env of None \<Rightarrow> 30 | Some t \<Rightarrow> t)"

definition RegisterGateway :: "regenv \<Rightarrow> 'w redis \<Rightarrow> string \<Rightarrow> register_request \<Rightarrow> ('w, goerr option) io" where
  "RegisterGateway env rd now req =
     (let info = \<lparr>giID = rrID req, giAddress = rrAddress req, giPort = rrPort req, giLoad = ''0'',
            giCapacity = rrCapacity req, giConnected = 0, giHeartbeat = now\<rparr> in
      on_call (SetEXWithRetry rd 2 (gatewayInfoPrefix @ rrID req) (Doc (gateway_json info)) (gateway_ttl env))
        (\<lambda>e. return (Some e))
        (\<lambda>_. on_call (ZAddWithRetry rd 2 gatewayRankingKey 0 (rrID req)) (\<lambda>e. return (Some e))
        (\<lambda>_. on_call (SAddWithRetry rd 2 gatewayInstanceKey [rrID req]) (\<lambda>e. return (Some e))
        (\<lambda>_. return None))))"

definition UpdateHeartbeat :: "regenv \<Rightarrow> 'w redis \<Rightarrow> string \<Rightarrow> heartbeat_request \<Rightarrow> ('w, goerr option) io" where
  "UpdateHeartbeat env rd now req =
     (let key = gatewayInfoPrefix @ hrID req in
      on_call (GetWithRetry rd 2 key) (\<lambda>e. return (Some ErrGatewayNotFound))
        (\<lambda>data. case gateway_unmarshal env data of
            (Some e, _) \<Rightarrow> return (Some ErrInvalidGatewayData)
          | (None, info) \<Rightarrow>
              let info' = info\<lparr>giLoad := hrLoad req, giConnected := hrConnected req, giHeartbeat := now\<rparr> in
              on_call (SetEXWithRetry rd 2 key (Doc (gateway_json info')) (gateway_ttl env))
                (\<lambda>e. return (Some e))
                (\<lambda>_. on_call (ZAddWithRetry rd 2 gatewayRankingKey (ranking_score env (hrLoad req)) (hrID req))
                   (\<lambda>e. return (Some e)) (\<lambda>_. return None))))"

definition UnregisterGateway :: "'w redis \<Rightarrow> string \<Rightarrow> ('w, goerr option) io" where
  "UnregisterGateway rd gatewayID =
     on_call (DelWithRetry rd 2 (gatewayInfoPrefix @ gatewayID)) (\<lambda>e. return (Some e))
       (\<lambda>_. on_call (ZRemWithRetry rd 2 gatewayRankingKey [gatewayID]) (\<lambda>e. return (Some e))
       (\<lambda>_. on_call (SRemWithRetry rd 2 gatewayInstanceKey [gatewayID]) (\<lambda>e. return (Some e))
       (\<lambda>_. return None)))"

definition GetGatewayInfo :: "regenv \<Rightarrow> 'w redis \<Rightarrow> string \<Rightarrow> ('w, goerr + gateway_info) io" where
  "GetGatewayInfo env rd gatewayID =
     on_call (GetWithRetry rd 2 (gatewayInfoPrefix @ gatewayID)) (\<lambda>e. return (Inl ErrGatewayNotFound))
       (\<lambda>data. case gateway_unmarshal env data of
           (Some e, _) \<Rightarrow> return (Inl ErrInvalidGatewayData)
         | (None, info) \<Rightarrow> return (Inr info))"

text \<open>The members are tried in order; one that cannot be read is skipped.\<close>

fun first_available :: "regenv \<Rightarrow> 'w redis \<Rightarrow> string list \<Rightarrow> ('w, goerr + gateway_info) io" where
  "first_available env rd [] w = (Inl ErrNoAvailableGateway, w)"
| "first_available env rd (m # ms) w =
     (case GetGatewayInfo env rd m w of
        (Inl e, w') \<Rightarrow> first_available env rd ms w'
      | (Inr info, w') \<Rightarrow>
          if giConnected info <s giCapacity info then (Inr info, w') else first_available env rd ms w')"

definition getNextAvailableGateway :: "regenv \<Rightarrow> 'w redis \<Rightarrow> int \<Rightarrow> ('w, goerr + gateway_info) io" where
  "getNextAvailableGateway env rd startIndex =
     on_call (ZRangeWithScoresWithRetry rd 2 gatewayRankingKey startIndex (startIndex + 5))
       (\<lambda>e. return (Inl ErrNoAvailableGateway))
       (\<lambda>members. if members = [] then return (Inl ErrNoAvailableGateway) else first_available env rd members)"

definition GetLowestLoadGateway :: "regenv \<Rightarrow> 'w redis \<Rightarrow> ('w, goerr + gateway_info) io" where
  "GetLowestLoadGateway env rd =
     on_call (ZRangeWithScoresWithRetry rd 2 gatewayRankingKey 0 0)
       (\<lambda>e. return (Inl ErrNoAvailableGateway))
       (\<lambda>members. case members of
           [] \<Rightarrow> return (Inl ErrNoAvailableGateway)
         | gatewayID # rest \<Rightarrow>
             on_call (GetGatewayInfo env rd gatewayID) (\<lambda>e. return (Inl e))
               (\<lambda>info. if giCapacity info \<le>s giConnected info then
                    if 1 < length members then getNextAvailableGateway env rd 1
                    else return (Inl ErrNoAvailableGateway)
                  else return (Inr info)))"

fun read_gateways :: "regenv \<Rightarrow> 'w redis \<Rightarrow> string list \<Rightarrow> ('w, gateway_info list) io" where
  "read_gateways env rd [] w = ([], w)"
| "read_gateways env rd (m # ms) w =
     (case GetGatewayInfo env rd m w of
        (Inl e, w') \<Rightarrow> read_gateways env rd ms w'
      | (Inr info, w') \<Rightarrow> (case read_gateways env rd ms w' of (is, w'') \<Rightarrow> (info # is, w'')))"

definition ListAllGateways :: "regenv \<Rightarrow> 'w redis \<Rightarrow> ('w, goerr + gateway_info list) io" where
  "ListAllGateways env rd =
     on_call (SMembersWithRetry rd 2 gatewayInstanceKey) (\<lambda>e. return (Inl e))
       (\<lambda>members w. case read_gateways env rd members w of (is, w') \<Rightarrow> (Inr is, w'))"

definition IsGatewayHealthy :: "'w redis \<Rightarrow> string \<Rightarrow> ('w, bool) io" where
  "IsGatewayHealthy rd gatewayID =
     on_call (ExistsWithRetry rd 2 (gatewayInfoPrefix @ gatewayID)) (\<lambda>e. return False) (\<lambda>n. return (0 < n))"

definition GetGatewayCount :: "'w redis \<Rightarrow> ('w, goerr + nat) io" where
  "GetGatewayCount rd =
     on_call (SCardWithRetry rd 2 gatewayInstanceKey) (\<lambda>e. return (Inl e)) (\<lambda>n. return (Inr n))"

definition GetGatewayAddress :: "gateway_info \<Rightarrow> string" where
  "GetGatewayAddress info = giAddress info @ '':'' @ FormatInt (giPort info)"

definition BuildGatewayHTTPURL :: "gateway_info \<Rightarrow> string" where
  "BuildGatewayHTTPURL info = ''http://'' @ giAddress info @ '':'' @ FormatInt (giPort info)"

definition BuildGatewayWebSocketURL :: "gateway_info \<Rightarrow> string" where
  "BuildGatewayWebSocketURL info = ''ws://'' @ giAddress info @ '':'' @ FormatInt (giPort info)"

section \<open>Handlers\<close>

definition RegisterHandler_gw :: "regenv \<Rightarrow> 'w redis \<Rightarrow> string \<Rightarrow> wire \<Rightarrow> ('w, reply) io" where
  "RegisterHandler_gw env rd now body w =
     (case bind_register body of
        Inl e \<Rightarrow> (invalid_request e, w)
      | Inr req \<Rightarrow>
          (case RegisterGateway env rd now req w of
             (Some e, w') \<Rightarrow> (ReplyError500 (''Failed to register gateway: '' @ err_text e), w')
           | (None, w') \<Rightarrow> (ReplySuccess ''Gateway registered successfully'', w')))"

definition HeartbeatHandler_gw :: "regenv \<Rightarrow> 'w redis \<Rightarrow> string \<Rightarrow> wire \<Rightarrow> ('w, reply) io" where
  "HeartbeatHandler_gw env rd now body w =
     (case bind_heartbeat env body of
        Inl e \<Rightarrow> (invalid_request e, w)
      | Inr req \<Rightarrow>
          (case UpdateHeartbeat env rd now req w of
             (Some e, w') \<Rightarrow>
               if e = ErrGatewayNotFound then (ReplyNotFound ''Gateway not registered'', w')
               else (ReplyError500 (''Failed to update heartbeat: '' @ err_text e), w')
           | (None, w') \<Rightarrow> (ReplySuccess ''Heartbeat updated successfully'', w')))"

definition UnregisterHandler_gw :: "'w redis \<Rightarrow> string \<Rightarrow> ('w, reply) io" where
  "UnregisterHandler_gw rd gatewayID w =
     (if gatewayID = [] then (ReplyBadRequest ''gateway_id is required'', w)
      else (case UnregisterGateway rd gatewayID w of
          (Some e, w') \<Rightarrow> (ReplyError500 (''Failed to unregister gateway: '' @ err_text e), w')
        | (None, w') \<Rightarrow> (ReplySuccess ''Gateway unregistered successfully'', w')))"

text \<open>A nil slice prints as \<open>null\<close>; \<open>gin.H\<close> prints with sorted keys.\<close>

definition slice_json :: "json list \<Rightarrow> json" where
  "slice_json js = (if js = [] then JNull else JArr js)"

definition ListGatewaysHandler :: "regenv \<Rightarrow> 'w redis \<Rightarrow> ('w, reply) io" where
  "ListGatewaysHandler env rd =
     on_call (ListAllGateways env rd)
       (\<lambda>e. return (ReplyError500 (''Failed to list gateways: '' @ err_text e)))
       (\<lambda>gs. return (ReplySuccessWithData ''success''
          (JObj [(''count'', JInt (int (length gs))), (''gateways'', slice_json (map gateway_json gs))])))"

text \<open>\<open>HealthCheckHandler\<close> replies with a document of its own; the count of user routes is always 0.\<close>

definition getSendInstanceCount :: "'w redis \<Rightarrow> ('w, goerr + nat) io" where
  "getSendInstanceCount rd =
     on_call (SCardWithRetry rd 2 ''registry:send:instances'') (\<lambda>e. return (Inl e)) (\<lambda>n. return (Inr n))"

definition HealthCheckHandler :: "'w redis \<Rightarrow> ('w, nat \<times> json) io" where
  "HealthCheckHandler rd w =
     (let (pong, w1) = cPing rd w;
          (gw, w2) = GetGatewayCount rd w1;
          (snd_n, w3) = getSendInstanceCount rd w2;
          connected = (case pong of Inr _ \<Rightarrow> True | Inl _ \<Rightarrow> False);
          count = (\<lambda>r. case r of Inr n \<Rightarrow> n | Inl _ \<Rightarrow> 0);
          doc = JObj [(''status'', JStr (if connected then ''healthy'' else ''unhealthy'')),
            (''redis'', JStr (if connected then ''connected'' else ''disconnected'')),
            (''gateway_count'', JInt (int (count gw))), (''send_count'', JInt (int (count snd_n))),
            (''user_route_count'', JInt 0)]
      in ((if connected then 200 else 503, doc), w3))"

section \<open>Lemmas\<close>

lemma match_gateway_keys [simp]:
  "match_field gateway_keys ''gateway_id'' = Some ''gateway_id''"
  "match_field gateway_keys ''address'' = Some ''address''"
  "match_field gateway_keys ''port'' = Some ''port''"
  "match_field gateway_keys ''load'' = Some ''load''"
  "match_field gateway_keys ''capacity'' = Some ''capacity''"
  "match_field gateway_keys ''connected_users'' = Some ''connected_users''"
  "match_field gateway_keys ''last_heartbeat'' = Some ''last_heartbeat''"
  by code_simp+

text \<open>Times and loads that the program prints are read back as they were.\<close>

definition readable :: "regenv \<Rightarrow> gateway_info \<Rightarrow> bool" where
  "readable env g \<longleftrightarrow> time_ok env (giHeartbeat g) \<and> float_text env (JFloat (giLoad g)) = Some (giLoad g)"

lemma gateway_roundtrip [simp]:
  "readable env g \<Longrightarrow> gateway_unmarshal env (Doc (gateway_json g)) = (None, g)"
  by (simp add: readable_def gateway_unmarshal_def unmarshal_struct_def gateway_json_def gateway_setf_def
      dec_float_def dec_time_def)

definition stored_gateway :: "regenv \<Rightarrow> store \<Rightarrow> string \<Rightarrow> gateway_info option" where
  "stored_gateway env s gid =
     (case kv s (gatewayInfoPrefix @ gid) of
        None \<Rightarrow> None
      | Some d \<Rightarrow> (case gateway_unmarshal env d of (None, g) \<Rightarrow> Some g | (Some _, _) \<Rightarrow> None))"

lemma GetGatewayInfo_reads:
  assumes "store_laws rd vw"
  shows "reads vw (GetGatewayInfo env rd gid) (\<lambda>s r. case r of
      Inr g \<Rightarrow> stored_gateway env s gid = Some g
    | Inl e \<Rightarrow> e = ErrGatewayNotFound \<or> e = ErrInvalidGatewayData \<and> stored_gateway env s gid = None)"
  unfolding reads_def
proof (intro allI impI)
  fix w r w'
  assume "GetGatewayInfo env rd gid w = (r, w')"
  then show "vw w' = vw w \<and> (case r of Inr g \<Rightarrow> stored_gateway env (vw w) gid = Some g
    | Inl e \<Rightarrow> e = ErrGatewayNotFound \<or> e = ErrInvalidGatewayData \<and> stored_gateway env (vw w) gid = None)"
    unfolding GetGatewayInfo_def
  proof (cases rule: on_callE)
    case (err e w1)
    with readsD [OF retried(7) [OF assms], of 2 "gatewayInfoPrefix @ gid" w "Inl e" w1] show ?thesis by auto
  next
    case (ok d w1)
    with readsD [OF retried(7) [OF assms], of 2 "gatewayInfoPrefix @ gid" w "Inr d" w1]
    show ?thesis by (auto simp: get_reply_def stored_gateway_def split: prod.splits option.splits)
  qed
qed

lemma key_neq [simp]:
  "gatewayInfoPrefix @ gid = gatewayRankingKey \<longleftrightarrow> gid = ''ranking''"
  "gatewayInfoPrefix @ gid = gatewayInstanceKey \<longleftrightarrow> gid = ''instances''"
  "gatewayRankingKey = gatewayInfoPrefix @ gid \<longleftrightarrow> gid = ''ranking''"
  "gatewayInstanceKey = gatewayInfoPrefix @ gid \<longleftrightarrow> gid = ''instances''"
  by (auto simp: gatewayInfoPrefix_def gatewayRankingKey_def gatewayInstanceKey_def)

lemma keys_differ [simp]: "gatewayRankingKey \<noteq> gatewayInstanceKey"
  by (simp add: gatewayRankingKey_def gatewayInstanceKey_def)

definition registered_info :: "string \<Rightarrow> register_request \<Rightarrow> gateway_info" where
  "registered_info now req = \<lparr>giID = rrID req, giAddress = rrAddress req, giPort = rrPort req,
     giLoad = ''0'', giCapacity = rrCapacity req, giConnected = 0, giHeartbeat = now\<rparr>"

lemma RegisterGateway_view:
  assumes laws: "store_laws rd vw" and run: "RegisterGateway env rd now req w = (None, w')"
  shows "vw w' = (let s = store_setex (gatewayInfoPrefix @ rrID req) (Doc (gateway_json (registered_info now req))) (vw w);
       s1 = s\<lparr>zsets := (zsets s)(gatewayRankingKey := zadd 0 (rrID req) (zsets s gatewayRankingKey))\<rparr>
     in s1\<lparr>sets := (sets s1)(gatewayInstanceKey := sets s1 gatewayInstanceKey \<union> set [rrID req])\<rparr>)"
  using run unfolding RegisterGateway_def Let_def registered_info_def [symmetric]
  by (auto elim!: on_callE dest!: mutatesD(1) [OF retried(1) [OF laws], rotated]
      mutatesD(1) [OF retried(5) [OF laws], rotated] mutatesD(1) [OF retried(3) [OF laws], rotated])

section \<open>Properties\<close>

text \<open>
  A registration that reports success has stored the gateway's information, ranked it with
  load 0 once, and put it into the instance set, leaving every other gateway as it was; and what
  a later lookup finds there, if Redis answers, is the gateway as registered. This needs an id
  other than the two names that make its key one of the shared keys.
\<close>

theorem register_gateway_stored:
  assumes laws: "store_laws rd vw" and gid: "rrID req \<noteq> ''ranking''" "rrID req \<noteq> ''instances''"
    and env: "readable env (registered_info now req)"
    and run: "RegisterGateway env rd now req w = (None, w')"
  shows "stored_gateway env (vw w') (rrID req) = Some (registered_info now req)
    \<and> (\<forall>g. g \<noteq> rrID req \<longrightarrow> stored_gateway env (vw w') g = stored_gateway env (vw w) g)
    \<and> zsets (vw w') gatewayRankingKey = zadd 0 (rrID req) (zsets (vw w) gatewayRankingKey)
    \<and> sets (vw w') gatewayInstanceKey = insert (rrID req) (sets (vw w) gatewayInstanceKey)
    \<and> (\<forall>r w''. GetGatewayInfo env rd (rrID req) w' = (r, w'') \<longrightarrow>
         r = Inr (registered_info now req) \<or> r = Inl ErrGatewayNotFound)"
proof -
  note v = RegisterGateway_view [OF laws run]
  have st: "stored_gateway env (vw w') (rrID req) = Some (registered_info now req)"
    using env by (simp add: v Let_def stored_gateway_def)
  moreover have "r = Inr (registered_info now req) \<or> r = Inl ErrGatewayNotFound"
    if "GetGatewayInfo env rd (rrID req) w' = (r, w'')" for r w''
    using readsD [OF GetGatewayInfo_reads [OF laws] that] st by (auto split: sum.splits)
  ultimately show ?thesis
    using gid by (auto simp: v Let_def stored_gateway_def eq_commute)
qed

text \<open>
  A gateway that registers under the id \<open>ranking\<close> overwrites the ranking of all gateways: after
  its success no other gateway is ranked, so \<open>GetLowestLoadGateway\<close> can choose no other.
\<close>

theorem register_ranking_destroys:
  assumes laws: "store_laws rd vw" and gid: "rrID req = ''ranking''"
    and run: "RegisterGateway env rd now req w = (None, w')"
  shows "map snd (zsets (vw w') gatewayRankingKey) = [''ranking'']"
  using RegisterGateway_view [OF laws run] gid by (simp add: Let_def zadd_def)

lemma lowest_load_reads:
  assumes laws: "store_laws rd vw" and sorted: "sorted (zsets (vw w) gatewayRankingKey)"
    and run: "GetLowestLoadGateway env rd w = (r, w')"
  shows "vw w' = vw w
    \<and> (\<forall>info. r = Inr info \<longrightarrow> (\<exists>sc gid rest. zsets (vw w) gatewayRankingKey = (sc, gid) # rest
         \<and> (\<forall>x \<in> set rest. sc \<le> fst x)
         \<and> stored_gateway env (vw w) gid = Some info \<and> giConnected info <s giCapacity info))"
  using run unfolding GetLowestLoadGateway_def
proof (cases rule: on_callE)
  case (err e w1)
  then show ?thesis using readsD [OF ZRange_reads [OF laws], of 2 gatewayRankingKey 0 0 w "Inl e" w1] by auto
next
  case (ok members w1)
  have z: "vw w1 = vw w \<and> (members = [] \<or> members = zslice 0 0 (map snd (zsets (vw w) gatewayRankingKey)))"
    using readsD [OF ZRange_reads [OF laws] ok(1)] by auto
  show ?thesis
  proof (cases members)
    case Nil
    with ok z show ?thesis by auto
  next
    case (Cons gid ms)
    with z obtain sc rest where rk: "zsets (vw w) gatewayRankingKey = (sc, gid) # rest" and ms: "ms = []"
      by (cases "zsets (vw w) gatewayRankingKey") (auto simp: zslice_def Let_def)
    have le: "\<forall>x \<in> set rest. sc \<le> fst x"
      using sorted rk by (auto simp: less_eq_prod_def)
    from ok(2) Cons ms have
      "on_call (GetGatewayInfo env rd gid) (\<lambda>e. return (Inl e))
         (\<lambda>info. if giCapacity info \<le>s giConnected info then return (Inl ErrNoAvailableGateway)
            else return (Inr info)) w1 = (r, w')" by (simp cong: if_cong)
    then show ?thesis
    proof (cases rule: on_callE)
      case (err e w2)
      with z readsD [OF GetGatewayInfo_reads [OF laws] err(1)] show ?thesis by auto
    next
      case (ok info w2)
      with z rk le readsD [OF GetGatewayInfo_reads [OF laws] ok(1)]
      show ?thesis by (auto split: if_splits simp: word_sless_alt word_sle_eq)
    qed
  qed
qed

text \<open>
  \<open>GetLowestLoadGateway\<close> only reads, and a gateway it returns is the first of the ranking, so of
  least score, its stored information decodes, and it has room for a user. No other gateway is ever
  tried: when the first one is full or its information has expired the result is an error, however
  many others are free.
\<close>

theorem lowest_load_is_first:
  assumes laws: "store_laws rd vw" and sorted: "sorted (zsets (vw w) gatewayRankingKey)"
    and run: "GetLowestLoadGateway env rd w = (r, w')"
  shows "vw w' = vw w
    \<and> (\<forall>info. r = Inr info \<longrightarrow> (\<exists>sc gid rest. zsets (vw w) gatewayRankingKey = (sc, gid) # rest
         \<and> (\<forall>x \<in> set rest. sc \<le> fst x)
         \<and> stored_gateway env (vw w) gid = Some info \<and> giConnected info <s giCapacity info))"
  by (rule lowest_load_reads [OF assms])

section \<open>Witnesses\<close>

definition demo_env :: regenv where
  "demo_env = \<lparr>ranking_score = (\<lambda>t. if t = ''0'' then 0 else 500),
     float_text = (\<lambda>j. case j of JFloat s \<Rightarrow> Some s | JInt n \<Rightarrow> Some (FormatInt (word_of_int n)) | _ \<Rightarrow> None),
     time_ok = (\<lambda>s. s \<noteq> []), gatewayTimeout = None, sendTimeout = None, routeTTL = None\<rparr>"

definition demo_req :: "string \<Rightarrow> register_request" where
  "demo_req gid = \<lparr>rrID = gid, rrAddress = ''10.0.0.1'', rrPort = 8080, rrCapacity = 1\<rparr>"

lemma demo_readable: "readable demo_env (registered_info ''t'' (demo_req gid))"
  by (simp add: readable_def demo_env_def registered_info_def)

lemma demo_register:
  "m_faults w = [] \<Longrightarrow> \<exists>w'. RegisterGateway demo_env mem_redis ''t'' (demo_req gid) w = (None, w') \<and> m_faults w' = []"
  by (simp add: RegisterGateway_def Let_def on_call_def SetEXWithRetry_def ZAddWithRetry_def
      SAddWithRetry_def numeral_2_eq_2 mem_redis_def mem_write_def)

theorem register_gateway_stored_witness:
  "\<exists>w'. RegisterGateway demo_env mem_redis ''t'' (demo_req ''g1'') mem_empty = (None, w')
     \<and> stored_gateway demo_env (mem_store w') ''g1'' = Some (registered_info ''t'' (demo_req ''g1''))"
proof -
  obtain w' where "RegisterGateway demo_env mem_redis ''t'' (demo_req ''g1'') mem_empty = (None, w')"
    using demo_register [of mem_empty "''g1''"] by (auto simp: mem_empty_def)
  from this register_gateway_stored [OF mem_store_laws _ _ demo_readable this] show ?thesis
    by (auto simp: demo_req_def)
qed

theorem register_ranking_destroys_witness:
  "\<exists>w'. RegisterGateway demo_env mem_redis ''t'' (demo_req ''ranking'')
       (mem_empty\<lparr>m_zsets := (\<lambda>_. [])(gatewayRankingKey := [(0, ''g1''), (0, ''g2'')])\<rparr>) = (None, w')
     \<and> map snd (zsets (mem_store w') gatewayRankingKey) = [''ranking'']"
proof -
  let ?w = "mem_empty\<lparr>m_zsets := (\<lambda>_. [])(gatewayRankingKey := [(0, ''g1''), (0, ''g2'')])\<rparr>"
  obtain w' where "RegisterGateway demo_env mem_redis ''t'' (demo_req ''ranking'') ?w = (None, w')"
    using demo_register [of ?w "''ranking''"] by (auto simp: mem_empty_def)
  from this register_ranking_destroys [OF mem_store_laws _ this] show ?thesis
    by (auto simp: demo_req_def)
qed

text \<open>The first gateway is full, the second is free: the answer is an error.\<close>

definition demo_full :: mem where
  "demo_full = mem_empty\<lparr>m_zsets := (\<lambda>_. [])(gatewayRankingKey := [(0, ''g1''), (0, ''g2'')]),
     m_kv := Map.empty
       (gatewayInfoPrefix @ ''g1'' \<mapsto> Doc (gateway_json (registered_info ''t'' (demo_req ''g1'')\<lparr>giConnected := 1\<rparr>)),
        gatewayInfoPrefix @ ''g2'' \<mapsto> Doc (gateway_json (registered_info ''t'' (demo_req ''g2''))))\<rparr>"

theorem lowest_load_is_first_witness:
  "(\<nexists>info. fst (GetLowestLoadGateway demo_env mem_redis demo_full) = Inr info)
   \<and> stored_gateway demo_env (mem_store demo_full) ''g2'' = Some (registered_info ''t'' (demo_req ''g2''))"
proof -
  obtain r w' where run: "GetLowestLoadGateway demo_env mem_redis demo_full = (r, w')" by force
  have rd: "readable demo_env (registered_info ''t'' (demo_req ''g1'')\<lparr>giConnected := 1\<rparr>)"
    by (simp add: readable_def demo_env_def registered_info_def)
  have "sorted (zsets (mem_store demo_full) gatewayRankingKey)"
    by (simp add: mem_store_def demo_full_def)
  from lowest_load_is_first [OF mem_store_laws this run] run rd demo_readable show ?thesis
    by (auto simp: mem_store_def demo_full_def stored_gateway_def registered_info_def demo_req_def)
qed

end
