(* ===== verification/RegSend.thy ===== *)
theory RegSend
  imports RegGateway
begin

text \<open>
  \<open>internal/registry/send\<close>: the send instances registered in Redis. A random instance is picked
  for a request; an instance whose information has expired is taken out of the set when it is met.
\<close>

section \<open>Data\<close>

record send_info =
  siID :: string
  siAddress :: string
  siPort :: int64
  siHeartbeat :: string

definition send_json :: "send_info \<Rightarrow> json" where
  "send_json g = JObj [(''instance_id'', JStr (siID g)), (''address'', JStr (siAddress g)),
     (''port'', json_of_int64 (siPort g)), (''last_heartbeat'', JStr (siHeartbeat g))]"

abbreviation send_keys :: "string list" where
  "send_keys \<equiv> [''instance_id'', ''address'', ''port'', ''last_heartbeat'']"

definition send_setf :: "regenv \<Rightarrow> string \<Rightarrow> json \<Rightarrow> send_info \<Rightarrow> goerr option \<times> send_info" where
  "send_setf env k v g =
     (case match_field send_keys k of
        None \<Rightarrow> (None, g)
      | Some f \<Rightarrow>
          if f = ''instance_id'' then upd (\<lambda>g x. g\<lparr>siID := x\<rparr>) g (dec_string v (siID g))
          else if f = ''address'' then upd (\<lambda>g x. g\<lparr>siAddress := x\<rparr>) g (dec_string v (siAddress g))
          else if f = ''port'' then upd (\<lambda>g x. g\<lparr>siPort := x\<rparr>) g (dec_int64 v (siPort g))
          else upd (\<lambda>g x. g\<lparr>siHeartbeat := x\<rparr>) g (dec_time env v (siHeartbeat g)))"

definition zero_send :: send_info where
  "zero_send = \<lparr>siID = [], siAddress = [], siPort = 0, siHeartbeat = zero_time\<rparr>"

definition send_unmarshal :: "regenv \<Rightarrow> wire \<Rightarrow> goerr option \<times> send_info" where
  "send_unmarshal env w = unmarshal_struct (send_setf env) w zero_send"

record send_request =
  srID :: string
  srAddress :: string
  srPort :: int64

definition send_request_setf :: "string \<Rightarrow> json \<Rightarrow> send_request \<Rightarrow> goerr option \<times> send_request" where
  "send_request_setf k v r =
     (case match_field [''instance_id'', ''address'', ''port''] k of
        None \<Rightarrow> (None, r)
      | Some f \<Rightarrow>
          if f = ''instance_id'' then upd (\<lambda>r x. r\<lparr>srID := x\<rparr>) r (dec_string v (srID r))
          else if f = ''address'' then upd (\<lambda>r x. r\<lparr>srAddress := x\<rparr>) r (dec_string v (srAddress r))
          else upd (\<lambda>r x. r\<lparr>srPort := x\<rparr>) r (dec_int64 v (srPort r)))"

definition bind_send_register :: "wire \<Rightarrow> goerr + send_request" where
  "bind_send_register = bind_json send_request_setf
     (\<lambda>r. srID r \<noteq> [] \<and> srAddress r \<noteq> [] \<and> srPort r \<noteq> 0) \<lparr>srID = [], srAddress = [], srPort = 0\<rparr>"

definition instance_setf :: "string \<Rightarrow> json \<Rightarrow> string \<Rightarrow> goerr option \<times> string" where
  "instance_setf k v r =
     (case match_field [''instance_id''] k of None \<Rightarrow> (None, r) | Some f \<Rightarrow> dec_string v r)"

definition bind_send_heartbeat :: "wire \<Rightarrow> goerr + string" where
  "bind_send_heartbeat = bind_json instance_setf (\<lambda>r. r \<noteq> []) []"

section \<open>Service\<close>

definition sendInstancePrefix :: string where
  "sendInstancePrefix = ''registry:send:''"

definition sendInstanceSetKey :: string where
  "sendInstanceSetKey = ''registry:send:instances''"

definition send_ttl :: "regenv \<Rightarrow> int" where
  "send_ttl env = (case sendTimeout env of None \<Rightarrow> 30 | Some t \<Rightarrow> t)"

definition RegisterSendInstance :: "regenv \<Rightarrow> 'w redis \<Rightarrow> string \<Rightarrow> send_request \<Rightarrow> ('w, goerr option) io" where
  "RegisterSendInstance env rd now req =
     (let info = \<lparr>siID = srID req, siAddress = srAddress req, siPort = srPort req, siHeartbeat = now\<rparr> in
      on_call (SetEXWithRetry rd 2 (sendInstancePrefix @ srID req) (Doc (send_json info)) (send_ttl env))
        (\<lambda>e. return (Some e))
        (\<lambda>_. on_call (SAddWithRetry rd 2 sendInstanceSetKey [srID req]) (\<lambda>e. return (Some e))
        (\<lambda>_. return None)))"

definition UpdateSendHeartbeat :: "regenv \<Rightarrow> 'w redis \<Rightarrow> string \<Rightarrow> string \<Rightarrow> ('w, goerr option) io" where
  "UpdateSendHeartbeat env rd now instanceID =
     (let key = sendInstancePrefix @ instanceID in
      on_call (GetWithRetry rd 2 key) (\<lambda>e. return (Some ErrSendInstanceNotFound))
        (\<lambda>data. case send_unmarshal env data of
            (Some e, _) \<Rightarrow> return (Some ErrInvalidSendData)
          | (None, info) \<Rightarrow>
              on_call (SetEXWithRetry rd 2 key (Doc (send_json (info\<lparr>siHeartbeat := now\<rparr>))) (send_ttl env))
                (\<lambda>e. return (Some e)) (\<lambda>_. return None)))"

definition UnregisterSendInstance :: "'w redis \<Rightarrow> string \<Rightarrow> ('w, goerr option) io" where
  "UnregisterSendInstance rd instanceID =
     on_call (DelWithRetry rd 2 (sendInstancePrefix @ instanceID)) (\<lambda>e. return (Some e))
       (\<lambda>_. on_call (SRemWithRetry rd 2 sendInstanceSetKey [instanceID]) (\<lambda>e. return (Some e))
       (\<lambda>_. return None))"

definition GetSendInstanceInfo :: "regenv \<Rightarrow> 'w redis \<Rightarrow> string \<Rightarrow> ('w, goerr + send_info) io" where
  "GetSendInstanceInfo env rd instanceID =
     on_call (GetWithRetry rd 2 (sendInstancePrefix @ instanceID)) (\<lambda>e. return (Inl ErrSendInstanceNotFound))
       (\<lambda>data. case send_unmarshal env data of
           (Some e, _) \<Rightarrow> return (Inl ErrInvalidSendData)
         | (None, info) \<Rightarrow> return (Inr info))"

text \<open>An instance that cannot be read is removed from the set; the outcome of that is ignored.\<close>

fun read_instances :: "regenv \<Rightarrow> 'w redis \<Rightarrow> string list \<Rightarrow> ('w, send_info list) io" where
  "read_instances env rd [] w = ([], w)"
| "read_instances env rd (m # ms) w =
     (case GetSendInstanceInfo env rd m w of
        (Inl e, w') \<Rightarrow> read_instances env rd ms (snd (SRemWithRetry rd 2 sendInstanceSetKey [m] w'))
      | (Inr info, w') \<Rightarrow> (case read_instances env rd ms w' of (is, w'') \<Rightarrow> (info # is, w'')))"

definition ListAllSendInstances :: "regenv \<Rightarrow> 'w redis \<Rightarrow> ('w, goerr + send_info list) io" where
  "ListAllSendInstances env rd =
     on_call (SMembersWithRetry rd 2 sendInstanceSetKey) (\<lambda>e. return (Inl e))
       (\<lambda>members w. case read_instances env rd members w of (is, w') \<Rightarrow> (Inr is, w'))"

definition GetRandomSendInstance :: "regenv \<Rightarrow> 'w redis \<Rightarrow> ('w, goerr + send_info) io" where
  "GetRandomSendInstance env rd =
     on_call (SRandMemberWithRetry rd 2 sendInstanceSetKey) (\<lambda>e. return (Inl ErrNoAvailableSend))
       (\<lambda>instanceID. if instanceID = [] then return (Inl ErrNoAvailableSend)
          else on_call (GetSendInstanceInfo env rd instanceID)
            (\<lambda>e w. (Inl e, snd (SRemWithRetry rd 2 sendInstanceSetKey [instanceID] w)))
            (\<lambda>info. return (Inr info)))"

definition IsSendInstanceHealthy :: "'w redis \<Rightarrow> string \<Rightarrow> ('w, bool) io" where
  "IsSendInstanceHealthy rd instanceID =
     on_call (ExistsWithRetry rd 2 (sendInstancePrefix @ instanceID)) (\<lambda>e. return False) (\<lambda>n. return (0 < n))"

definition GetSendInstanceCount :: "'w redis \<Rightarrow> ('w, goerr + nat) io" where
  "GetSendInstanceCount rd =
     on_call (SCardWithRetry rd 2 sendInstanceSetKey) (\<lambda>e. return (Inl e)) (\<lambda>n. return (Inr n))"

definition BuildSendHTTPURL :: "send_info \<Rightarrow> string" where
  "BuildSendHTTPURL info = ''http://'' @ siAddress info @ '':'' @ FormatInt (siPort info)"

definition GetSendInstanceAddress :: "send_info \<Rightarrow> string" where
  "GetSendInstanceAddress info = siAddress info @ '':'' @ FormatInt (siPort info)"

section \<open>Handlers\<close>

definition RegisterHandler_send :: "regenv \<Rightarrow> 'w redis \<Rightarrow> string \<Rightarrow> wire \<Rightarrow> ('w, reply) io" where
  "RegisterHandler_send env rd now body w =
     (case bind_send_register body of
        Inl e \<Rightarrow> (invalid_request e, w)
      | Inr req \<Rightarrow>
          (case RegisterSendInstance env rd now req w of
             (Some e, w') \<Rightarrow> (ReplyError500 (''Failed to register send instance: '' @ err_text e), w')
           | (None, w') \<Rightarrow> (ReplySuccess ''Send instance registered successfully'', w')))"

definition HeartbeatHandler_send :: "regenv \<Rightarrow> 'w redis \<Rightarrow> string \<Rightarrow> wire \<Rightarrow> ('w, reply) io" where
  "HeartbeatHandler_send env rd now body w =
     (case bind_send_heartbeat body of
        Inl e \<Rightarrow> (invalid_request e, w)
      | Inr instanceID \<Rightarrow>
          (case UpdateSendHeartbeat env rd now instanceID w of
             (Some e, w') \<Rightarrow>
               if e = ErrSendInstanceNotFound then (ReplyNotFound ''Send instance not registered'', w')
               else (ReplyError500 (''Failed to update heartbeat: '' @ err_text e), w')
           | (None, w') \<Rightarrow> (ReplySuccess ''Heartbeat updated successfully'', w')))"

definition UnregisterHandler_send :: "'w redis \<Rightarrow> string \<Rightarrow> ('w, reply) io" where
  "UnregisterHandler_send rd instanceID w =
     (if instanceID = [] then (ReplyBadRequest ''instance_id is required'', w)
      else (case UnregisterSendInstance rd instanceID w of
          (Some e, w') \<Rightarrow> (ReplyError500 (''Failed to unregister send instance: '' @ err_text e), w')
        | (None, w') \<Rightarrow> (ReplySuccess ''Send instance unregistered successfully'', w')))"

definition ListInstancesHandler :: "regenv \<Rightarrow> 'w redis \<Rightarrow> ('w, reply) io" where
  "ListInstancesHandler env rd =
     on_call (ListAllSendInstances env rd)
       (\<lambda>e. return (ReplyError500 (''Failed to list send instances: '' @ err_text e)))
       (\<lambda>gs. return (ReplySuccessWithData ''success''
          (JObj [(''count'', JInt (int (length gs))), (''instances'', slice_json (map send_json gs))])))"

definition GetAvailableSendHandler :: "regenv \<Rightarrow> 'w redis \<Rightarrow> ('w, reply) io" where
  "GetAvailableSendHandler env rd =
     on_call (GetRandomSendInstance env rd)
       (\<lambda>e. return (if e = ErrNoAvailableSend then ReplyError500 ''No available send instance''
          else ReplyError500 (''Failed to get available send instance: '' @ err_text e)))
       (\<lambda>info. return (ReplySuccessWithData ''available''
          (JObj [(''address'', JStr (siAddress info)), (''instance_id'', JStr (siID info)),
             (''port'', json_of_int64 (siPort info)), (''url'', JStr (BuildSendHTTPURL info))])))"

section \<open>Lemmas\<close>

lemma match_send_keys [simp]:
  "match_field send_keys ''instance_id'' = Some ''instance_id''"
  "match_field send_keys ''address'' = Some ''address''"
  "match_field send_keys ''port'' = Some ''port''"
  "match_field send_keys ''last_heartbeat'' = Some ''last_heartbeat''"
  by code_simp+

lemma send_roundtrip [simp]:
  "time_ok env (siHeartbeat g) \<Longrightarrow> send_unmarshal env (Doc (send_json g)) = (None, g)"
  by (simp add: send_unmarshal_def unmarshal_struct_def send_json_def send_setf_def dec_time_def)

definition stored_send :: "regenv \<Rightarrow> store \<Rightarrow> string \<Rightarrow> send_info option" where
  "stored_send env s sid =
     (case kv s (sendInstancePrefix @ sid) of
        None \<Rightarrow> None
      | Some d \<Rightarrow> (case send_unmarshal env d of (None, g) \<Rightarrow> Some g | (Some _, _) \<Rightarrow> None))"

lemma GetSendInstanceInfo_reads:
  assumes "store_laws rd vw"
  shows "reads vw (GetSendInstanceInfo env rd sid) (\<lambda>s r. case r of
      Inr g \<Rightarrow> stored_send env s sid = Some g
    | Inl e \<Rightarrow> e = ErrSendInstanceNotFound \<or> e = ErrInvalidSendData \<and> stored_send env s sid = None)"
  unfolding reads_def
proof (intro allI impI)
  fix w r w'
  assume "GetSendInstanceInfo env rd sid w = (r, w')"
  then show "vw w' = vw w \<and> (case r of Inr g \<Rightarrow> stored_send env (vw w) sid = Some g
    | Inl e \<Rightarrow> e = ErrSendInstanceNotFound \<or> e = ErrInvalidSendData \<and> stored_send env (vw w) sid = None)"
    unfolding GetSendInstanceInfo_def
  proof (cases rule: on_callE)
    case (err e w1)
    with readsD [OF retried(7) [OF assms], of 2 "sendInstancePrefix @ sid" w "Inl e" w1] show ?thesis by auto
  next
    case (ok d w1)
    with readsD [OF retried(7) [OF assms], of 2 "sendInstancePrefix @ sid" w "Inr d" w1]
    show ?thesis by (auto simp: get_reply_def stored_send_def split: prod.splits option.splits)
  qed
qed

text \<open>Taking a member out of a set, whether or not the command is reported to have worked.\<close>

lemma SRem_either:
  assumes "store_laws rd vw"
  shows "vw (snd (SRemWithRetry rd 2 k ms w)) = vw w \<or>
    vw (snd (SRemWithRetry rd 2 k ms w)) = (vw w)\<lparr>sets := (sets (vw w))(k := sets (vw w) k - set ms)\<rparr>"
proof (cases "SRemWithRetry rd 2 k ms w")
  case (Pair r w')
  then show ?thesis
    using mutatesD [OF retried(4) [OF assms], of 2 k ms w] by (cases r) auto
qed

section \<open>Properties\<close>

text \<open>
  \<open>GetRandomSendInstance\<close> returns only an instance that is in the set and whose information is
  stored, and leaves everything as it was then; when it fails the only change it can have made is
  to take the member it picked out of the set.
\<close>

theorem random_send_is_live:
  assumes laws: "store_laws rd vw" and run: "GetRandomSendInstance env rd w = (r, w')"
  shows "(\<forall>info. r = Inr info \<longrightarrow> vw w' = vw w
      \<and> (\<exists>sid \<in> sets (vw w) sendInstanceSetKey. sid \<noteq> [] \<and> stored_send env (vw w) sid = Some info))
    \<and> (\<forall>e. r = Inl e \<longrightarrow> vw w' = vw w
      \<or> (\<exists>sid \<in> sets (vw w) sendInstanceSetKey. vw w' = (vw w)\<lparr>sets :=
           (sets (vw w))(sendInstanceSetKey := sets (vw w) sendInstanceSetKey - {sid})\<rparr>))"
  using run unfolding GetRandomSendInstance_def
proof (cases rule: on_callE)
  case (err e w1)
  then show ?thesis using readsD [OF retried(11) [OF laws], of 2 sendInstanceSetKey w "Inl e" w1] by auto
next
  case (ok sid w1)
  have v1: "vw w1 = vw w" and mem: "sid \<in> sets (vw w) sendInstanceSetKey"
    using readsD [OF retried(11) [OF laws] ok(1)] by (simp_all add: on_ok_def)
  show ?thesis
  proof (cases "sid = []")
    case True
    with ok v1 show ?thesis by auto
  next
    case False
    with ok(2) have "on_call (GetSendInstanceInfo env rd sid)
            (\<lambda>e w. (Inl e, snd (SRemWithRetry rd 2 sendInstanceSetKey [sid] w)))
            (\<lambda>info. return (Inr info)) w1 = (r, w')" by simp
    then show ?thesis
    proof (cases rule: on_callE)
      case (err e w2)
      have "vw w2 = vw w" using readsD [OF GetSendInstanceInfo_reads [OF laws] err(1)] v1 by simp
      with err(2) SRem_either [OF laws, of sendInstanceSetKey "[sid]" w2] mem show ?thesis by auto
    next
      case (ok info w2)
      with readsD [OF GetSendInstanceInfo_reads [OF laws] ok(1)] v1 mem False show ?thesis by auto
    qed
  qed
qed

definition demo_send :: mem where
  "demo_send = mem_empty\<lparr>m_sets := (\<lambda>_. [])(sendInstanceSetKey := [''s1'']),
     m_kv := Map.empty(sendInstancePrefix @ ''s1'' \<mapsto>
       Doc (send_json \<lparr>siID = ''s1'', siAddress = ''h'', siPort = 80, siHeartbeat = ''t''\<rparr>))\<rparr>"

theorem random_send_is_live_witness:
  "\<exists>info sid. GetRandomSendInstance demo_env mem_redis demo_send = (Inr info, demo_send)
     \<and> sid \<in> sets (mem_store demo_send) sendInstanceSetKey
     \<and> stored_send demo_env (mem_store demo_send) sid = Some info"
proof -
  have "send_unmarshal demo_env (Doc (send_json \<lparr>siID = ''s1'', siAddress = ''h'', siPort = 80, siHeartbeat = ''t''\<rparr>))
     = (None, \<lparr>siID = ''s1'', siAddress = ''h'', siPort = 80, siHeartbeat = ''t''\<rparr>)"
    by (rule send_roundtrip) (simp add: demo_env_def)
  then obtain info where run: "GetRandomSendInstance demo_env mem_redis demo_send = (Inr info, demo_send)"
    by (simp add: GetRandomSendInstance_def GetSendInstanceInfo_def on_call_def SRandMemberWithRetry_def
        GetWithRetry_def numeral_2_eq_2 mem_redis_def mem_read_def demo_send_def mem_empty_def)
  with random_send_is_live [OF mem_store_laws run] show ?thesis by blast
qed

end
