(* ===== verification/RegUser.thy ===== *)
theory RegUser
  imports RegSend
begin

text \<open>
  \<open>internal/registry/user\<close>: which gateway a user is connected to, recorded when gateways report
  connections and disconnections, looked up in batches by the send service, and used to send a
  reconnecting user back to the same gateway.
\<close>

section \<open>Data\<close>

record user_route =
  urUserID :: int64
  urGatewayID :: string
  urAddress :: string
  urConnectedAt :: string
  urStatus :: string

definition route_json :: "user_route \<Rightarrow> json" where
  "route_json r = JObj [(''user_id'', json_of_int64 (urUserID r)), (''gateway_id'', JStr (urGatewayID r)),
     (''address'', JStr (urAddress r)), (''connected_at'', JStr (urConnectedAt r)),
     (''status'', JStr (urStatus r))]"

abbreviation route_keys :: "string list" where
  "route_keys \<equiv> [''user_id'', ''gateway_id'', ''address'', ''connected_at'', ''status'']"

definition route_setf :: "regenv \<Rightarrow> string \<Rightarrow> json \<Rightarrow> user_route \<Rightarrow> goerr option \<times> user_route" where
  "route_setf env k v r =
     (case match_field route_keys k of
        None \<Rightarrow> (None, r)
      | Some f \<Rightarrow>
          if f = ''user_id'' then upd (\<lambda>r x. r\<lparr>urUserID := x\<rparr>) r (dec_int64 v (urUserID r))
          else if f = ''gateway_id'' then upd (\<lambda>r x. r\<lparr>urGatewayID := x\<rparr>) r (dec_string v (urGatewayID r))
          else if f = ''address'' then upd (\<lambda>r x. r\<lparr>urAddress := x\<rparr>) r (dec_string v (urAddress r))
          else if f = ''connected_at'' then upd (\<lambda>r x. r\<lparr>urConnectedAt := x\<rparr>) r (dec_time env v (urConnectedAt r))
          else upd (\<lambda>r x. r\<lparr>urStatus := x\<rparr>) r (dec_string v (urStatus r)))"

definition zero_route :: user_route where
  "zero_route = \<lparr>urUserID = 0, urGatewayID = [], urAddress = [], urConnectedAt = zero_time, urStatus = []\<rparr>"

definition route_unmarshal :: "regenv \<Rightarrow> wire \<Rightarrow> goerr option \<times> user_route" where
  "route_unmarshal env w = unmarshal_struct (route_setf env) w zero_route"

record route_info =
  riGatewayID :: string
  riAddress :: string

record available =
  avGatewayID :: string
  avAddress :: string
  avPort :: int64

text \<open>\<open>ConnectRequest\<close> and \<open>DisconnectRequest\<close> have the same fields: user and gateway.\<close>

definition connect_setf :: "string \<Rightarrow> json \<Rightarrow> int64 \<times> string \<Rightarrow> goerr option \<times> int64 \<times> string" where
  "connect_setf k v r =
     (case r of (u, g) \<Rightarrow>
       (case match_field [''user_id'', ''gateway_id''] k of
          None \<Rightarrow> (None, r)
        | Some f \<Rightarrow>
            if f = ''user_id'' then upd (\<lambda>_ x. (x, g)) r (dec_int64 v u)
            else upd (\<lambda>_ x. (u, x)) r (dec_string v g)))"

definition bind_connect :: "wire \<Rightarrow> goerr + int64 \<times> string" where
  "bind_connect = bind_json connect_setf (\<lambda>(u, g). u \<noteq> 0 \<and> g \<noteq> []) (0, [])"

text \<open>A slice field is \<open>required\<close> when it is not nil; an empty array is not nil.\<close>

definition batch_setf :: "string \<Rightarrow> json \<Rightarrow> int64 list option \<Rightarrow> goerr option \<times> int64 list option" where
  "batch_setf k v r =
     (case match_field [''user_ids''] k of
        None \<Rightarrow> (None, r)
      | Some f \<Rightarrow> if v = JNull then (None, None)
          else (case dec_int64s v [] of (None, xs) \<Rightarrow> (None, Some xs) | (Some e, xs) \<Rightarrow> (Some e, r)))"

definition bind_batch :: "wire \<Rightarrow> goerr + int64 list" where
  "bind_batch w = (case bind_json batch_setf (\<lambda>r. r \<noteq> None) None w of
     Inl e \<Rightarrow> Inl e | Inr r \<Rightarrow> Inr (the r))"

section \<open>Service\<close>

definition userRoutePrefix :: string where
  "userRoutePrefix = ''route:user:''"

definition route_key :: "int64 \<Rightarrow> string" where
  "route_key u = userRoutePrefix @ FormatInt u"

definition route_ttl :: "regenv \<Rightarrow> int" where
  "route_ttl env = (case routeTTL env of None \<Rightarrow> 120 | Some t \<Rightarrow> t)"

definition RecordUserConnect :: "regenv \<Rightarrow> 'w redis \<Rightarrow> string \<Rightarrow> int64 \<Rightarrow> string \<Rightarrow> ('w, goerr option) io" where
  "RecordUserConnect env rd now userID gatewayID =
     on_call (GetGatewayInfo env rd gatewayID) (\<lambda>e. return (Some e))
       (\<lambda>gwInfo. let route = \<lparr>urUserID = userID, urGatewayID = gatewayID, urAddress = GetGatewayAddress gwInfo,
              urConnectedAt = now, urStatus = ''connected''\<rparr> in
          on_call (SetEXWithRetry rd 2 (route_key userID) (Doc (route_json route)) (route_ttl env))
            (\<lambda>e. return (Some e)) (\<lambda>_. return None))"

definition RecordUserDisconnect :: "regenv \<Rightarrow> 'w redis \<Rightarrow> int64 \<Rightarrow> string \<Rightarrow> ('w, goerr option) io" where
  "RecordUserDisconnect env rd userID gatewayID =
     on_call (GetWithRetry rd 2 (route_key userID)) (\<lambda>e. return None)
       (\<lambda>data. case route_unmarshal env data of
           (Some e, _) \<Rightarrow> return (Some ErrInvalidRouteData)
         | (None, route) \<Rightarrow>
             if urGatewayID route \<noteq> gatewayID then return None
             else on_call (SetEXWithRetry rd 2 (route_key userID)
                   (Doc (route_json (route\<lparr>urStatus := ''disconnected''\<rparr>))) (route_ttl env))
                (\<lambda>e. return (Some e)) (\<lambda>_. return None))"

definition GetUserRoute :: "regenv \<Rightarrow> 'w redis \<Rightarrow> int64 \<Rightarrow> ('w, goerr + user_route) io" where
  "GetUserRoute env rd userID =
     on_call (GetWithRetry rd 2 (route_key userID)) (\<lambda>e. return (Inl ErrUserRouteNotFound))
       (\<lambda>data. case route_unmarshal env data of
           (Some e, _) \<Rightarrow> return (Inl ErrInvalidRouteData)
         | (None, route) \<Rightarrow> return (Inr route))"

text \<open>The loop over the values; a user whose value is empty or does not decode gets no entry.\<close>

fun collect_routes :: "regenv \<Rightarrow> (int64 \<times> wire) list \<Rightarrow> (int64 \<rightharpoonup> route_info) \<Rightarrow> (int64 \<rightharpoonup> route_info)" where
  "collect_routes env [] m = m"
| "collect_routes env ((u, v) # uvs) m =
     (if v = Raw [] then collect_routes env uvs m
      else (case route_unmarshal env v of
          (Some e, _) \<Rightarrow> collect_routes env uvs m
        | (None, route) \<Rightarrow> collect_routes env uvs
            (m(u \<mapsto> \<lparr>riGatewayID = urGatewayID route, riAddress = urAddress route\<rparr>))))"

definition BatchGetUserRoutes :: "regenv \<Rightarrow> 'w redis \<Rightarrow> int64 list \<Rightarrow> ('w, goerr + (int64 \<rightharpoonup> route_info)) io" where
  "BatchGetUserRoutes env rd userIDs =
     on_call (MGetWithRetry rd 2 (map route_key userIDs)) (\<lambda>e. return (Inl e))
       (\<lambda>vals. return (Inr (collect_routes env (zip userIDs vals) Map.empty)))"

definition available_of :: "gateway_info \<Rightarrow> available" where
  "available_of g = \<lparr>avGatewayID = giID g, avAddress = giAddress g, avPort = giPort g\<rparr>"

definition select_gateway :: "regenv \<Rightarrow> 'w redis \<Rightarrow> ('w, goerr + available) io" where
  "select_gateway env rd =
     on_call (GetLowestLoadGateway env rd) (\<lambda>e. return (Inl e)) (\<lambda>g. return (Inr (available_of g)))"

definition GetAvailableGatewayForUser :: "regenv \<Rightarrow> 'w redis \<Rightarrow> int64 \<Rightarrow> ('w, goerr + available) io" where
  "GetAvailableGatewayForUser env rd userID =
     on_call (GetUserRoute env rd userID) (\<lambda>e. select_gateway env rd)
       (\<lambda>route w. case IsGatewayHealthy rd (urGatewayID route) w of
           (False, w1) \<Rightarrow> select_gateway env rd w1
         | (True, w1) \<Rightarrow>
             on_call (GetGatewayInfo env rd (urGatewayID route)) (\<lambda>e. select_gateway env rd)
               (\<lambda>g. return (Inr (available_of g))) w1)"

definition DeleteUserRoute :: "'w redis \<Rightarrow> int64 \<Rightarrow> ('w, goerr option) io" where
  "DeleteUserRoute rd userID =
     on_call (DelWithRetry rd 2 (route_key userID)) (\<lambda>e. return (Some e)) (\<lambda>_. return None)"

section \<open>Handlers\<close>

text \<open>
  \<open>ConnectHandler\<close> starts a goroutine after a recorded connection; the handler's second result is
  the user it was started for, and \<open>notify_online\<close> is its body.
\<close>

fun notify_loop :: "'w http \<Rightarrow> string \<Rightarrow> json \<Rightarrow> nat \<Rightarrow> ('w, bool) io" where
  "notify_loop h url body 0 w = (False, w)"
| "notify_loop h url body (Suc n) w =
     (case hDo h ''POST'' url (Some (Doc body)) w of
        (Inl e, w') \<Rightarrow> notify_loop h url body n w'
      | (Inr (st, b), w') \<Rightarrow> if 200 \<le> st \<and> st < 300 then (True, w') else notify_loop h url body n w')"

definition notify_online :: "regenv \<Rightarrow> 'w redis \<Rightarrow> 'w http \<Rightarrow> int64 \<Rightarrow> ('w, bool) io" where
  "notify_online env rd h uid =
     on_call (GetRandomSendInstance env rd) (\<lambda>e. return False)
       (\<lambda>inst. notify_loop h (BuildSendHTTPURL inst @ ''/internal/push/notify_online'')
          (JObj [(''target_id'', json_of_int64 uid)]) 2)"

definition ConnectHandler :: "regenv \<Rightarrow> 'w redis \<Rightarrow> string \<Rightarrow> wire \<Rightarrow> ('w, reply \<times> int64 option) io" where
  "ConnectHandler env rd now body w =
     (case bind_connect body of
        Inl e \<Rightarrow> ((invalid_request e, None), w)
      | Inr (u, g) \<Rightarrow>
          (case RecordUserConnect env rd now u g w of
             (Some e, w') \<Rightarrow> ((ReplyError500 (''Failed to record user connection: '' @ err_text e), None), w')
           | (None, w') \<Rightarrow> ((ReplySuccess ''User connection recorded successfully'', Some u), w')))"

definition DisconnectHandler :: "regenv \<Rightarrow> 'w redis \<Rightarrow> wire \<Rightarrow> ('w, reply) io" where
  "DisconnectHandler env rd body w =
     (case bind_connect body of
        Inl e \<Rightarrow> (invalid_request e, w)
      | Inr (u, g) \<Rightarrow>
          (case RecordUserDisconnect env rd u g w of
             (Some e, w') \<Rightarrow> (ReplyError500 (''Failed to record user disconnection: '' @ err_text e), w')
           | (None, w') \<Rightarrow> (ReplySuccess ''User disconnection recorded successfully'', w')))"

text \<open>A Go map prints as an object with its keys in order.\<close>

definition routes_json :: "int64 list \<Rightarrow> (int64 \<rightharpoonup> route_info) \<Rightarrow> json" where
  "routes_json us m = JObj (obj_canon (concat (map (\<lambda>u. case m u of
      None \<Rightarrow> []
    | Some r \<Rightarrow> [(FormatInt u, JObj [(''gateway_id'', JStr (riGatewayID r)), (''address'', JStr (riAddress r))])]) us)))"

definition BatchQueryRoutesHandler :: "regenv \<Rightarrow> 'w redis \<Rightarrow> wire \<Rightarrow> ('w, reply) io" where
  "BatchQueryRoutesHandler env rd body w =
     (case bind_batch body of
        Inl e \<Rightarrow> (invalid_request e, w)
      | Inr us \<Rightarrow>
          if us = [] then (ReplyBadRequest ''user_ids cannot be empty'', w)
          else on_call (BatchGetUserRoutes env rd us)
            (\<lambda>e. return (ReplyError500 (''Failed to query user routes: '' @ err_text e)))
            (\<lambda>m. return (ReplySuccessWithData ''success'' (routes_json us m))) w)"

text \<open>The query parameter: as JSON first (\<open>parse\<close> reads bytes as a document), then as decimal.\<close>

definition parse_user_id :: "(string \<Rightarrow> wire) \<Rightarrow> string \<Rightarrow> goerr + int64" where
  "parse_user_id parse s =
     (case parse s of
        Doc j \<Rightarrow> (case dec_int64 j 0 of (None, u) \<Rightarrow> Inr u | (Some e, _) \<Rightarrow> ParseInt s)
      | Raw _ \<Rightarrow> ParseInt s)"

definition GetAvailableGatewayHandler ::
  "(string \<Rightarrow> wire) \<Rightarrow> regenv \<Rightarrow> 'w redis \<Rightarrow> string \<Rightarrow> ('w, reply) io" where
  "GetAvailableGatewayHandler parse env rd userIDStr w =
     (if userIDStr = [] then (ReplyBadRequest ''user_id is required'', w)
      else (case parse_user_id parse userIDStr of
          Inl e \<Rightarrow> (ReplyBadRequest ''Invalid user_id format'', w)
        | Inr u \<Rightarrow>
            on_call (GetAvailableGatewayForUser env rd u)
              (\<lambda>e. return (if e = ErrNoAvailableGateway then ReplyError500 ''No available gateway''
                 else ReplyError500 (''Failed to get available gateway: '' @ err_text e)))
              (\<lambda>a. return (ReplySuccessWithData ''available''
                 (JObj [(''address'', JStr (avAddress a)), (''gateway_id'', JStr (avGatewayID a)),
                    (''port'', json_of_int64 (avPort a))]))) w))"

section \<open>Lemmas\<close>

lemma match_route_keys [simp]:
  "match_field route_keys ''user_id'' = Some ''user_id''"
  "match_field route_keys ''gateway_id'' = Some ''gateway_id''"
  "match_field route_keys ''address'' = Some ''address''"
  "match_field route_keys ''connected_at'' = Some ''connected_at''"
  "match_field route_keys ''status'' = Some ''status''"
  by code_simp+

lemma route_roundtrip [simp]:
  "time_ok env (urConnectedAt r) \<Longrightarrow> route_unmarshal env (Doc (route_json r)) = (None, r)"
  by (simp add: route_unmarshal_def unmarshal_struct_def route_json_def route_setf_def dec_time_def)

definition stored_route :: "regenv \<Rightarrow> store \<Rightarrow> int64 \<Rightarrow> user_route option" where
  "stored_route env s u =
     (case kv s (route_key u) of
        None \<Rightarrow> None
      | Some d \<Rightarrow> (case route_unmarshal env d of (None, r) \<Rightarrow> Some r | (Some _, _) \<Rightarrow> None))"

lemma route_key_inj [simp]: "route_key u = route_key v \<longleftrightarrow> u = v"
  by (simp add: route_key_def)

lemma route_key_gateway [simp]:
  "route_key u \<noteq> gatewayInfoPrefix @ g" "gatewayInfoPrefix @ g \<noteq> route_key u"
  "route_key u \<noteq> gatewayRankingKey" "route_key u \<noteq> gatewayInstanceKey"
  "route_key u \<noteq> sendInstancePrefix @ g" "route_key u \<noteq> sendInstanceSetKey"
  by (simp_all add: route_key_def userRoutePrefix_def gatewayInfoPrefix_def gatewayRankingKey_def
      gatewayInstanceKey_def sendInstancePrefix_def sendInstanceSetKey_def)

lemma GetUserRoute_reads:
  assumes "store_laws rd vw"
  shows "reads vw (GetUserRoute env rd u) (\<lambda>s r. \<forall>route. r = Inr route \<longrightarrow> stored_route env s u = Some route)"
  unfolding reads_def
proof (intro allI impI)
  fix w r w'
  assume "GetUserRoute env rd u w = (r, w')"
  then show "vw w' = vw w \<and> (\<forall>route. r = Inr route \<longrightarrow> stored_route env (vw w) u = Some route)"
    unfolding GetUserRoute_def
  proof (cases rule: on_callE)
    case (err e w1)
    with readsD [OF retried(7) [OF assms], of 2 "route_key u" w "Inl e" w1] show ?thesis by auto
  next
    case (ok d w1)
    with readsD [OF retried(7) [OF assms], of 2 "route_key u" w "Inr d" w1]
    show ?thesis by (auto simp: get_reply_def stored_route_def split: prod.splits option.splits)
  qed
qed

lemma MGet_reads:
  assumes "store_laws rd vw" "0 < n"
  shows "reads vw (MGetWithRetry rd n ks) (\<lambda>s r. \<exists>vs. r = Inr vs
    \<and> (vs = [] \<or> vs = map (\<lambda>k. case kv s k of None \<Rightarrow> Raw [] | Some v \<Rightarrow> v) ks))"
  unfolding reads_def
proof (intro allI impI)
  fix w r w'
  assume run: "MGetWithRetry rd n ks w = (r, w')"
  obtain r0 w0 where c: "swallow [] (retry_loop n never (Inr []) (cMGet rd ks)) w = (r0, w0)" by force
  from readsD [OF swallow_reads [OF reads_retry [OF store_lawsD(4) [OF assms(1)] assms(2)]] c]
  have "vw w0 = vw w \<and> (\<exists>v. r0 = Inr v \<and> (v = [] \<or> v = map (kv (vw w)) ks))" by (auto simp: on_ok_def)
  with run c show "vw w' = vw w \<and> (\<exists>vs. r = Inr vs \<and>
      (vs = [] \<or> vs = map (\<lambda>k. case kv (vw w) k of None \<Rightarrow> Raw [] | Some v \<Rightarrow> v) ks))"
    by (auto simp: MGetWithRetry_def)
qed

lemma IsGatewayHealthy_view:
  "store_laws rd vw \<Longrightarrow> IsGatewayHealthy rd g w = (b, w') \<Longrightarrow> vw w' = vw w"
  unfolding IsGatewayHealthy_def by (erule on_callE) (auto dest: Exists_view)

definition brief :: "user_route \<Rightarrow> route_info" where
  "brief r = \<lparr>riGatewayID = urGatewayID r, riAddress = urAddress r\<rparr>"

text \<open>An empty stored value would not decode either: it is no JSON.\<close>

lemma stored_route_empty: "kv s (route_key u) = Some (Raw t) \<Longrightarrow> stored_route env s u = None"
  by (simp add: stored_route_def route_unmarshal_def unmarshal_struct_def)

lemma collect_routes_stored:
  "collect_routes env (zip us (map (\<lambda>u. case kv s (route_key u) of None \<Rightarrow> Raw [] | Some v \<Rightarrow> v) us)) m v =
     (if v \<in> set us \<and> stored_route env s v \<noteq> None then map_option brief (stored_route env s v) else m v)"
proof (induction us arbitrary: m)
  case Nil
  then show ?case by simp
next
  case (Cons u us)
  show ?case
  proof (cases "kv s (route_key u)")
    case None
    with Cons show ?thesis by (auto simp: stored_route_def)
  next
    case (Some d)
    with Cons show ?thesis
      by (cases "d = Raw []"; cases "route_unmarshal env d"; cases "fst (route_unmarshal env d)")
         (auto simp: stored_route_def brief_def stored_route_empty [unfolded stored_route_def]
           route_unmarshal_def unmarshal_struct_def)
  qed
qed

section \<open>Properties\<close>


text \<open>
  C35: a connection recorded with success makes the route of that user, and of no other, point to
  that gateway with status \<open>connected\<close>; a disconnection that another gateway reports afterwards
  changes nothing and is no error, so a late report of the old gateway cannot undo a reconnection.
\<close>

theorem late_disconnect_ignored:
  assumes laws: "store_laws rd vw" and now: "time_ok env now"
    and conn: "RecordUserConnect env rd now u g w = (None, w1)"
    and other: "g' \<noteq> g" and disc: "RecordUserDisconnect env rd u g' w1 = (r, w2)"
  shows "(\<exists>info. stored_gateway env (vw w) g = Some info \<and> stored_route env (vw w1) u =
            Some \<lparr>urUserID = u, urGatewayID = g, urAddress = GetGatewayAddress info, urConnectedAt = now, urStatus = ''connected''\<rparr>)
    \<and> (\<forall>v. v \<noteq> u \<longrightarrow> stored_route env (vw w1) v = stored_route env (vw w) v)
    \<and> vw w2 = vw w1 \<and> r = None"
proof -
  let ?route = "\<lambda>info. \<lparr>urUserID = u, urGatewayID = g, urAddress = GetGatewayAddress info,
    urConnectedAt = now, urStatus = ''connected''\<rparr>"
  from conn [unfolded RecordUserConnect_def] obtain info w0 where
    g: "GetGatewayInfo env rd g w = (Inr info, w0)"
    and s: "on_call (SetEXWithRetry rd 2 (route_key u) (Doc (route_json (?route info))) (route_ttl env))
            (\<lambda>e. return (Some e)) (\<lambda>_. return None) w0 = (None, w1)"
    by (elim on_callE) (auto simp: Let_def)
  from readsD [OF GetGatewayInfo_reads [OF laws] g]
  have v0: "vw w0 = vw w" and info: "stored_gateway env (vw w) g = Some info" by auto
  from s have v1: "vw w1 = store_setex (route_key u) (Doc (route_json (?route info))) (vw w)"
    using v0 by (elim on_callE) (auto dest: SetEX_done [OF laws])
  have route: "route_unmarshal env (Doc (route_json (?route info))) = (None, ?route info)" using now by simp
  have d: "vw w2 = vw w1 \<and> r = None" using disc unfolding RecordUserDisconnect_def
  proof (cases rule: on_callE)
    case (err e w3)
    then show ?thesis using readsD [OF retried(7) [OF laws] err(1)] by simp
  next
    case (ok data w3)
    from readsD [OF retried(7) [OF laws] ok(1)] have "vw w3 = vw w1" "data = Doc (route_json (?route info))"
      by (auto simp: get_reply_def v1)
    with ok(2) route other show ?thesis by auto
  qed
  with info route show ?thesis by (auto simp: v1 stored_route_def)
qed

text \<open>
  Choosing a gateway for a user only reads; the gateway chosen is the one of the user's route,
  while its information is stored, whatever its load, or else the first of the ranking, which has
  room.
\<close>

theorem gateway_for_user:
  assumes laws: "store_laws rd vw" and sorted: "sorted (zsets (vw w) gatewayRankingKey)"
    and run: "GetAvailableGatewayForUser env rd u w = (r, w')"
  shows "vw w' = vw w \<and> (\<forall>a. r = Inr a \<longrightarrow>
      (\<exists>route info. stored_route env (vw w) u = Some route
         \<and> stored_gateway env (vw w) (urGatewayID route) = Some info \<and> a = available_of info)
      \<or> (\<exists>sc gid rest info. zsets (vw w) gatewayRankingKey = (sc, gid) # rest
         \<and> stored_gateway env (vw w) gid = Some info \<and> giConnected info <s giCapacity info \<and> a = available_of info))"
proof -
  let ?P = "\<lambda>s a. (\<exists>route info. stored_route env s u = Some route
         \<and> stored_gateway env s (urGatewayID route) = Some info \<and> a = available_of info)
      \<or> (\<exists>sc gid rest info. zsets s gatewayRankingKey = (sc, gid) # rest
         \<and> stored_gateway env s gid = Some info \<and> giConnected info <s giCapacity info \<and> a = available_of info)"
  have sel: "vw w' = vw w \<and> (\<forall>a. r = Inr a \<longrightarrow> ?P (vw w) a)"
    if c: "select_gateway env rd w1 = (r, w')" and v: "vw w1 = vw w" for w1
  proof -
    obtain r0 w0 where l: "GetLowestLoadGateway env rd w1 = (r0, w0)" by force
    have so: "sorted (zsets (vw w1) gatewayRankingKey)" using sorted v by simp
    from lowest_load_reads [OF laws so l] l c v show ?thesis
      by (cases r0) (auto simp: select_gateway_def on_call_def)
  qed
  show ?thesis using run unfolding GetAvailableGatewayForUser_def
  proof (cases rule: on_callE)
    case (err e w1)
    have "vw w1 = vw w" using readsD [OF GetUserRoute_reads [OF laws] err(1)] by simp
    from sel [OF err(2) this] show ?thesis .
  next
    case (ok route w1)
    with readsD [OF GetUserRoute_reads [OF laws] ok(1)]
    have v1: "vw w1 = vw w" and route: "stored_route env (vw w) u = Some route" by auto
    obtain b w2 where h: "IsGatewayHealthy rd (urGatewayID route) w1 = (b, w2)" by force
    with IsGatewayHealthy_view [OF laws h] v1 have v2: "vw w2 = vw w" by simp
    show ?thesis
    proof (cases b)
      case False
      with ok(2) h have "select_gateway env rd w2 = (r, w')" by simp
      from sel [OF this v2] show ?thesis .
    next
      case True
      with ok(2) h have "on_call (GetGatewayInfo env rd (urGatewayID route)) (\<lambda>e. select_gateway env rd)
               (\<lambda>g. return (Inr (available_of g))) w2 = (r, w')" by simp
      then show ?thesis
      proof (cases rule: on_callE)
        case (err e w3)
        have "vw w3 = vw w" using readsD [OF GetGatewayInfo_reads [OF laws] err(1)] v2 by simp
        from sel [OF err(2) this] show ?thesis .
      next
        case (ok g w3)
        with readsD [OF GetGatewayInfo_reads [OF laws] ok(1)] v2 route show ?thesis by auto
      qed
    qed
  qed
qed

section \<open>Witnesses\<close>

definition demo_route :: "string \<Rightarrow> user_route" where
  "demo_route g = \<lparr>urUserID = 7, urGatewayID = g, urAddress = ''a'', urConnectedAt = ''t'', urStatus = ''connected''\<rparr>"

definition demo_routed :: mem where
  "demo_routed = mem_empty\<lparr>m_kv := Map.empty
     (route_key 7 \<mapsto> Doc (route_json (demo_route ''g1'')),
      gatewayInfoPrefix @ ''g1'' \<mapsto> Doc (gateway_json (registered_info ''t'' (demo_req ''g1'')\<lparr>giConnected := 1\<rparr>)),
      gatewayInfoPrefix @ ''g2'' \<mapsto> Doc (gateway_json (registered_info ''t'' (demo_req ''g2''))))\<rparr>"

lemma demo_routed_simps:
  "stored_route demo_env (mem_store demo_routed) 7 = Some (demo_route ''g1'')"
  "stored_gateway demo_env (mem_store demo_routed) ''g1'' = Some (registered_info ''t'' (demo_req ''g1'')\<lparr>giConnected := 1\<rparr>)"
  "stored_gateway demo_env (mem_store demo_routed) ''g2'' = Some (registered_info ''t'' (demo_req ''g2''))"
  "m_faults demo_routed = []" "m_zsets demo_routed = (\<lambda>_. [])"
proof -
  have "readable demo_env (registered_info ''t'' (demo_req ''g1'')\<lparr>giConnected := 1\<rparr>)"
    by (simp add: readable_def demo_env_def registered_info_def)
  with demo_readable
  show "stored_route demo_env (mem_store demo_routed) 7 = Some (demo_route ''g1'')"
    "stored_gateway demo_env (mem_store demo_routed) ''g1'' = Some (registered_info ''t'' (demo_req ''g1'')\<lparr>giConnected := 1\<rparr>)"
    "stored_gateway demo_env (mem_store demo_routed) ''g2'' = Some (registered_info ''t'' (demo_req ''g2''))"
    "m_faults demo_routed = []" "m_zsets demo_routed = (\<lambda>_. [])"
    by (simp_all add: demo_routed_def mem_store_def mem_empty_def stored_route_def stored_gateway_def
        route_roundtrip [of demo_env "demo_route g" for g] demo_route_def demo_env_def)
qed


theorem late_disconnect_ignored_witness:
  "\<exists>w1. RecordUserConnect demo_env mem_redis ''t'' 7 ''g2'' demo_routed = (None, w1)
     \<and> fst (RecordUserDisconnect demo_env mem_redis 7 ''g1'' w1) = None
     \<and> map_option urGatewayID (stored_route demo_env
          (mem_store (snd (RecordUserDisconnect demo_env mem_redis 7 ''g1'' w1))) 7) = Some ''g2''"
proof -
  have now: "time_ok demo_env ''t''" by (simp add: demo_env_def)
  have kv: "m_kv demo_routed (gatewayInfoPrefix @ ''g2'') = Some (Doc (gateway_json (registered_info ''t'' (demo_req ''g2''))))"
    by (simp add: demo_routed_def)
  have "\<exists>w1. RecordUserConnect demo_env mem_redis ''t'' 7 ''g2'' demo_routed = (None, w1)"
    by (simp add: RecordUserConnect_def GetGatewayInfo_def on_call_def GetWithRetry_def SetEXWithRetry_def
        numeral_2_eq_2 mem_redis_def mem_read_def mem_write_def demo_routed_simps kv demo_readable Let_def)
  then obtain w1 where conn: "RecordUserConnect demo_env mem_redis ''t'' 7 ''g2'' demo_routed = (None, w1)" by blast
  obtain r w2 where disc: "RecordUserDisconnect demo_env mem_redis 7 ''g1'' w1 = (r, w2)" by force
  from late_disconnect_ignored [OF mem_store_laws now conn _ disc] conn disc show ?thesis by auto
qed

text \<open>A user with a route is sent to that gateway although it is full.\<close>

theorem gateway_for_user_witness:
  "\<exists>a. fst (GetAvailableGatewayForUser demo_env mem_redis 7 demo_routed) = Inr a \<and> avGatewayID a = ''g1''"
proof -
  obtain r w' where run: "GetAvailableGatewayForUser demo_env mem_redis 7 demo_routed = (r, w')" by force
  have kv: "m_kv demo_routed (gatewayInfoPrefix @ ''g1'') = Some (Doc (gateway_json (registered_info ''t'' (demo_req ''g1'')\<lparr>giConnected := 1\<rparr>)))"
    "m_kv demo_routed (route_key 7) = Some (Doc (route_json (demo_route ''g1'')))"
    by (simp_all add: demo_routed_def)
  have rd: "readable demo_env (registered_info ''t'' (demo_req ''g1'')\<lparr>giConnected := 1\<rparr>)"
    "time_ok demo_env (urConnectedAt (demo_route ''g1''))" "urGatewayID (demo_route ''g1'') = ''g1''"
    by (simp_all add: readable_def demo_env_def registered_info_def demo_route_def)
  have "\<exists>a. r = Inr a" using run
    by (auto simp: GetAvailableGatewayForUser_def GetUserRoute_def IsGatewayHealthy_def GetGatewayInfo_def
        on_call_def GetWithRetry_def ExistsWithRetry_def numeral_2_eq_2 mem_redis_def mem_read_def
        demo_routed_simps kv rd)
  moreover have z: "zsets (mem_store demo_routed) = (\<lambda>_. [])"
    by (simp add: mem_store_def demo_routed_simps)
  ultimately show ?thesis
    using gateway_for_user [OF mem_store_laws _ run] run
    by (auto simp: demo_routed_simps demo_route_def available_of_def registered_info_def demo_req_def z)
qed

end
