(* ===== verification/RegClient.thy ===== *)
theory RegClient
  imports RegUser
begin

text \<open>
  \<open>pkg/registry_client/gateway_client.go\<close> and \<open>send_client.go\<close>: the calls the gateways and the send
  instances make to the registry, and the routes of \<open>cmd/registry/router.go\<close> that serve them. The
  theorems put a client call and the handler it reaches together.
\<close>

section \<open>The gateway's client\<close>

definition no_error :: "string \<Rightarrow> ('w, goerr + client_response) io \<Rightarrow> ('w, goerr option) io" where
  "no_error what m =
     on_call m (\<lambda>e. return (Some e))
       (\<lambda>r. return (if crCode r \<noteq> 0 then Some (ErrText (what @ '' failed: '' @ crMessage r)) else None))"

text \<open>Maps print with sorted keys.\<close>

definition gateway_register_body :: "string \<Rightarrow> string \<Rightarrow> int64 \<Rightarrow> int64 \<Rightarrow> json" where
  "gateway_register_body gid address port capacity =
     JObj [(''address'', JStr address), (''capacity'', json_of_int64 capacity),
       (''gateway_id'', JStr gid), (''port'', json_of_int64 port)]"

definition gateway_heartbeat_body :: "string \<Rightarrow> string \<Rightarrow> int64 \<Rightarrow> string \<Rightarrow> int64 \<Rightarrow> json" where
  "gateway_heartbeat_body gid load connections cpu memory =
     JObj [(''connections'', json_of_int64 connections), (''cpu'', JFloat cpu), (''gateway_id'', JStr gid),
       (''load'', JFloat load), (''memory'', json_of_int64 memory)]"

definition Register_gw :: "(int \<Rightarrow> int) \<Rightarrow> 'w http \<Rightarrow> string \<Rightarrow> string \<Rightarrow> int64 \<Rightarrow> int64 \<Rightarrow> ('w, goerr option) io" where
  "Register_gw f64 h gid address port capacity =
     no_error ''register'' (doRequest f64 h ''POST'' ''/registry/gateway/register''
       (Some (gateway_register_body gid address port capacity)) 2)"

definition Heartbeat_gw :: "(int \<Rightarrow> int) \<Rightarrow> 'w http \<Rightarrow> string \<Rightarrow> string \<Rightarrow> int64 \<Rightarrow> string \<Rightarrow> int64 \<Rightarrow> ('w, goerr option) io" where
  "Heartbeat_gw f64 h gid load connections cpu memory =
     no_error ''heartbeat'' (doRequest f64 h ''POST'' ''/registry/gateway/heartbeat''
       (Some (gateway_heartbeat_body gid load connections cpu memory)) 2)"

definition Unregister_gw :: "(int \<Rightarrow> int) \<Rightarrow> 'w http \<Rightarrow> string \<Rightarrow> ('w, goerr option) io" where
  "Unregister_gw f64 h gid =
     no_error ''unregister'' (doRequest f64 h ''DELETE'' (''/registry/gateway/'' @ gid) None 2)"

definition user_gateway_body :: "int64 \<Rightarrow> string \<Rightarrow> json" where
  "user_gateway_body u gid = JObj [(''user_id'', json_of_int64 u), (''gateway_id'', JStr gid)]"

definition ReportUserConnect :: "(int \<Rightarrow> int) \<Rightarrow> 'w http \<Rightarrow> string \<Rightarrow> int64 \<Rightarrow> ('w, goerr option) io" where
  "ReportUserConnect f64 h gid u =
     no_error ''notify user connect'' (doRequest f64 h ''POST'' ''/registry/user/connect''
       (Some (user_gateway_body u gid)) 2)"

definition ReportUserDisconnect :: "(int \<Rightarrow> int) \<Rightarrow> 'w http \<Rightarrow> string \<Rightarrow> int64 \<Rightarrow> ('w, goerr option) io" where
  "ReportUserDisconnect f64 h gid u =
     no_error ''notify user disconnect'' (doRequest f64 h ''POST'' ''/registry/user/disconnect''
       (Some (user_gateway_body u gid)) 2)"

definition NotifyUserConnect :: "(int \<Rightarrow> int) \<Rightarrow> 'w http \<Rightarrow> string \<Rightarrow> int64 \<Rightarrow> ('w, goerr option) io" where
  "NotifyUserConnect = ReportUserConnect"

definition NotifyUserDisconnect :: "(int \<Rightarrow> int) \<Rightarrow> 'w http \<Rightarrow> string \<Rightarrow> int64 \<Rightarrow> ('w, goerr option) io" where
  "NotifyUserDisconnect = ReportUserDisconnect"

text \<open>
  \<open>ListGateways\<close> decodes \<open>data.gateways\<close>; an element is decoded like the registry's information
  without its time stamp.
\<close>

definition gateway_item_setf :: "regenv \<Rightarrow> string \<Rightarrow> json \<Rightarrow> gateway_info \<Rightarrow> goerr option \<times> gateway_info" where
  "gateway_item_setf env k v g =
     (case match_field [''gateway_id'', ''address'', ''port'', ''load'', ''capacity'', ''connected_users''] k of
        None \<Rightarrow> (None, g) | Some f \<Rightarrow> gateway_setf env f v g)"

text \<open>Elements of a slice of structs, and a struct with one slice field.\<close>

fun dec_structs :: "(string \<Rightarrow> json \<Rightarrow> 'r \<Rightarrow> goerr option \<times> 'r) \<Rightarrow> 'r \<Rightarrow> json list \<Rightarrow> goerr option \<times> 'r list" where
  "dec_structs setf z [] = (None, [])"
| "dec_structs setf z (j # js) =
     (let (e, x) = unmarshal_struct setf (Doc j) z; (e', xs) = dec_structs setf z js
      in (case e of None \<Rightarrow> e' | Some _ \<Rightarrow> e, x # xs))"

definition slice_setf :: "string \<Rightarrow> (string \<Rightarrow> json \<Rightarrow> 'r \<Rightarrow> goerr option \<times> 'r) \<Rightarrow> 'r \<Rightarrow>
    string \<Rightarrow> json \<Rightarrow> 'r list \<Rightarrow> goerr option \<times> 'r list" where
  "slice_setf name setf z k v old =
     (case match_field [name] k of
        None \<Rightarrow> (None, old)
      | Some f \<Rightarrow> (case v of JNull \<Rightarrow> (None, []) | JArr js \<Rightarrow> dec_structs setf z js | _ \<Rightarrow> (Some type_error, old)))"

definition list_result :: "string \<Rightarrow> string \<Rightarrow> (string \<Rightarrow> json \<Rightarrow> 'r \<Rightarrow> goerr option \<times> 'r) \<Rightarrow> 'r \<Rightarrow>
    client_response \<Rightarrow> goerr + 'r list" where
  "list_result what name setf z r =
     (if crCode r \<noteq> 0 then Inl (ErrText (what @ '' failed: '' @ crMessage r))
      else case crData r of
          None \<Rightarrow> Inr []
        | Some d \<Rightarrow> (case unmarshal_struct (slice_setf name setf z) (Doc d) [] of
              (Some e, _) \<Rightarrow> Inl (ErrText (''failed to unmarshal '' @ name @ '' data: '' @ err_text e))
            | (None, xs) \<Rightarrow> Inr xs))"

definition ListGateways :: "(int \<Rightarrow> int) \<Rightarrow> regenv \<Rightarrow> 'w http \<Rightarrow> ('w, goerr + gateway_info list) io" where
  "ListGateways f64 env h =
     on_call (doRequest f64 h ''GET'' ''/registry/gateway/instances'' None 2) (\<lambda>e. return (Inl e))
       (\<lambda>r. return (list_result ''list gateways'' ''gateways'' (gateway_item_setf env) zero_gateway r))"

section \<open>The send instance's client\<close>

definition Register_send :: "(int \<Rightarrow> int) \<Rightarrow> 'w http \<Rightarrow> string \<Rightarrow> string \<Rightarrow> int64 \<Rightarrow> ('w, goerr option) io" where
  "Register_send f64 h sid address port =
     no_error ''register'' (doRequest f64 h ''POST'' ''/registry/send/register''
       (Some (JObj [(''instance_id'', JStr sid), (''address'', JStr address), (''port'', json_of_int64 port)])) 2)"

definition Heartbeat_send :: "(int \<Rightarrow> int) \<Rightarrow> 'w http \<Rightarrow> string \<Rightarrow> ('w, goerr option) io" where
  "Heartbeat_send f64 h sid =
     no_error ''heartbeat'' (doRequest f64 h ''POST'' ''/registry/send/heartbeat''
       (Some (JObj [(''instance_id'', JStr sid)])) 2)"

definition Unregister_send :: "(int \<Rightarrow> int) \<Rightarrow> 'w http \<Rightarrow> string \<Rightarrow> ('w, goerr option) io" where
  "Unregister_send f64 h sid =
     no_error ''unregister'' (doRequest f64 h ''DELETE'' (''/registry/send/'' @ sid) None 2)"

definition send_item_setf :: "regenv \<Rightarrow> string \<Rightarrow> json \<Rightarrow> send_info \<Rightarrow> goerr option \<times> send_info" where
  "send_item_setf env k v g =
     (case match_field [''instance_id'', ''address'', ''port''] k of
        None \<Rightarrow> (None, g) | Some f \<Rightarrow> send_setf env f v g)"

definition ListSendInstances :: "(int \<Rightarrow> int) \<Rightarrow> regenv \<Rightarrow> 'w http \<Rightarrow> ('w, goerr + send_info list) io" where
  "ListSendInstances f64 env h =
     on_call (doRequest f64 h ''GET'' ''/registry/send/instances'' None 2) (\<lambda>e. return (Inl e))
       (\<lambda>r. return (list_result ''list send instances'' ''instances'' (send_item_setf env) zero_send r))"

text \<open>
  \<open>json.Unmarshal\<close> into a \<open>map[int64]*RouteInfo\<close>: keys are parsed as integers, \<open>null\<close> is a nil
  pointer (\<open>None\<close> below the key).
\<close>

definition route_info_setf :: "string \<Rightarrow> json \<Rightarrow> route_info \<Rightarrow> goerr option \<times> route_info" where
  "route_info_setf k v r =
     (case match_field [''gateway_id'', ''address''] k of
        None \<Rightarrow> (None, r)
      | Some f \<Rightarrow>
          if f = ''gateway_id'' then upd (\<lambda>r x. r\<lparr>riGatewayID := x\<rparr>) r (dec_string v (riGatewayID r))
          else upd (\<lambda>r x. r\<lparr>riAddress := x\<rparr>) r (dec_string v (riAddress r)))"

definition dec_route_info :: "json \<Rightarrow> goerr + route_info option" where
  "dec_route_info v =
     (if v = JNull then Inr None
      else (case unmarshal_struct route_info_setf (Doc v) \<lparr>riGatewayID = [], riAddress = []\<rparr> of
          (Some e, _) \<Rightarrow> Inl e | (None, r) \<Rightarrow> Inr (Some r)))"

fun dec_route_map :: "(string \<times> json) list \<Rightarrow> (int64 \<rightharpoonup> route_info option) \<Rightarrow> goerr + (int64 \<rightharpoonup> route_info option)" where
  "dec_route_map [] m = Inr m"
| "dec_route_map ((k, v) # kvs) m =
     (case ParseInt k of
        Inl e \<Rightarrow> Inl type_error
      | Inr u \<Rightarrow> (case dec_route_info v of Inl e \<Rightarrow> Inl e | Inr r \<Rightarrow> dec_route_map kvs (m(u \<mapsto> r))))"

definition QueryUserRoutes :: "(int \<Rightarrow> int) \<Rightarrow> 'w http \<Rightarrow> int64 list \<Rightarrow> ('w, goerr + (int64 \<rightharpoonup> route_info option)) io" where
  "QueryUserRoutes f64 h us =
     on_call (doRequest f64 h ''POST'' ''/registry/user/routes/batch''
         (Some (JObj [(''user_ids'', JArr (map json_of_int64 us))])) 2)
       (\<lambda>e. return (Inl e))
       (\<lambda>r. return
          (if crCode r \<noteq> 0 then Inl (ErrText (''query user routes failed: '' @ crMessage r))
           else case crData r of
               None \<Rightarrow> Inr Map.empty
             | Some (JObj kvs) \<Rightarrow> dec_route_map kvs Map.empty
             | Some d \<Rightarrow> Inl (ErrText ''failed to unmarshal route data: '')))"

section \<open>The registry's router\<close>

text \<open>A handler that needs no body is given none; other paths are gin's 404.\<close>

definition path_param :: "string \<Rightarrow> string \<Rightarrow> string option" where
  "path_param prefix path =
     (let rest = drop (length prefix) path in
      if take (length prefix) path = prefix \<and> rest \<noteq> [] \<and> CHR ''/'' \<notin> set rest then Some rest else None)"

definition registry_route ::
  "regenv \<Rightarrow> 'w redis \<Rightarrow> string \<Rightarrow> string \<Rightarrow> string \<Rightarrow> wire \<Rightarrow> ('w, nat \<times> wire) io" where
  "registry_route env rd now meth path body w =
     (let out = (\<lambda>(r, w'). (reply_body r, w')); not_found = ((404, Raw ''404 page not found''), w) in
      if meth = ''GET'' then
        if path = ''/ping'' then (reply_body (ReplySuccess ''pong''), w)
        else if path = ''/health'' then (case HealthCheckHandler rd w of ((st, d), w') \<Rightarrow> ((st, Doc d), w'))
        else if path = ''/registry/gateway/instances'' then out (ListGatewaysHandler env rd w)
        else if path = ''/registry/send/instances'' then out (ListInstancesHandler env rd w)
        else if path = ''/registry/send/available'' then out (GetAvailableSendHandler env rd w)
        else not_found
      else if meth = ''POST'' then
        if path = ''/registry/gateway/register'' then out (RegisterHandler_gw env rd now body w)
        else if path = ''/registry/gateway/heartbeat'' then out (HeartbeatHandler_gw env rd now body w)
        else if path = ''/registry/send/register'' then out (RegisterHandler_send env rd now body w)
        else if path = ''/registry/send/heartbeat'' then out (HeartbeatHandler_send env rd now body w)
        else if path = ''/registry/user/connect'' then
          (case ConnectHandler env rd now body w of ((r, _), w') \<Rightarrow> (reply_body r, w'))
        else if path = ''/registry/user/disconnect'' then out (DisconnectHandler env rd body w)
        else if path = ''/registry/user/routes/batch'' then out (BatchQueryRoutesHandler env rd body w)
        else not_found
      else if meth = ''DELETE'' then
        (case path_param ''/registry/gateway/'' path of
           Some gid \<Rightarrow> out (UnregisterHandler_gw rd gid w)
         | None \<Rightarrow> (case path_param ''/registry/send/'' path of
             Some sid \<Rightarrow> out (UnregisterHandler_send rd sid w)
           | None \<Rightarrow> not_found))
      else not_found)"

text \<open>A connection that delivers every request to the registry and every reply back.\<close>

definition registry_http :: "regenv \<Rightarrow> 'w redis \<Rightarrow> string \<Rightarrow> string \<Rightarrow> 'w http" where
  "registry_http env rd now base = \<lparr>baseURL = base, hDo = (\<lambda>meth url body w.
     (case registry_route env rd now meth (drop (length base) url)
         (case body of None \<Rightarrow> Raw [] | Some b \<Rightarrow> b) w of (r, w') \<Rightarrow> (Inr r, w')))\<rparr>"

lemma registry_serves:
  "serves (registry_http env rd now base) ''POST'' ''/registry/gateway/register'' (Some b) (RegisterHandler_gw env rd now (Doc b))"
  "serves (registry_http env rd now base) ''POST'' ''/registry/gateway/heartbeat'' (Some b) (HeartbeatHandler_gw env rd now (Doc b))"
  "serves (registry_http env rd now base) ''POST'' ''/registry/user/routes/batch'' (Some b) (BatchQueryRoutesHandler env rd (Doc b))"
  by (simp_all add: serves_def registry_http_def registry_route_def Let_def split_def)

section \<open>Bodies that client and server agree on\<close>

lemma match_register_keys [simp]:
  "match_field [''gateway_id'', ''address'', ''port'', ''capacity''] ''gateway_id'' = Some ''gateway_id''"
  "match_field [''gateway_id'', ''address'', ''port'', ''capacity''] ''address'' = Some ''address''"
  "match_field [''gateway_id'', ''address'', ''port'', ''capacity''] ''port'' = Some ''port''"
  "match_field [''gateway_id'', ''address'', ''port'', ''capacity''] ''capacity'' = Some ''capacity''"
  "match_field [''gateway_id'', ''load'', ''connected_users''] ''gateway_id'' = Some ''gateway_id''"
  "match_field [''gateway_id'', ''load'', ''connected_users''] ''load'' = Some ''load''"
  "match_field [''gateway_id'', ''load'', ''connected_users''] ''connections'' = None"
  "match_field [''gateway_id'', ''load'', ''connected_users''] ''cpu'' = None"
  "match_field [''gateway_id'', ''load'', ''connected_users''] ''memory'' = None"
  "match_field [''user_ids''] ''user_ids'' = Some ''user_ids''"
  "match_field [''gateway_id'', ''address''] ''gateway_id'' = Some ''gateway_id''"
  "match_field [''gateway_id'', ''address''] ''address'' = Some ''address''"
  by code_simp+

lemma bind_register_body [simp]:
  "gid \<noteq> [] \<Longrightarrow> address \<noteq> [] \<Longrightarrow> port \<noteq> 0 \<Longrightarrow> capacity \<noteq> 0 \<Longrightarrow>
   bind_register (Doc (gateway_register_body gid address port capacity)) =
     Inr \<lparr>rrID = gid, rrAddress = address, rrPort = port, rrCapacity = capacity\<rparr>"
  by (simp add: bind_register_def bind_json_def unmarshal_struct_def gateway_register_body_def register_setf_def)

lemma bind_heartbeat_body:
  assumes "gid \<noteq> []" "float_text env (JFloat load) = Some load"
  shows "bind_heartbeat env (Doc (gateway_heartbeat_body gid load connections cpu memory)) =
     Inr \<lparr>hrID = gid, hrLoad = load, hrConnected = 0\<rparr>"
  using assms
  by (simp add: bind_heartbeat_def bind_json_def unmarshal_struct_def gateway_heartbeat_body_def
      heartbeat_setf_def dec_float_def)

lemma bind_batch_body [simp]:
  "bind_batch (Doc (JObj [(''user_ids'', JArr (map json_of_int64 us))])) = Inr us"
  by (simp add: bind_batch_def bind_json_def unmarshal_struct_def batch_setf_def)

lemma UpdateHeartbeat_view:
  assumes laws: "store_laws rd vw" and run: "UpdateHeartbeat env rd now req w = (None, w')"
  obtains info where "stored_gateway env (vw w) (hrID req) = Some info"
    "kv (vw w') (gatewayInfoPrefix @ hrID req) =
       Some (Doc (gateway_json (info\<lparr>giLoad := hrLoad req, giConnected := hrConnected req, giHeartbeat := now\<rparr>)))"
proof -
  from run [unfolded UpdateHeartbeat_def Let_def] obtain data w1 where
    g: "GetWithRetry rd 2 (gatewayInfoPrefix @ hrID req) w = (Inr data, w1)"
    and c: "(case gateway_unmarshal env data of
            (Some e, _) \<Rightarrow> return (Some ErrInvalidGatewayData)
          | (None, info) \<Rightarrow>
              on_call (SetEXWithRetry rd 2 (gatewayInfoPrefix @ hrID req) (Doc (gateway_json
                  (info\<lparr>giLoad := hrLoad req, giConnected := hrConnected req, giHeartbeat := now\<rparr>))) (gateway_ttl env))
                (\<lambda>e. return (Some e))
                (\<lambda>_. on_call (ZAddWithRetry rd 2 gatewayRankingKey (ranking_score env (hrLoad req)) (hrID req))
                   (\<lambda>e. return (Some e)) (\<lambda>_. return None))) w1 = (None, w')"
    by (elim on_callE) auto
  from Get_reads [OF laws g] have v: "vw w1 = vw w" "kv (vw w) (gatewayInfoPrefix @ hrID req) = Some data"
    by (simp_all add: get_reply_def)
  from c obtain info where info: "gateway_unmarshal env data = (None, info)"
    by (cases "gateway_unmarshal env data"; cases "fst (gateway_unmarshal env data)") auto
  with c obtain w2 w3 where
    s: "SetEXWithRetry rd 2 (gatewayInfoPrefix @ hrID req) (Doc (gateway_json
         (info\<lparr>giLoad := hrLoad req, giConnected := hrConnected req, giHeartbeat := now\<rparr>))) (gateway_ttl env) w1 = (Inr (), w2)"
    and z: "ZAddWithRetry rd 2 gatewayRankingKey (ranking_score env (hrLoad req)) (hrID req) w2 = (Inr (), w')"
    by (auto elim!: on_callE)
  have "kv (vw w') = kv (vw w2)"
    using mutatesD(1) [OF retried(5) [OF laws] z] by simp
  with SetEX_done [OF laws s] v info show ?thesis
    by (intro that [of info]) (auto simp: stored_gateway_def)
qed

section \<open>Properties\<close>

text \<open>
  The heartbeat a gateway sends through the HTTP client reaches \<open>UpdateHeartbeat\<close> with its id and
  load but with no users: whatever number of connections it reports, the registry stores zero
  connected users, because the client's key is \<open>connections\<close> and the server reads
  \<open>connected_users\<close>. So a gateway with a positive capacity never counts as full.
\<close>

theorem heartbeat_reports_no_users:
  assumes laws: "store_laws rd vw" and gid: "gid \<noteq> []" and load: "float_text env (JFloat load) = Some load"
    and srv: "UpdateHeartbeat env rd now \<lparr>hrID = gid, hrLoad = load, hrConnected = 0\<rparr> w = (None, w')"
    and now: "time_ok env now"
  shows "Heartbeat_gw f64 (registry_http env rd now base) gid load connections cpu memory w = (None, w')
    \<and> (\<exists>info. stored_gateway env (vw w') gid = Some info \<and> giConnected info = 0 \<and> giLoad info = load)"
proof -
  have "HeartbeatHandler_gw env rd now (Doc (gateway_heartbeat_body gid load connections cpu memory)) w
      = (ReplySuccess ''Heartbeat updated successfully'', w')"
    using srv by (simp add: HeartbeatHandler_gw_def bind_heartbeat_body [OF gid load])
  from doRequest_serves_ok [OF registry_serves(2) this]
  have "Heartbeat_gw f64 (registry_http env rd now base) gid load connections cpu memory w = (None, w')"
    by (simp add: Heartbeat_gw_def no_error_def on_call_def reply_defs)
  moreover obtain info where "kv (vw w') (gatewayInfoPrefix @ gid) =
       Some (Doc (gateway_json (info\<lparr>giLoad := load, giConnected := 0, giHeartbeat := now\<rparr>)))"
    using UpdateHeartbeat_view [OF laws srv] by auto
  moreover have "readable env (info\<lparr>giLoad := load, giConnected := 0, giHeartbeat := now\<rparr>)"
    using load now by (simp add: readable_def)
  ultimately show ?thesis by (auto simp: stored_gateway_def)
qed

text \<open>
  A registration sent through the HTTP client has the effect of \<open>RegisterGateway\<close> on the server
  with the same fields, and reports its success.
\<close>

theorem register_end_to_end:
  assumes "gid \<noteq> []" "address \<noteq> []" "port \<noteq> 0" "capacity \<noteq> 0"
    and srv: "RegisterGateway env rd now
        \<lparr>rrID = gid, rrAddress = address, rrPort = port, rrCapacity = capacity\<rparr> w = (None, w')"
  shows "Register_gw f64 (registry_http env rd now base) gid address port capacity w = (None, w')"
proof -
  have "RegisterHandler_gw env rd now (Doc (gateway_register_body gid address port capacity)) w
      = (ReplySuccess ''Gateway registered successfully'', w')"
    using assms by (simp add: RegisterHandler_gw_def)
  from doRequest_serves_ok [OF registry_serves(1) this] show ?thesis
    by (simp add: Register_gw_def no_error_def on_call_def reply_defs)
qed

section \<open>Routes across the wire\<close>

lemma obj_insert_map: "map_of (obj_insert k v kvs) = (map_of kvs)(k \<mapsto> v)"
  by (induction kvs) auto

lemma obj_insert_keys: "fst ` set (obj_insert k v kvs) = insert k (fst ` set kvs)"
  by (induction k v kvs rule: obj_insert.induct) (simp_all add: insert_commute)

lemma obj_insert_sorted:
  "sorted_wrt (<) (map fst kvs) \<Longrightarrow> sorted_wrt (<) (map fst (obj_insert k v kvs))"
proof (induction kvs)
  case Nil
  then show ?case by simp
next
  case (Cons kv kvs)
  obtain k' v' where kv: "kv = (k', v')" by force
  have "\<forall>x \<in> fst ` set (obj_insert k v kvs). k' < x" if "k' < k"
    unfolding obj_insert_keys using that Cons.prems kv by auto
  with Cons kv show ?case by (auto dest: less_trans)
qed

lemma obj_canon_fold:
  "map_of (fold (\<lambda>(k, v) m. obj_insert k v m) kvs m0) = map_of m0 ++ map_of (rev kvs)
   \<and> (sorted_wrt (<) (map fst m0) \<longrightarrow> sorted_wrt (<) (map fst (fold (\<lambda>(k, v) m. obj_insert k v m) kvs m0)))"
proof (induction kvs arbitrary: m0)
  case Nil
  then show ?case by simp
next
  case (Cons kv kvs)
  obtain k v where kv: "kv = (k, v)" by force
  show ?case
    using Cons.IH [of "obj_insert k v m0"] obj_insert_sorted [of m0 k v]
    by (auto simp: kv obj_insert_map map_add_def fun_eq_iff split: option.splits)
qed

lemma obj_canon_map: "map_of (obj_canon kvs) = map_of (rev kvs)"
  using obj_canon_fold [of kvs "[]"] by (simp add: obj_canon_def)

lemma obj_canon_distinct: "distinct (map fst (obj_canon kvs))"
  using obj_canon_fold [of kvs "[]"] by (simp add: obj_canon_def strict_sorted_iff)

lemma map_of_rev_distinct: "distinct (map fst kvs) \<Longrightarrow> map_of (rev kvs) = map_of kvs"
  by (rule map_of_inject_set [THEN iffD2]) (simp_all add: rev_map [symmetric])

definition route_obj :: "route_info \<Rightarrow> json" where
  "route_obj r = JObj [(''gateway_id'', JStr (riGatewayID r)), (''address'', JStr (riAddress r))]"

definition route_obj' :: "route_info \<Rightarrow> json" where
  "route_obj' r = JObj [(''address'', JStr (riAddress r)), (''gateway_id'', JStr (riGatewayID r))]"

lemma iface_route_obj: "iface f64 (route_obj r) = route_obj' r"
proof -
  have "''gateway_id'' \<noteq> ''address''" "\<not> (''gateway_id'' < ''address'')" "''address'' < ''gateway_id''"
    by code_simp+
  then show ?thesis by (simp add: route_obj_def route_obj'_def obj_canon_def)
qed

lemma dec_route_obj: "dec_route_info (route_obj' r) = Inr (Some r)"
  by (simp add: dec_route_info_def route_obj'_def unmarshal_struct_def route_info_setf_def)

lemma dec_route_map_objs:
  assumes "\<forall>(k, v) \<in> set L. \<exists>u r. k = FormatInt u \<and> v = route_obj' r" "distinct (map fst L)"
  shows "\<exists>m'. dec_route_map L m0 = Inr m'
    \<and> (\<forall>u r. map_of L (FormatInt u) = Some (route_obj' r) \<longrightarrow> m' u = Some (Some r))
    \<and> (\<forall>u. map_of L (FormatInt u) = None \<longrightarrow> m' u = m0 u)"
  using assms
proof (induction L arbitrary: m0)
  case Nil
  then show ?case by simp
next
  case (Cons kv L)
  then obtain u r where kv: "kv = (FormatInt u, route_obj' r)" by (cases kv) auto
  from Cons have "\<forall>(k, v) \<in> set L. \<exists>u r. k = FormatInt u \<and> v = route_obj' r" "distinct (map fst L)" by auto
  from Cons.IH [OF this, of "m0(u \<mapsto> Some r)"] obtain m' where
    m': "dec_route_map L (m0(u \<mapsto> Some r)) = Inr m'"
      "\<forall>u r. map_of L (FormatInt u) = Some (route_obj' r) \<longrightarrow> m' u = Some (Some r)"
      "\<forall>v. map_of L (FormatInt v) = None \<longrightarrow> m' v = (m0(u \<mapsto> Some r)) v" by blast
  have "map_of L (FormatInt u) = None" using Cons.prems(2) kv by (simp add: map_of_eq_None_iff)
  then have "m' u = Some (Some r)" using m'(3) by simp
  moreover have "r' = r" if "route_obj' r' = route_obj' r" for r'
    using that by (simp add: route_obj'_def)
  ultimately show ?case using m' kv by (intro exI [of _ m']) (auto simp: dec_route_obj)
qed

definition route_entries :: "int64 list \<Rightarrow> (int64 \<rightharpoonup> route_info) \<Rightarrow> (string \<times> json) list" where
  "route_entries us m = concat (map (\<lambda>u. case m u of None \<Rightarrow> [] | Some r \<Rightarrow> [(FormatInt u, route_obj r)]) us)"

lemma routes_json_entries: "routes_json us m = JObj (obj_canon (route_entries us m))"
  unfolding routes_json_def route_entries_def route_obj_def ..

lemma map_of_route_entries:
  "map_of (rev (route_entries us m)) (FormatInt u) = (if u \<in> set us then map_option route_obj (m u) else None)"
  by (induction us) (auto simp: route_entries_def map_add_def split: option.splits)

text \<open>
  A batch lookup through the HTTP client returns for every user the entry that
  \<open>BatchGetUserRoutes\<close> found on the server, and no others; the empty query is refused by the server.
\<close>

theorem query_routes_end_to_end:
  assumes us: "us \<noteq> []" and dom: "dom m \<subseteq> set us"
    and srv: "BatchGetUserRoutes env rd us w = (Inr m, w')"
  shows "QueryUserRoutes f64 (registry_http env rd now base) us w = (Inr (\<lambda>u. map_option Some (m u)), w')"
proof -
  have h: "BatchQueryRoutesHandler env rd (Doc (JObj [(''user_ids'', JArr (map json_of_int64 us))])) w
      = (ReplySuccessWithData ''success'' (routes_json us m), w')"
    using us srv by (simp add: BatchQueryRoutesHandler_def on_call_def)
  let ?E = "route_entries us m"
  let ?L = "obj_canon (map (\<lambda>(k, v). (k, iface f64 v)) (obj_canon ?E))"
  have L: "map_of ?L k = map_option (iface f64) (map_of (rev ?E) k)" for k
  proof -
    have "map_of (rev (obj_canon ?E)) = map_of (obj_canon ?E)"
      using obj_canon_distinct by (rule map_of_rev_distinct)
    then show ?thesis by (simp add: obj_canon_map) (simp add: rev_map map_of_map)
  qed
  have "\<exists>u r. k = FormatInt u \<and> v = route_obj' r" if "(k, v) \<in> set ?L" for k v
  proof -
    have "map_of ?L k = Some v" using that obj_canon_distinct by simp
    then obtain v0 where "map_of (rev ?E) k = Some v0" "v = iface f64 v0" by (auto simp: L)
    moreover from this(1) have "(k, v0) \<in> set ?E" by (auto dest: map_of_SomeD)
    ultimately show ?thesis
      by (auto simp: route_entries_def iface_route_obj split: option.splits)
  qed
  then have all: "\<forall>(k, v) \<in> set ?L. \<exists>u r. k = FormatInt u \<and> v = route_obj' r" by blast
  obtain m' where m': "dec_route_map ?L Map.empty = Inr m'"
    "\<forall>u r. map_of ?L (FormatInt u) = Some (route_obj' r) \<longrightarrow> m' u = Some (Some r)"
    "\<forall>u. map_of ?L (FormatInt u) = None \<longrightarrow> m' u = None"
    using dec_route_map_objs [OF all obj_canon_distinct, of Map.empty] by auto
  have "m' u = map_option Some (m u)" for u
    using m'(2,3) dom by (cases "m u") (auto simp: L map_of_route_entries iface_route_obj)
  then have "m' = (\<lambda>u. map_option Some (m u))" by blast
  moreover have "iface f64 (routes_json us m) = JObj ?L" "routes_json us m \<noteq> JNull"
    by (simp_all add: routes_json_entries)
  ultimately show ?thesis
    using doRequest_serves_ok [OF registry_serves(3) h] m'(1)
    by (simp add: QueryUserRoutes_def on_call_def reply_defs)
qed

section \<open>Witnesses\<close>

theorem heartbeat_reports_no_users_witness:
  "\<exists>w'. Heartbeat_gw (\<lambda>n. n) (registry_http demo_env mem_redis ''t'' ''http://r'') ''g1'' ''0.5'' 37 ''0'' 0 demo_routed = (None, w')
     \<and> (\<exists>info. stored_gateway demo_env (mem_store w') ''g1'' = Some info \<and> giConnected info = 0 \<and> giLoad info = ''0.5'')"
proof -
  have kv: "m_kv demo_routed (gatewayInfoPrefix @ ''g1'') = Some (Doc (gateway_json (registered_info ''t'' (demo_req ''g1'')\<lparr>giConnected := 1\<rparr>)))"
    by (simp add: demo_routed_def)
  have rd: "readable demo_env (registered_info ''t'' (demo_req ''g1'')\<lparr>giConnected := 1\<rparr>)"
    by (simp add: readable_def demo_env_def registered_info_def)
  have "\<exists>w'. UpdateHeartbeat demo_env mem_redis ''t'' \<lparr>hrID = ''g1'', hrLoad = ''0.5'', hrConnected = 0\<rparr> demo_routed = (None, w')"
    by (simp add: UpdateHeartbeat_def on_call_def GetWithRetry_def SetEXWithRetry_def ZAddWithRetry_def
        numeral_2_eq_2 mem_redis_def mem_read_def mem_write_def demo_routed_simps kv rd Let_def)
  then obtain w' where srv: "UpdateHeartbeat demo_env mem_redis ''t'' \<lparr>hrID = ''g1'', hrLoad = ''0.5'', hrConnected = 0\<rparr> demo_routed = (None, w')" by blast
  from heartbeat_reports_no_users [OF mem_store_laws _ _ srv, of "\<lambda>n. n" "''http://r''" 37 "''0''" 0]
  show ?thesis by (auto simp: demo_env_def)
qed

theorem register_end_to_end_witness:
  "\<exists>w'. Register_gw (\<lambda>n. n) (registry_http demo_env mem_redis ''t'' ''http://r'') ''g1'' ''10.0.0.1'' 8080 1 mem_empty = (None, w')"
proof -
  have "m_faults mem_empty = []" by (simp add: mem_empty_def)
  from demo_register [OF this, of "''g1''"] obtain w' where
    "RegisterGateway demo_env mem_redis ''t'' \<lparr>rrID = ''g1'', rrAddress = ''10.0.0.1'', rrPort = 8080, rrCapacity = 1\<rparr> mem_empty = (None, w')"
    by (auto simp: demo_req_def)
  from register_end_to_end [OF _ _ _ _ this, of "\<lambda>n. n" "''http://r''"] show ?thesis by auto
qed

theorem query_routes_end_to_end_witness:
  "\<exists>w'. QueryUserRoutes (\<lambda>n. n) (registry_http demo_env mem_redis ''t'' ''http://r'') [7, 8] demo_routed
     = (Inr [7 \<mapsto> Some \<lparr>riGatewayID = ''g1'', riAddress = ''a''\<rparr>], w')"
proof -
  have kv: "m_kv demo_routed (route_key 7) = Some (Doc (route_json (demo_route ''g1'')))"
    "m_kv demo_routed (route_key 8) = None"
    by (simp_all add: demo_routed_def)
  have rd: "route_unmarshal demo_env (Doc (route_json (demo_route ''g1''))) = (None, demo_route ''g1'')"
    by (rule route_roundtrip) (simp add: demo_env_def demo_route_def)
  have srv: "BatchGetUserRoutes demo_env mem_redis [7, 8] demo_routed
      = (Inr [7 \<mapsto> \<lparr>riGatewayID = ''g1'', riAddress = ''a''\<rparr>], demo_routed)"
    by (simp add: BatchGetUserRoutes_def on_call_def MGetWithRetry_def swallow_def numeral_2_eq_2
        mem_redis_def mem_read_def demo_routed_simps kv rd) (simp add: demo_route_def)
  have "QueryUserRoutes (\<lambda>n. n) (registry_http demo_env mem_redis ''t'' ''http://r'') [7, 8] demo_routed
     = (Inr (\<lambda>u. map_option Some ([7 \<mapsto> \<lparr>riGatewayID = ''g1'', riAddress = ''a''\<rparr>] u)), demo_routed)"
    by (rule query_routes_end_to_end [OF _ _ srv]) simp_all
  then show ?thesis by (auto simp: fun_eq_iff)
qed

end
