(* ===== verification/Route.thy ===== *)
theory Route
  imports RegClient
begin

text \<open>
  \<open>internal/send/route\<close>: where a user is connected, from a local cache or the registry. The cache is
  ristretto, third-party code that may refuse or evict entries at will: the record \<open>rcache\<close> of its
  operations is a parameter, with the counters that it keeps. A nil entry in the registry's answer is dereferenced, a panic of the
  process.
\<close>

section \<open>Cache\<close>

record cache_metrics =
  cmHits :: "64 word"
  cmMisses :: "64 word"
  cmRatio :: string
  cmKeysAdded :: "64 word"
  cmKeysUpdated :: "64 word"
  cmKeysEvicted :: "64 word"
  cmCostAdded :: "64 word"
  cmCostEvicted :: "64 word"

record 'w rcache =
  cacheGet :: "int64 \<Rightarrow> ('w, route_info option) io"
  cacheSet :: "int64 \<Rightarrow> route_info \<Rightarrow> int \<Rightarrow> ('w, unit) io"
  cacheDel :: "int64 \<Rightarrow> ('w, unit) io"
  cacheClear :: "('w, unit) io"
  cacheClose :: "('w, unit) io"
  cacheMetrics :: "'w \<Rightarrow> cache_metrics"

definition LocalRouteCacheTTL :: int where
  "LocalRouteCacheTTL = 60"

record 'w route_service =
  localCache :: "'w rcache option"
  registryClient :: "'w http option"
  floatRead :: "int \<Rightarrow> int"

definition cache_get :: "'w rcache option \<Rightarrow> int64 \<Rightarrow> ('w, route_info option) io" where
  "cache_get c u w = (case c of None \<Rightarrow> (None, w) | Some rc \<Rightarrow> cacheGet rc u w)"

definition cache_set :: "'w rcache option \<Rightarrow> int64 \<Rightarrow> route_info \<Rightarrow> ('w, unit) io" where
  "cache_set c u r w = (case c of None \<Rightarrow> ((), w) | Some rc \<Rightarrow> cacheSet rc u r LocalRouteCacheTTL w)"

section \<open>Lookups\<close>

definition GetUserGateway :: "'w route_service \<Rightarrow> int64 \<Rightarrow> ('w, goerr + route_info) proc" where
  "GetUserGateway rs u =
     then_do (run_io (cache_get (localCache rs) u))
       (\<lambda>hit. case hit of
           Some entry \<Rightarrow> returns (Inr entry)
         | None \<Rightarrow>
             (case registryClient rs of
                None \<Rightarrow> returns (Inl ErrRegistryNotReady)
              | Some h \<Rightarrow>
                  then_do (run_io (QueryUserRoutes (floatRead rs) h [u]))
                    (\<lambda>r. case r of
                        Inl e \<Rightarrow> returns (Inl e)
                      | Inr routes \<Rightarrow>
                          (case routes u of
                             None \<Rightarrow> returns (Inl ErrUserOffline)
                           | Some None \<Rightarrow> (\<lambda>w. Inl Panicked)
                           | Some (Some info) \<Rightarrow>
                               then_do (run_io (cache_set (localCache rs) u info)) (\<lambda>_. returns (Inr info))))))"

text \<open>The cache is asked for every user in order; the hits are collected, the misses kept in order.\<close>

fun split_cached :: "'w rcache option \<Rightarrow> int64 list \<Rightarrow> (int64 \<rightharpoonup> route_info) \<Rightarrow> int64 list \<Rightarrow>
    ('w, (int64 \<rightharpoonup> route_info) \<times> int64 list) io" where
  "split_cached c [] m miss w = ((m, miss), w)"
| "split_cached c (u # us) m miss w =
     (case cache_get c u w of
        (Some entry, w1) \<Rightarrow> split_cached c us (m(u \<mapsto> entry)) miss w1
      | (None, w1) \<Rightarrow> split_cached c us m (miss @ [u]) w1)"

text \<open>The answer's entries are merged in the order in which Go walks the map, \<open>us\<close>.\<close>

fun merge_routes :: "'w rcache option \<Rightarrow> int64 list \<Rightarrow> (int64 \<rightharpoonup> route_info option) \<Rightarrow>
    (int64 \<rightharpoonup> route_info) \<Rightarrow> ('w, int64 \<rightharpoonup> route_info) proc" where
  "merge_routes c [] routes m w = Inr (m, w)"
| "merge_routes c (u # us) routes m w =
     (case routes u of
        None \<Rightarrow> merge_routes c us routes m w
      | Some None \<Rightarrow> Inl Panicked
      | Some (Some info) \<Rightarrow>
          (case cache_set c u info w of (_, w1) \<Rightarrow> merge_routes c us routes (m(u \<mapsto> info)) w1))"

definition BatchGetUserGateways :: "((int64 \<rightharpoonup> route_info option) \<Rightarrow> int64 list) \<Rightarrow> 'w route_service \<Rightarrow> int64 list \<Rightarrow>
    ('w, goerr option \<times> (int64 \<rightharpoonup> route_info)) proc" where
  "BatchGetUserGateways walk rs us =
     (case registryClient rs of
        None \<Rightarrow> returns (Some ErrRegistryNotReady, Map.empty)
      | Some h \<Rightarrow>
          then_do (run_io (split_cached (localCache rs) us Map.empty []))
            (\<lambda>(m, miss). if miss = [] then returns (None, m)
               else then_do (run_io (QueryUserRoutes (floatRead rs) h miss))
                 (\<lambda>r. case r of
                     Inl e \<Rightarrow> returns (Some e, m)
                   | Inr routes \<Rightarrow>
                       then_do (merge_routes (localCache rs) (walk routes) routes m)
                         (\<lambda>m'. returns (None, m')))))"

definition InvalidateCache :: "'w route_service \<Rightarrow> int64 \<Rightarrow> ('w, unit) io" where
  "InvalidateCache rs u w = (case localCache rs of None \<Rightarrow> ((), w) | Some rc \<Rightarrow> cacheDel rc u w)"

definition ClearCache :: "'w route_service \<Rightarrow> ('w, unit) io" where
  "ClearCache rs w = (case localCache rs of None \<Rightarrow> ((), w) | Some rc \<Rightarrow> cacheClear rc w)"

definition CloseCache :: "'w rcache \<Rightarrow> ('w, unit) io" where
  "CloseCache rc = cacheClose rc"

section \<open>Statistics\<close>

text \<open>\<open>int(metrics.KeysAdded() - metrics.KeysEvicted())\<close>: both are \<open>uint64\<close>, the difference wraps.\<close>

definition cache_size :: "cache_metrics \<Rightarrow> int64" where
  "cache_size m = cmKeysAdded m - cmKeysEvicted m"

text \<open>A \<open>map[string]interface{}\<close>, by its sorted keys; a \<open>uint64\<close> prints unsigned, \<open>size\<close> is an \<open>int\<close>.\<close>

definition GetCacheStats :: "'w route_service \<Rightarrow> 'w \<Rightarrow> (string \<times> json) list" where
  "GetCacheStats rs w =
     (case localCache rs of
        None \<Rightarrow> [(''initialized'', JBool False), (''size'', JInt 0)]
      | Some rc \<Rightarrow>
          let m = cacheMetrics rc w in
          [(''cost_added'', JInt (uint (cmCostAdded m))), (''cost_evicted'', JInt (uint (cmCostEvicted m))),
           (''hit_ratio'', JFloat (cmRatio m)), (''hits'', JInt (uint (cmHits m))),
           (''keys_added'', JInt (uint (cmKeysAdded m))), (''keys_evicted'', JInt (uint (cmKeysEvicted m))),
           (''keys_updated'', JInt (uint (cmKeysUpdated m))), (''misses'', JInt (uint (cmMisses m))),
           (''size'', json_of_int64 (cache_size m)), (''ttl_seconds'', JInt LocalRouteCacheTTL)])"

lemma cache_size_small:
  assumes "uint (cmKeysEvicted m) \<le> uint (cmKeysAdded m)" "uint (cmKeysAdded m) < 2 ^ 63"
  shows "sint (cache_size m) = uint (cmKeysAdded m) - uint (cmKeysEvicted m)"
proof -
  let ?d = "uint (cmKeysAdded m) - uint (cmKeysEvicted m)"
  have d: "0 \<le> ?d" "?d < 2 ^ 63" using assms uint_ge_0 [of "cmKeysEvicted m"] by linarith+
  have "cache_size m = word_of_int ?d" by (simp add: cache_size_def)
  then have "sint (cache_size m) = of_int (signed_take_bit (LENGTH(64) - Suc 0) ?d)" by (simp only: signed_of_int)
  also have "\<dots> = ?d" using d signed_take_bit_int_eq_self [of 63 ?d] by simp
  finally show ?thesis .
qed

end
