(* ===== verification/SendPush.thy ===== *)
theory SendPush
  imports Route Messages Pending
begin

text \<open>
  \<open>internal/send/push/dispatcher_gateway.go\<close> with the offline queue of \<open>channel_cache.go\<close>: a message
  is split into batches of 100 targets, a worker groups each batch by the gateways of its users and
  appends it to the gateways' streams, users without a gateway get the message into their offline
  list, and every target is reported to the pending manager, which at the end acknowledges the
  message to its sender. Choices that Go leaves open, the order in which maps are walked and
  whether a full queue accepts in time, are arguments.
\<close>

section \<open>State\<close>

record 'w send_proc =
  sp_world :: 'w
  sp_pm :: pending_manager
  msg2sender :: "int64 \<rightharpoonup> int64"
  gatewayQueue :: "push_message list"
  offlineMsg :: "int64 \<rightharpoonup> wire list"

record 'w send_deps =
  clients :: "'w redis role_clients"
  routing :: "'w route_service"
  walkRoutes :: "(int64 \<rightharpoonup> route_info option) \<Rightarrow> int64 list"
  walkGroups :: "(string \<times> int64 list) list \<Rightarrow> (string \<times> int64 list) list"

definition in_world :: "('w, 'a) proc \<Rightarrow> ('w send_proc, 'a) proc" where
  "in_world m s = (case m (sp_world s) of Inl h \<Rightarrow> Inl h | Inr (v, w) \<Rightarrow> Inr (v, s\<lparr>sp_world := w\<rparr>))"

definition redis_call :: "('w, goerr + 'a) io \<Rightarrow> ('w send_proc, goerr + 'a) proc" where
  "redis_call m = in_world (run_io m)"

section \<open>Offline messages\<close>

definition offline_key :: "int64 \<Rightarrow> string" where
  "offline_key u = ''offline:push:'' @ FormatInt u"

text \<open>
  The fallback when Redis is down: a channel of capacity 100 per user that no code receives from,
  so the send that finds it full blocks for ever.
\<close>

definition InsertOfflineMsg :: "int64 \<Rightarrow> wire \<Rightarrow> ('w send_proc, unit) proc" where
  "InsertOfflineMsg u msg s =
     (let buf = (case offlineMsg s u of None \<Rightarrow> [] | Some b \<Rightarrow> b) in
      if length buf < 100 then Inr ((), s\<lparr>offlineMsg := (offlineMsg s)(u \<mapsto> buf @ [msg])\<rparr>) else Inl Blocked)"

definition InsertOfflineQueue :: "'w send_deps \<Rightarrow> int64 \<Rightarrow> wire \<Rightarrow> ('w send_proc, unit) proc" where
  "InsertOfflineQueue d u msg =
     then_do (redis_call (SendQueueRPushWithRetry (clients d) 2 (offline_key u) msg))
       (\<lambda>r. case r of Inl e \<Rightarrow> InsertOfflineMsg u msg | Inr _ \<Rightarrow> returns ())"

section \<open>Sending to a gateway\<close>

definition stream_name :: "string \<Rightarrow> string" where
  "stream_name gid = gid @ ''_stream''"

definition sendToGatewayWithRedisStream ::
  "'w send_deps \<Rightarrow> string \<Rightarrow> push_message \<Rightarrow> ('w send_proc, goerr option) proc" where
  "sendToGatewayWithRedisStream d gid msg =
     (case send_push_json msg of
        Inl e \<Rightarrow> returns (Some e)
      | Inr j \<Rightarrow>
          then_do (redis_call (SendStreamXAddWithRetry (clients d) 2 (stream_name gid) (Doc j)))
            (\<lambda>r. returns (case r of Inl e \<Rightarrow> Some e | Inr _ \<Rightarrow> None)))"

definition PushSingleViaGateway :: "'w send_deps \<Rightarrow> int64 \<Rightarrow> client_message \<Rightarrow> ('w send_proc, goerr option) proc" where
  "PushSingleViaGateway d u msg =
     then_do (in_world (GetUserGateway (routing d) u))
       (\<lambda>r. case r of
           Inl e \<Rightarrow> returns (Some e)
         | Inr info \<Rightarrow> sendToGatewayWithRedisStream d (riGatewayID info)
             \<lparr>pID = cID msg, pType = cType msg, pRoomID = cRoomID msg, pSenderID = cSenderID msg,
              pTargetIDs = [u], pPayload = cPayload msg\<rparr>)"

section \<open>Acknowledgements\<close>

definition ack_message :: "int64 \<Rightarrow> client_message" where
  "ack_message msgID = \<lparr>cID = msgID, cType = ''ack'', cRoomID = 0, cSenderID = 0, cPayload = GoVal JNull\<rparr>"

definition SendACKToSender :: "'w send_deps \<Rightarrow> int64 \<Rightarrow> ('w send_proc, unit) proc" where
  "SendACKToSender d msgID s =
     (case msg2sender s msgID of
        None \<Rightarrow> Inr ((), s)
      | Some sender \<Rightarrow>
          then_do (PushSingleViaGateway d sender (ack_message msgID)) (\<lambda>_. returns ())
            (s\<lparr>msg2sender := (msg2sender s)(msgID := None)\<rparr>))"

definition OnFailMessage :: "int64 \<Rightarrow> int32 \<Rightarrow> ('w send_proc, unit) proc" where
  "OnFailMessage msgID failedCount s = Inr ((), s\<lparr>msg2sender := (msg2sender s)(msgID := None)\<rparr>)"

text \<open>Running the callbacks that a \<open>DoneN\<close> or \<open>FailN\<close> fires, in the caller's goroutine.\<close>

fun run_callback :: "'w send_deps \<Rightarrow> callback \<Rightarrow> ('w send_proc, unit) proc" where
  "run_callback d (CallDone Done_SendACKToSender k) = SendACKToSender d k"
| "run_callback d (CallDone _ k) = returns ()"
| "run_callback d (CallFail Fail_OnFailMessage k n) = OnFailMessage k n"
| "run_callback d (CallFail _ k n) = returns ()"

fun run_callbacks :: "'w send_deps \<Rightarrow> callback list \<Rightarrow> ('w send_proc, unit) proc" where
  "run_callbacks d [] = returns ()"
| "run_callbacks d (c # cs) = then_do (run_callback d c) (\<lambda>_. run_callbacks d cs)"

definition report_pm :: "'w send_deps \<Rightarrow> (pending_manager \<Rightarrow> pending_manager) \<Rightarrow> ('w send_proc, unit) proc" where
  "report_pm d f s =
     (let pm = sp_pm s; pm' = f pm in
      run_callbacks d (drop (length (fired pm)) (fired pm')) (s\<lparr>sp_pm := pm'\<rparr>))"

definition report_done :: "'w send_deps \<Rightarrow> int64 \<Rightarrow> nat \<Rightarrow> ('w send_proc, unit) proc" where
  "report_done d k n = (if 0 < n then report_pm d (\<lambda>pm. DoneN pm k (word_of_nat n)) else returns ())"

definition report_failed :: "'w send_deps \<Rightarrow> int64 \<Rightarrow> nat \<Rightarrow> ('w send_proc, unit) proc" where
  "report_failed d k n = (if 0 < n then report_pm d (\<lambda>pm. FailN pm k (word_of_nat n)) else returns ())"

section \<open>The worker\<close>

text \<open>
  First loop of \<open>gatewayWorker\<close>: users with a route are grouped by gateway (an association list in the
  order of first appearance), the others get the message offline. The results are the groups and the
  two counters.
\<close>

fun add_group :: "string \<Rightarrow> int64 \<Rightarrow> (string \<times> int64 list) list \<Rightarrow> (string \<times> int64 list) list" where
  "add_group g u [] = [(g, [u])]"
| "add_group g u ((g', us) # gs) = (if g = g' then (g', us @ [u]) # gs else (g', us) # add_group g u gs)"

fun sort_targets :: "'w send_deps \<Rightarrow> push_message \<Rightarrow> (int64 \<rightharpoonup> route_info) \<Rightarrow> int64 list \<Rightarrow>
    (string \<times> int64 list) list \<times> nat \<times> nat \<Rightarrow> ('w send_proc, (string \<times> int64 list) list \<times> nat \<times> nat) proc" where
  "sort_targets d msg routes [] acc s = Inr (acc, s)"
| "sort_targets d msg routes (u # us) (gs, nd, nf) s =
     (case routes u of
        Some info \<Rightarrow> sort_targets d msg routes us (add_group (riGatewayID info) u gs, nd, nf) s
      | None \<Rightarrow>
          (case client_json (client_of_push msg) of
             Inl e \<Rightarrow> sort_targets d msg routes us (gs, nd, Suc nf) s
           | Inr j \<Rightarrow>
               then_do (InsertOfflineQueue d u (Doc j))
                 (\<lambda>_. sort_targets d msg routes us (gs, Suc nd, nf)) s))"

text \<open>The fallback of a group whose stream refused the message: every user's offline list.\<close>

fun group_offline :: "'w send_deps \<Rightarrow> push_message \<Rightarrow> int64 list \<Rightarrow> nat \<times> nat \<Rightarrow> ('w send_proc, nat \<times> nat) proc" where
  "group_offline d msg [] acc s = Inr (acc, s)"
| "group_offline d msg (u # us) (nd, nf) s =
     (case client_json (client_of_push msg) of
        Inl e \<Rightarrow> group_offline d msg us (nd, Suc nf) s
      | Inr j \<Rightarrow>
          then_do (redis_call (SendQueueRPushWithRetry (clients d) 2 (offline_key u) (Doc j)))
            (\<lambda>r. group_offline d msg us (case r of Inl e \<Rightarrow> (nd, Suc nf) | Inr _ \<Rightarrow> (Suc nd, nf))) s)"

fun send_groups :: "'w send_deps \<Rightarrow> push_message \<Rightarrow> (string \<times> int64 list) list \<Rightarrow> ('w send_proc, unit) proc" where
  "send_groups d msg [] s = Inr ((), s)"
| "send_groups d msg ((g, us) # gs) s =
     then_do (sendToGatewayWithRedisStream d g (msg\<lparr>pTargetIDs := us\<rparr>))
       (\<lambda>r. then_do
          (case r of
             None \<Rightarrow> report_pm d (\<lambda>pm. DoneN pm (pID msg) (word_of_nat (length us)))
           | Some e \<Rightarrow>
               then_do (group_offline d msg us (0, 0))
                 (\<lambda>(nd, nf). then_do (report_done d (pID msg) nd) (\<lambda>_. report_failed d (pID msg) nf)))
          (\<lambda>_. send_groups d msg gs)) s"

definition gatewayWorker :: "'w send_deps \<Rightarrow> push_message \<Rightarrow> ('w send_proc, unit) proc" where
  "gatewayWorker d msg =
     then_do (in_world (BatchGetUserGateways (walkRoutes d) (routing d) (pTargetIDs msg)))
       (\<lambda>(e, m). then_do (sort_targets d msg (case e of None \<Rightarrow> m | Some _ \<Rightarrow> Map.empty) (pTargetIDs msg) ([], 0, 0))
         (\<lambda>(gs, nd, nf). then_do (report_done d (pID msg) nd)
           (\<lambda>_. then_do (report_failed d (pID msg) nf)
           (\<lambda>_. send_groups d msg (walkGroups d gs)))))"

section \<open>Dispatching\<close>

definition batchSize :: nat where
  "batchSize = 100"

text \<open>The batches \<open>TargetIDs[i:min(i+100, len)]\<close> for \<open>i = 0, 100, ..\<close>.\<close>

function batches :: "'a list \<Rightarrow> 'a list list" where
  "batches xs = (if xs = [] then [] else take batchSize xs # batches (drop batchSize xs))"
  by auto
termination by (relation "measure length") (auto simp: batchSize_def)

declare batches.simps [simp del]

text \<open>\<open>acc i\<close>: the queue accepts the batch \<open>i\<close> within its time-out.\<close>

fun enqueue_batches :: "(nat \<Rightarrow> bool) \<Rightarrow> nat \<Rightarrow> push_message \<Rightarrow> int64 list list \<Rightarrow> nat \<Rightarrow> 'w send_proc \<Rightarrow> nat \<times> 'w send_proc" where
  "enqueue_batches acc i msg [] dropped s = (dropped, s)"
| "enqueue_batches acc i msg (b # bs) dropped s =
     (if acc i then enqueue_batches acc (Suc i) msg bs dropped
           (s\<lparr>gatewayQueue := gatewayQueue s @ [msg\<lparr>pTargetIDs := b\<rparr>]\<rparr>)
      else enqueue_batches acc (Suc i) msg bs (dropped + length b) s)"

definition Dispatch_gateway :: "'w send_deps \<Rightarrow> (nat \<Rightarrow> bool) \<Rightarrow> push_message \<Rightarrow> ('w send_proc, goerr option) proc" where
  "Dispatch_gateway d acc msg s =
     (let s1 = s\<lparr>msg2sender := (msg2sender s)(pID msg \<mapsto> pSenderID msg),
                 sp_pm := Init (sp_pm s) (pID msg) (word_of_nat (length (pTargetIDs msg)))\<rparr>;
          (dropped, s2) = enqueue_batches acc 0 msg (batches (pTargetIDs msg)) 0 s1
      in then_do (report_failed d (pID msg) dropped) (\<lambda>_. returns None) s2)"

definition StartGatewayDispatcher :: "'w send_proc \<Rightarrow> 'w send_proc" where
  "StartGatewayDispatcher s =
     s\<lparr>sp_pm := SetFailFunc (SetDoneFunc (sp_pm s) Done_SendACKToSender) Fail_OnFailMessage, gatewayQueue := []\<rparr>"

text \<open>A worker taking the first message of the queue.\<close>

definition worker_step :: "'w send_deps \<Rightarrow> ('w send_proc, bool) proc" where
  "worker_step d s =
     (case gatewayQueue s of
        [] \<Rightarrow> Inr (False, s)
      | m # q \<Rightarrow> then_do (gatewayWorker d m) (\<lambda>_. returns True) (s\<lparr>gatewayQueue := q\<rparr>))"

text \<open>A worker emptying the queue; \<open>n\<close> bounds the messages it takes.\<close>

fun drain_queue :: "'w send_deps \<Rightarrow> nat \<Rightarrow> ('w send_proc, unit) proc" where
  "drain_queue d 0 s = Inr ((), s)"
| "drain_queue d (Suc n) s = then_do (worker_step d) (\<lambda>b. if b then drain_queue d n else returns ()) s"

section \<open>What leaves the pending manager alone\<close>

text \<open>\<open>quiet m\<close>: \<open>m\<close> changes neither the manager, nor the queue, nor the senders on record.\<close>

definition quiet :: "('w send_proc, 'a) proc \<Rightarrow> bool" where
  "quiet m \<longleftrightarrow> (\<forall>s v s'. m s = Inr (v, s') \<longrightarrow>
     sp_pm s' = sp_pm s \<and> gatewayQueue s' = gatewayQueue s \<and> msg2sender s' = msg2sender s)"

lemma quietD:
  "quiet m \<Longrightarrow> m s = Inr (v, s') \<Longrightarrow>
     sp_pm s' = sp_pm s \<and> gatewayQueue s' = gatewayQueue s \<and> msg2sender s' = msg2sender s"
  unfolding quiet_def by blast

lemma quiet_returns [intro]: "quiet (returns v)"
  by (simp add: quiet_def)

lemma quiet_then [intro]: "quiet m \<Longrightarrow> (\<And>v. quiet (k v)) \<Longrightarrow> quiet (then_do m k)"
  unfolding quiet_def by (metis then_doE)

lemma quiet_in_world [intro]: "quiet (in_world m)"
  by (auto simp: quiet_def in_world_def split: sum.splits)

lemma quiet_redis_call [intro]: "quiet (redis_call m)"
  by (auto simp: redis_call_def)

lemma quiet_InsertOfflineMsg [intro]: "quiet (InsertOfflineMsg u m)"
  by (auto simp: quiet_def InsertOfflineMsg_def Let_def split: if_splits)

lemma quiet_InsertOfflineQueue [intro]: "quiet (InsertOfflineQueue d u m)"
  unfolding InsertOfflineQueue_def by (intro quiet_then) (auto split: sum.split)

lemma quiet_send [intro]: "quiet (sendToGatewayWithRedisStream d g m)"
  unfolding sendToGatewayWithRedisStream_def by (auto split: sum.split)

lemma quiet_single [intro]: "quiet (PushSingleViaGateway d u m)"
  unfolding PushSingleViaGateway_def by (intro quiet_then) (auto split: sum.split)

text \<open>The callbacks change the senders on record only: they forget the message they are about.\<close>

definition installed :: "pending_manager \<Rightarrow> bool" where
  "installed pm \<longleftrightarrow> doneFunc pm = Done_SendACKToSender \<and> failFunc pm = Fail_OnFailMessage"

definition forgets :: "callback \<Rightarrow> bool" where
  "forgets c \<longleftrightarrow> (case c of CallDone f k \<Rightarrow> f = Done_SendACKToSender | CallFail f k n \<Rightarrow> f = Fail_OnFailMessage)"

lemma run_callback_effect:
  assumes "run_callback d c s = Inr (v, s')"
  shows "sp_pm s' = sp_pm s \<and> gatewayQueue s' = gatewayQueue s
    \<and> (\<forall>k. msg2sender s k = None \<longrightarrow> msg2sender s' k = None)
    \<and> (forgets c \<longrightarrow> msg2sender s' (about c) = None)"
proof (cases c)
  case (CallDone f k)
  show ?thesis
  proof (cases "f = Done_SendACKToSender \<and> msg2sender s k \<noteq> None")
    case True
    then obtain sender where k: "msg2sender s k = Some sender" and f: "f = Done_SendACKToSender" by auto
    have "quiet (then_do (PushSingleViaGateway d sender (ack_message k)) (\<lambda>_. returns ()))" by auto
    from quietD [OF this, of "s\<lparr>msg2sender := (msg2sender s)(k := None)\<rparr>" v s'] assms CallDone k f
    show ?thesis by (simp add: SendACKToSender_def forgets_def)
  next
    case False
    with assms CallDone show ?thesis
      by (cases f) (auto simp: SendACKToSender_def forgets_def)
  qed
next
  case (CallFail f k n)
  with assms show ?thesis by (cases f) (auto simp: OnFailMessage_def forgets_def)
qed

lemma run_callbacks_effect:
  "run_callbacks d cs s = Inr (v, s') \<Longrightarrow>
     sp_pm s' = sp_pm s \<and> gatewayQueue s' = gatewayQueue s
     \<and> (\<forall>k. msg2sender s k = None \<longrightarrow> msg2sender s' k = None)
     \<and> (\<forall>c \<in> set cs. forgets c \<longrightarrow> msg2sender s' (about c) = None)"
proof (induction cs arbitrary: s)
  case Nil
  then show ?case by simp
next
  case (Cons c cs)
  then obtain u s1 where "run_callback d c s = Inr (u, s1)" "run_callbacks d cs s1 = Inr (v, s')"
    by (auto elim: then_doE)
  from run_callback_effect [OF this(1)] Cons.IH [OF this(2)] show ?case by auto
qed

section \<open>Accounting\<close>

text \<open>
  \<open>settled k s\<close>: once a callback about \<open>k\<close> has been made (beyond the \<open>b\<close> made before), no sender is
  on record for \<open>k\<close>. \<open>accounts k n m\<close>: running \<open>m\<close> reports exactly \<open>n\<close> targets of \<open>k\<close>, in some
  sequence of reports on \<open>k\<close>.
\<close>

definition settled :: "nat \<Rightarrow> int64 \<Rightarrow> 'w send_proc \<Rightarrow> bool" where
  "settled b k s \<longleftrightarrow> (b < length (filter (\<lambda>c. about c = k) (fired (sp_pm s))) \<longrightarrow> msg2sender s k = None)"

definition step_ok :: "'w send_proc \<Rightarrow> 'w send_proc \<Rightarrow> bool" where
  "step_ok s s' \<longleftrightarrow> (installed (sp_pm s) \<longrightarrow> installed (sp_pm s'))
     \<and> (\<forall>b k. installed (sp_pm s) \<longrightarrow> settled b k s \<longrightarrow> settled b k s')"

lemma step_ok_refl [intro, simp]: "step_ok s s"
  by (simp add: step_ok_def)

lemma step_ok_trans [trans]: "step_ok s s1 \<Longrightarrow> step_ok s1 s2 \<Longrightarrow> step_ok s s2"
  unfolding step_ok_def by blast

definition accounts :: "int64 \<Rightarrow> nat \<Rightarrow> ('w send_proc, 'a) proc \<Rightarrow> bool" where
  "accounts k n m \<longleftrightarrow> (\<forall>s v s'. m s = Inr (v, s') \<longrightarrow>
     gatewayQueue s' = gatewayQueue s \<and> step_ok s s'
     \<and> (\<exists>rs. sp_pm s' = run_pm rs (sp_pm s) \<and> (\<forall>r \<in> set rs. rid r = k \<and> 0 < ramount r) \<and> total k rs = n))"

lemma accountsD:
  assumes "accounts k n m" "m s = Inr (v, s')"
  obtains rs where "gatewayQueue s' = gatewayQueue s" "step_ok s s'" "sp_pm s' = run_pm rs (sp_pm s)"
    "\<forall>r \<in> set rs. rid r = k \<and> 0 < ramount r" "total k rs = n"
  using assms unfolding accounts_def by blast

lemma accounts_quiet: "quiet m \<Longrightarrow> accounts k 0 m"
  unfolding accounts_def
proof (intro allI impI)
  fix s v s' assume "quiet m" "m s = Inr (v, s')"
  from quietD [OF this] show "gatewayQueue s' = gatewayQueue s \<and> step_ok s s' \<and>
      (\<exists>rs. sp_pm s' = run_pm rs (sp_pm s) \<and> (\<forall>r \<in> set rs. rid r = k \<and> 0 < ramount r) \<and> total k rs = 0)"
    by (intro conjI exI [of _ "[]"]) (auto simp: run_pm_def step_ok_def settled_def)
qed

lemma accounts_then:
  assumes "accounts k a m" "\<And>v. accounts k b (c v)"
  shows "accounts k (a + b) (then_do m c)"
  unfolding accounts_def
proof (intro allI impI)
  fix s v s' assume "then_do m c s = Inr (v, s')"
  then obtain u s1 where 1: "m s = Inr (u, s1)" and 2: "c u s1 = Inr (v, s')" by (auto elim: then_doE)
  from accountsD [OF assms(1) 1] obtain rs where rs: "gatewayQueue s1 = gatewayQueue s" "step_ok s s1"
    "sp_pm s1 = run_pm rs (sp_pm s)" "\<forall>r \<in> set rs. rid r = k \<and> 0 < ramount r" "total k rs = a" .
  from accountsD [OF assms(2) 2] obtain rs' where rs': "gatewayQueue s' = gatewayQueue s1" "step_ok s1 s'"
    "sp_pm s' = run_pm rs' (sp_pm s1)" "\<forall>r \<in> set rs'. rid r = k \<and> 0 < ramount r" "total k rs' = b" .
  from rs rs' show "gatewayQueue s' = gatewayQueue s \<and> step_ok s s' \<and>
      (\<exists>rs. sp_pm s' = run_pm rs (sp_pm s) \<and> (\<forall>r \<in> set rs. rid r = k \<and> 0 < ramount r) \<and> total k rs = a + b)"
    by (intro conjI exI [of _ "rs @ rs'"]) (auto intro: step_ok_trans)
qed

text \<open>One report: the manager logs at most one callback, which \<open>report_pm\<close> runs.\<close>

lemma report_log:
  "\<exists>cs. fired (apply_pm_report r pm) = fired pm @ cs \<and> (installed pm \<longrightarrow> (\<forall>c \<in> set cs. forgets c))
    \<and> (installed (apply_pm_report r pm) = installed pm)"
  by (cases r) (auto simp: apply_pm_report_def DoneN_def FailN_def Let_def fire_def forgets_def installed_def
      split: option.split)

lemma accounts_report:
  assumes "0 < ramount r" and f: "f = apply_pm_report r"
  shows "accounts (rid r) (ramount r) (report_pm d f)"
  unfolding accounts_def
proof (intro allI impI)
  fix s v s' assume run: "report_pm d f s = Inr (v, s')"
  obtain cs where cs: "fired (apply_pm_report r (sp_pm s)) = fired (sp_pm s) @ cs"
    "installed (sp_pm s) \<longrightarrow> (\<forall>c \<in> set cs. forgets c)"
    "installed (apply_pm_report r (sp_pm s)) = installed (sp_pm s)"
    using report_log [of r "sp_pm s"] by blast
  from run cs(1) have "run_callbacks d cs (s\<lparr>sp_pm := f (sp_pm s)\<rparr>) = Inr (v, s')"
    by (simp add: report_pm_def Let_def f)
  note e = run_callbacks_effect [OF this]
  have "step_ok s s'"
    unfolding step_ok_def settled_def
  proof (intro conjI allI impI)
    assume "installed (sp_pm s)" then show "installed (sp_pm s')" using e cs(3) f by simp
  next
    fix b k assume i: "installed (sp_pm s)"
      and st: "b < length (filter (\<lambda>c. about c = k) (fired (sp_pm s))) \<longrightarrow> msg2sender s k = None"
      and b: "b < length (filter (\<lambda>c. about c = k) (fired (sp_pm s')))"
    show "msg2sender s' k = None"
    proof (cases "filter (\<lambda>c. about c = k) cs = []")
      case True
      with st b e cs(1) f show ?thesis by simp
    next
      case False
      then obtain c where "c \<in> set cs" "about c = k" by (auto simp: filter_empty_conv)
      with e cs(2) i show ?thesis by auto
    qed
  qed
  with e f assms(1) show "gatewayQueue s' = gatewayQueue s \<and> step_ok s s' \<and>
      (\<exists>rs. sp_pm s' = run_pm rs (sp_pm s) \<and> (\<forall>q \<in> set rs. rid q = rid r \<and> 0 < ramount q) \<and> total (rid r) rs = ramount r)"
    by (intro conjI exI [of _ "[r]"]) (auto simp: run_pm_def)
qed

lemma accounts_done: "accounts k n (report_done d k n)"
proof (cases "0 < n")
  case True
  have "accounts (rid (RDone k n)) (ramount (RDone k n)) (report_pm d (\<lambda>pm. DoneN pm k (word_of_nat n)))"
    using True by (intro accounts_report) (auto simp: apply_pm_report_def fun_eq_iff)
  with True show ?thesis by (simp add: report_done_def [abs_def])
qed (auto simp: report_done_def [abs_def] intro: accounts_quiet)

lemma accounts_failed: "accounts k n (report_failed d k n)"
proof (cases "0 < n")
  case True
  have "accounts (rid (RFail k n)) (ramount (RFail k n)) (report_pm d (\<lambda>pm. FailN pm k (word_of_nat n)))"
    using True by (intro accounts_report) (auto simp: apply_pm_report_def fun_eq_iff)
  with True show ?thesis by (simp add: report_failed_def [abs_def])
qed (auto simp: report_failed_def [abs_def] intro: accounts_quiet)

section \<open>Accounting of the worker\<close>

definition group_size :: "(string \<times> int64 list) list \<Rightarrow> nat" where
  "group_size gs = sum_list (map (length \<circ> snd) gs)"

lemma group_size_simps [simp]:
  "group_size [] = 0" "group_size ((g, us) # gs) = length us + group_size gs"
  by (simp_all add: group_size_def)

lemma add_group_size [simp]: "group_size (add_group g u gs) = Suc (group_size gs)"
  by (induction g u gs rule: add_group.induct) auto

lemma add_group_nonempty: "\<forall>(g, us) \<in> set gs. us \<noteq> [] \<Longrightarrow> \<forall>(g, us) \<in> set (add_group g' u gs). us \<noteq> []"
  by (induction g' u gs rule: add_group.induct) auto

lemma quiet_sort_targets [intro]: "quiet (sort_targets d msg routes us acc)"
proof -
  have "sp_pm s' = sp_pm s \<and> gatewayQueue s' = gatewayQueue s \<and> msg2sender s' = msg2sender s"
    if "sort_targets d msg routes us acc s = Inr (v, s')" for s s' v
    using that
  proof (induction d msg routes us acc s rule: sort_targets.induct)
    case (1 d msg routes acc s)
    then show ?case by simp
  next
    case (2 d msg routes u us gs nd nf s)
    show ?case
    proof (cases "routes u")
      case (Some info)
      with 2 show ?thesis by simp
    next
      case None
      show ?thesis
      proof (cases "client_json (client_of_push msg)")
        case (Inl e)
        with 2 None show ?thesis by simp
      next
        case (Inr j)
        with 2 None obtain s1 where i: "InsertOfflineQueue d u (Doc j) s = Inr ((), s1)"
          and r: "sort_targets d msg routes us (gs, Suc nd, nf) s1 = Inr (v, s')"
          by (auto elim!: then_doE)
        from 2(2) [OF None Inr r] quietD [OF quiet_InsertOfflineQueue i] show ?thesis by simp
      qed
    qed
  qed
  then show ?thesis unfolding quiet_def by blast
qed

lemma sort_targets_counts:
  "sort_targets d msg routes us (gs, nd, nf) s = Inr ((gs', nd', nf'), s') \<Longrightarrow>
     nd' + nf' + group_size gs' = nd + nf + group_size gs + length us
     \<and> ((\<forall>(g, vs) \<in> set gs. vs \<noteq> []) \<longrightarrow> (\<forall>(g, vs) \<in> set gs'. vs \<noteq> []))"
proof (induction us arbitrary: gs nd nf s)
  case Nil
  then show ?case by simp
next
  case (Cons u us)
  show ?case
  proof (cases "routes u")
    case (Some info)
    with Cons.prems have "sort_targets d msg routes us (add_group (riGatewayID info) u gs, nd, nf) s
      = Inr ((gs', nd', nf'), s')" by simp
    from Cons.IH [OF this] add_group_nonempty [of gs] show ?thesis by auto
  next
    case None
    with Cons show ?thesis
      by (cases "client_json (client_of_push msg)") (fastforce elim!: then_doE)+
  qed
qed

lemma group_offline_counts:
  "group_offline d msg us (nd, nf) s = Inr ((nd', nf'), s') \<Longrightarrow>
     nd' + nf' = nd + nf + length us
     \<and> sp_pm s' = sp_pm s \<and> gatewayQueue s' = gatewayQueue s \<and> msg2sender s' = msg2sender s"
proof (induction us arbitrary: nd nf s)
  case Nil
  then show ?case by simp
next
  case (Cons u us)
  show ?case
  proof (cases "client_json (client_of_push msg)")
    case (Inl e)
    with Cons show ?thesis by fastforce
  next
    case (Inr j)
    with Cons.prems obtain r s1 where c: "redis_call (SendQueueRPushWithRetry (clients d) 2 (offline_key u) (Doc j)) s = Inr (r, s1)"
      and g: "group_offline d msg us (case r of Inl e \<Rightarrow> (nd, Suc nf) | Inr _ \<Rightarrow> (Suc nd, nf)) s1 = Inr ((nd', nf'), s')"
      by (auto elim!: then_doE)
    from quietD [OF quiet_redis_call c] g show ?thesis
      by (cases r) (auto dest!: Cons.IH)
  qed
qed

text \<open>A result that fixes how much is accounted for afterwards.\<close>

lemma accounts_then':
  assumes q: "quiet m" and c: "\<And>s v s1. m s = Inr (v, s1) \<Longrightarrow> accounts k n (c v)"
  shows "accounts k n (then_do m c)"
  unfolding accounts_def
proof (intro allI impI)
  fix s v s' assume "then_do m c s = Inr (v, s')"
  then obtain u s1 where 1: "m s = Inr (u, s1)" and 2: "c u s1 = Inr (v, s')" by (auto elim: then_doE)
  from accountsD [OF c [OF 1] 2] obtain rs where rs: "gatewayQueue s' = gatewayQueue s1" "step_ok s1 s'"
    "sp_pm s' = run_pm rs (sp_pm s1)" "\<forall>r \<in> set rs. rid r = k \<and> 0 < ramount r" "total k rs = n" .
  from quietD [OF q 1] have "step_ok s s1" by (auto simp: step_ok_def settled_def)
  with rs quietD [OF q 1] show "gatewayQueue s' = gatewayQueue s \<and> step_ok s s' \<and>
      (\<exists>rs. sp_pm s' = run_pm rs (sp_pm s) \<and> (\<forall>r \<in> set rs. rid r = k \<and> 0 < ramount r) \<and> total k rs = n)"
    by (intro conjI exI [of _ rs]) (auto intro: step_ok_trans)
qed

lemma quiet_group_offline: "quiet (group_offline d msg us (nd, nf))"
  unfolding quiet_def using group_offline_counts by (metis surj_pair)

lemma accounts_group:
  assumes "us \<noteq> []"
  shows "accounts (pID msg) (length us)
    (case r of
       None \<Rightarrow> report_pm d (\<lambda>pm. DoneN pm (pID msg) (word_of_nat (length us)))
     | Some e \<Rightarrow> then_do (group_offline d msg us (0, 0))
         (\<lambda>(nd, nf). then_do (report_done d (pID msg) nd) (\<lambda>_. report_failed d (pID msg) nf)))"
proof (cases r)
  case None
  with assms accounts_done [of "pID msg" "length us" d] show ?thesis
    by (simp add: report_done_def [abs_def])
next
  case (Some e)
  have "accounts (pID msg) (length us) (then_do (group_offline d msg us (0, 0))
      (\<lambda>(nd, nf). then_do (report_done d (pID msg) nd) (\<lambda>_. report_failed d (pID msg) nf)))"
  proof (rule accounts_then' [OF quiet_group_offline])
    fix s v s1 assume g: "group_offline d msg us (0, 0) s = Inr (v, s1)"
    obtain nd nf where v: "v = (nd, nf)" by force
    from group_offline_counts [OF g [unfolded v]] have n: "length us = nd + nf" by simp
    show "accounts (pID msg) (length us)
        (case v of (nd, nf) \<Rightarrow> then_do (report_done d (pID msg) nd) (\<lambda>_. report_failed d (pID msg) nf))"
      unfolding v n by (simp add: accounts_then accounts_done accounts_failed)
  qed
  with Some show ?thesis by simp
qed

lemma accounts_groups:
  "(\<forall>(g, us) \<in> set gs. us \<noteq> []) \<Longrightarrow> accounts (pID msg) (group_size gs) (send_groups d msg gs)"
proof (induction gs)
  case Nil
  have "send_groups d msg [] = returns ()" by (rule ext) simp
  then show ?case by (metis accounts_quiet group_size_simps(1) quiet_returns)
next
  case (Cons g gs)
  obtain gid us where g: "g = (gid, us)" by force
  have eq: "send_groups d msg ((gid, us) # gs) =
     then_do (sendToGatewayWithRedisStream d gid (msg\<lparr>pTargetIDs := us\<rparr>))
       (\<lambda>r. then_do
          (case r of
             None \<Rightarrow> report_pm d (\<lambda>pm. DoneN pm (pID msg) (word_of_nat (length us)))
           | Some e \<Rightarrow>
               then_do (group_offline d msg us (0, 0))
                 (\<lambda>(nd, nf). then_do (report_done d (pID msg) nd) (\<lambda>_. report_failed d (pID msg) nf)))
          (\<lambda>_. send_groups d msg gs))" by (rule ext) simp
  from Cons have "us \<noteq> []" "\<forall>(g, us) \<in> set gs. us \<noteq> []" by (auto simp: g)
  then show ?case unfolding g eq group_size_simps
    by (intro accounts_then' [OF quiet_send] accounts_then accounts_group Cons.IH)
qed

text \<open>The choice of the order in which a map is walked drops and repeats nothing.\<close>

definition walks :: "'w send_deps \<Rightarrow> bool" where
  "walks d \<longleftrightarrow> (\<forall>gs. mset (walkGroups d gs) = mset gs)"

lemma walks_size: "walks d \<Longrightarrow> group_size (walkGroups d gs) = group_size gs"
  unfolding walks_def group_size_def by (metis mset_map sum_mset_sum_list)

lemma walks_set: "walks d \<Longrightarrow> set (walkGroups d gs) = set gs"
  unfolding walks_def by (metis set_mset_mset)

text \<open>
  Whatever the routes, the failures of Redis and the order of the maps, a worker that gets through
  a batch reports exactly as many targets of the message as the batch has, in reports of positive
  amounts on that message alone.
\<close>

theorem worker_accounts:
  assumes walks: "walks d"
  shows "accounts (pID msg) (length (pTargetIDs msg)) (gatewayWorker d msg)"
proof -
  have "accounts (pID msg) (length (pTargetIDs msg))
     (case v of (gs, nd, nf) \<Rightarrow> then_do (report_done d (pID msg) nd)
           (\<lambda>_. then_do (report_failed d (pID msg) nf)
           (\<lambda>_. send_groups d msg (walkGroups d gs))))"
    if st: "sort_targets d msg routes (pTargetIDs msg) ([], 0, 0) s = Inr (v, s1)" for routes s s1 v
  proof -
    obtain gs nd nf where v: "v = (gs, nd, nf)" by (cases v) auto
    from sort_targets_counts [OF st [unfolded v]] have
      n: "length (pTargetIDs msg) = nd + (nf + group_size (walkGroups d gs))"
      and ne: "\<forall>(g, us) \<in> set (walkGroups d gs). us \<noteq> []"
      using walks by (simp_all add: walks_size walks_set)
    show ?thesis unfolding v n
      by (simp add: accounts_then accounts_done accounts_failed accounts_groups [OF ne])
  qed
  then show ?thesis
    unfolding gatewayWorker_def
    by (intro accounts_then' [OF quiet_in_world]) (auto intro!: accounts_then' [OF quiet_sort_targets])
qed

section \<open>Accounting of a dispatch\<close>

lemma batches_concat: "concat (batches xs) = xs"
  by (induction xs rule: batches.induct) (subst batches.simps, simp)

lemma batches_size: "b \<in> set (batches xs) \<Longrightarrow> 0 < length b \<and> length b \<le> batchSize"
proof (induction xs rule: batches.induct)
  case (1 xs)
  then show ?case
    by (cases "xs = []"; subst (asm) (2) batches.simps) (auto simp: batchSize_def)
qed

fun accepted :: "(nat \<Rightarrow> bool) \<Rightarrow> nat \<Rightarrow> push_message \<Rightarrow> int64 list list \<Rightarrow> push_message list" where
  "accepted acc i msg [] = []"
| "accepted acc i msg (b # bs) = (if acc i then [msg\<lparr>pTargetIDs := b\<rparr>] else []) @ accepted acc (Suc i) msg bs"

definition targets_of :: "int64 \<Rightarrow> push_message list \<Rightarrow> nat" where
  "targets_of k ms = sum_list (map (\<lambda>m. if pID m = k then length (pTargetIDs m) else 0) ms)"

lemma targets_of_simps [simp]:
  "targets_of k [] = 0"
  "targets_of k (m # ms) = (if pID m = k then length (pTargetIDs m) else 0) + targets_of k ms"
  "targets_of k (ms @ ms') = targets_of k ms + targets_of k ms'"
  by (simp_all add: targets_of_def)

lemma enqueue_batches_result:
  "enqueue_batches acc i msg bs dropped s = (dropped', s') \<Longrightarrow>
     s' = s\<lparr>gatewayQueue := gatewayQueue s @ accepted acc i msg bs\<rparr>
     \<and> dropped' + targets_of (pID msg) (accepted acc i msg bs) = dropped + length (concat bs)"
  by (induction acc i msg bs dropped s rule: enqueue_batches.induct) (auto split: if_splits)

lemma batches_targets: "(\<forall>m \<in> set (accepted acc i msg bs). pID m = pID msg)"
  by (induction acc i msg bs rule: accepted.induct) auto

lemma worker_step_accounts:
  assumes "walks d" "worker_step d s = Inr (b, s')"
  obtains rs where "step_ok s s'" "sp_pm s' = run_pm rs (sp_pm s)" "\<forall>r \<in> set rs. 0 < ramount r"
    "\<forall>k. total k rs + targets_of k (gatewayQueue s') = targets_of k (gatewayQueue s)"
    "length (gatewayQueue s') = length (gatewayQueue s) - 1" "b \<longleftrightarrow> gatewayQueue s \<noteq> []"
proof (cases "gatewayQueue s")
  case Nil
  with assms(2) show ?thesis by (intro that [of "[]"]) (auto simp: worker_step_def run_pm_def)
next
  case (Cons m q)
  with assms(2) obtain u where w: "gatewayWorker d m (s\<lparr>gatewayQueue := q\<rparr>) = Inr (u, s')" and b: b
    by (auto simp: worker_step_def elim!: then_doE)
  from accountsD [OF worker_accounts [OF assms(1)] w] obtain rs where rs:
    "gatewayQueue s' = q" "step_ok (s\<lparr>gatewayQueue := q\<rparr>) s'" "sp_pm s' = run_pm rs (sp_pm s)"
    "\<forall>r \<in> set rs. rid r = pID m \<and> 0 < ramount r" "total (pID m) rs = length (pTargetIDs m)" by auto
  have other: "total k rs = 0" if "k \<noteq> pID m" for k
    using rs(4) that by (induction rs) auto
  show ?thesis
  proof (rule that [of rs])
    show "step_ok s s'" using rs(2) by (simp add: step_ok_def settled_def)
    show "\<forall>k. total k rs + targets_of k (gatewayQueue s') = targets_of k (gatewayQueue s)"
    proof
      fix k show "total k rs + targets_of k (gatewayQueue s') = targets_of k (gatewayQueue s)"
        using rs(1,5) Cons other by (cases "k = pID m") auto
    qed
  qed (use rs Cons b in auto)
qed

lemma drain_accounts:
  "walks d \<Longrightarrow> length (gatewayQueue s) \<le> n \<Longrightarrow> drain_queue d n s = Inr (u, s') \<Longrightarrow>
     step_ok s s' \<and> (\<exists>rs. sp_pm s' = run_pm rs (sp_pm s) \<and> (\<forall>r \<in> set rs. 0 < ramount r)
       \<and> (\<forall>k. total k rs = targets_of k (gatewayQueue s)))"
proof (induction n arbitrary: s)
  case 0
  then show ?case by (auto intro!: exI [of _ "[]"] simp: run_pm_def)
next
  case (Suc n)
  then obtain b s1 where w: "worker_step d s = Inr (b, s1)"
    and r: "(if b then drain_queue d n else returns ()) s1 = Inr (u, s')" by (auto elim!: then_doE)
  from worker_step_accounts [OF Suc.prems(1) w] obtain rs where rs: "step_ok s s1" "sp_pm s1 = run_pm rs (sp_pm s)"
    "\<forall>r \<in> set rs. 0 < ramount r" "\<forall>k. total k rs + targets_of k (gatewayQueue s1) = targets_of k (gatewayQueue s)"
    "length (gatewayQueue s1) = length (gatewayQueue s) - 1" "b \<longleftrightarrow> gatewayQueue s \<noteq> []" by blast
  show ?case
  proof (cases b)
    case True
    with r rs(5) Suc.prems have "drain_queue d n s1 = Inr (u, s')" "length (gatewayQueue s1) \<le> n" by auto
    from Suc.IH [OF Suc.prems(1) this(2,1)] obtain rs' where "step_ok s1 s'" "sp_pm s' = run_pm rs' (sp_pm s1)"
      "\<forall>r \<in> set rs'. 0 < ramount r" "\<forall>k. total k rs' = targets_of k (gatewayQueue s1)" by blast
    with rs show ?thesis
      by (intro conjI exI [of _ "rs @ rs'"]) (auto intro: step_ok_trans)
  next
    case False
    with r rs Suc.prems show ?thesis by (intro conjI exI [of _ rs]) auto
  qed
qed

text \<open>
  C1: a message dispatched to at least one target and the batches it was split into worked off, with
  whatever routes, queue time-outs and Redis failures: exactly one callback about it is made. It is
  the acknowledgement to the sender when no target failed, and otherwise the failure callback with the
  number of failed targets; the sender is no longer on record. The loop over the queue is given at
  least as many rounds as there are batches in it.
\<close>

theorem dispatch_acknowledges_once:
  assumes walks: "walks d" and wf: "pm_wf (sp_pm s)" and inst: "installed (sp_pm s)"
    and new: "\<forall>m \<in> set (gatewayQueue s). pID m \<noteq> pID msg"
    and fresh: "\<forall>c \<in> set (fired (sp_pm s)). about c \<noteq> pID msg"
    and n: "0 < length (pTargetIDs msg)" "length (pTargetIDs msg) < 2 ^ 31"
    and disp: "Dispatch_gateway d acc msg s = Inr (r, s1)"
    and fuel: "length (gatewayQueue s1) \<le> rounds" and drain: "drain_queue d rounds s1 = Inr (u, s2)"
  shows "\<exists>f. f \<le> length (pTargetIDs msg)
    \<and> filter (\<lambda>c. about c = pID msg) (fired (sp_pm s2)) =
        [if 0 < f then CallFail Fail_OnFailMessage (pID msg) (word_of_nat f)
         else CallDone Done_SendACKToSender (pID msg)]
    \<and> view (sp_pm s2) (pID msg) = None \<and> msg2sender s2 (pID msg) = None"
proof -
  let ?k = "pID msg" and ?n = "length (pTargetIDs msg)"
  let ?s0 = "s\<lparr>msg2sender := (msg2sender s)(?k \<mapsto> pSenderID msg), sp_pm := Init (sp_pm s) ?k (word_of_nat ?n)\<rparr>"
  obtain dropped s0 where e: "enqueue_batches acc 0 msg (batches (pTargetIDs msg)) 0 ?s0 = (dropped, s0)" by force
  from enqueue_batches_result [OF e] have s0: "s0 = ?s0\<lparr>gatewayQueue := gatewayQueue s @ accepted acc 0 msg (batches (pTargetIDs msg))\<rparr>"
    and dr: "dropped + targets_of ?k (accepted acc 0 msg (batches (pTargetIDs msg))) = ?n"
    by (simp_all add: batches_concat)
  from disp e obtain v where "report_failed d ?k dropped s0 = Inr (v, s1)"
    by (auto simp: Dispatch_gateway_def Let_def elim!: then_doE)
  from accountsD [OF accounts_failed this] obtain rs0 where rs0: "gatewayQueue s1 = gatewayQueue s0" "step_ok s0 s1"
    "sp_pm s1 = run_pm rs0 (sp_pm s0)" "\<forall>r \<in> set rs0. rid r = ?k \<and> 0 < ramount r" "total ?k rs0 = dropped" .
  from drain_accounts [OF walks fuel drain] obtain rs where rs: "step_ok s1 s2" "sp_pm s2 = run_pm rs (sp_pm s1)"
    "\<forall>r \<in> set rs. 0 < ramount r" "\<forall>k. total k rs = targets_of k (gatewayQueue s1)" by blast
  have "targets_of ?k (gatewayQueue s) = 0" using new by (simp add: targets_of_def)
  with rs(4) rs0(1) s0 dr rs0(5) have tot: "total ?k (rs0 @ rs) = ?n" by simp
  have pm: "sp_pm s2 = run_pm (rs0 @ rs) (Init (sp_pm s) ?k (word_of_nat ?n))"
    using rs(2) rs0(3) s0 by simp
  have pos: "\<forall>r \<in> set (rs0 @ rs). rid r = ?k \<longrightarrow> 0 < ramount r" using rs(3) rs0(4) by auto
  have none: "filter (\<lambda>c. about c = ?k) (fired (sp_pm s)) = []" using fresh by (simp add: filter_empty_conv)
  from pending_run_complete [OF wf n pos pm] tot none inst have
    v: "view (sp_pm s2) ?k = None" and
    c: "filter (\<lambda>c. about c = ?k) (fired (sp_pm s2)) =
        [if 0 < total_failed ?k (rs0 @ rs) then CallFail Fail_OnFailMessage ?k (word_of_nat (total_failed ?k (rs0 @ rs)))
         else CallDone Done_SendACKToSender ?k]"
    by (auto simp: installed_def)
  have "installed (sp_pm s0)" "settled 0 ?k s0"
    using inst none by (auto simp: s0 installed_def settled_def Init_def Let_def)
  with rs0(2) rs(1) have "settled 0 ?k s2" by (auto simp: step_ok_def)
  with c have "msg2sender s2 ?k = None" by (simp add: settled_def)
  with v c total_failed_le [of ?k "rs0 @ rs"] tot show ?thesis by (intro exI [of _ "total_failed ?k (rs0 @ rs)"]) auto
qed

section \<open>Witnesses\<close>

text \<open>User 7 is at gateway \<open>g1\<close>; nobody else is connected.\<close>

definition demo_http :: "'w http" where
  "demo_http = \<lparr>baseURL = [], hDo = (\<lambda>meth url body w. (Inr (200, Doc (JObj [(''code'', JInt 0),
     (''data'', JObj [(''7'', JObj [(''gateway_id'', JStr ''g1''), (''address'', JStr ''a'')])])])), w))\<rparr>"

definition demo_deps :: "mem send_deps" where
  "demo_deps = \<lparr>clients = \<lparr>sendRoleClients = (\<lambda>_. None), Rdb = Some mem_redis, closed = []\<rparr>,
     routing = \<lparr>localCache = None, registryClient = Some demo_http, floatRead = (\<lambda>n. n)\<rparr>,
     walkRoutes = (\<lambda>m. [7]), walkGroups = rev\<rparr>"

definition demo_proc :: "mem send_proc" where
  "demo_proc = StartGatewayDispatcher \<lparr>sp_world = mem_empty, sp_pm = NewPendingManager,
     msg2sender = Map.empty, gatewayQueue = [], offlineMsg = Map.empty\<rparr>"

definition demo_chat :: push_message where
  "demo_chat = \<lparr>pID = 42, pType = ''chat'', pRoomID = 1, pSenderID = 9, pTargetIDs = [7, 8], pPayload = GoVal (JStr ''hi'')\<rparr>"

lemma demo_query: "QueryUserRoutes (\<lambda>n. n) demo_http us w = (Inr [7 \<mapsto> Some \<lparr>riGatewayID = ''g1'', riAddress = ''a''\<rparr>], w)"
proof -
  have "FormatInt 7 = ''7''"
    by (simp add: FormatInt_def format_nat.simps digit_char_def char_of_def bit_iff_odd)
  then have p: "ParseInt ''7'' = Inr 7" using Parse_Format [of 7] by simp
  have k: "match_field [''code'', ''message'', ''data''] ''code'' = Some ''code''" by code_simp
  have i: "iface (\<lambda>n. n) (JObj [(''7'', JObj [(''gateway_id'', JStr ''g1''), (''address'', JStr ''a'')])]) =
      JObj [(''7'', route_obj' \<lparr>riGatewayID = ''g1'', riAddress = ''a''\<rparr>)]"
    unfolding route_obj'_def route_info.simps by code_simp
  have s: "doSingleRequest (\<lambda>n. n) demo_http meth path body w =
    (Inr \<lparr>crCode = 0, crMessage = [], crData = Some (JObj [(''7'', route_obj' \<lparr>riGatewayID = ''g1'', riAddress = ''a''\<rparr>)])\<rparr>, w)"
    for meth path body and w :: 'a
    by (simp add: doSingleRequest_def on_call_def demo_http_def unmarshal_struct_def response_setf_def
        zero_response_def dec_int64_def i del: iface.simps)
  show ?thesis
    by (simp add: QueryUserRoutes_def doRequest_def on_call_def s p dec_route_obj numeral_3_eq_3)
qed

lemma demo_walks: "walks demo_deps"
  by (simp add: walks_def demo_deps_def)

theorem worker_accounts_witness:
  "accounts 42 2 (gatewayWorker demo_deps demo_chat)"
  using worker_accounts [OF demo_walks, of demo_chat] by (simp add: demo_chat_def numeral_2_eq_2)

text \<open>A process step that always returns.\<close>

definition live :: "('w, 'a) proc \<Rightarrow> bool" where
  "live m \<longleftrightarrow> (\<forall>s. \<exists>v s'. m s = Inr (v, s'))"

lemma live_simps [simp]: "live (returns v)" "live (run_io m)"
  by (auto simp: live_def split: prod.split)

lemma live_then [intro]: "live m \<Longrightarrow> (\<And>v. live (k v)) \<Longrightarrow> live (then_do m k)"
  unfolding live_def
proof
  fix s assume m: "\<forall>s. \<exists>v s'. m s = Inr (v, s')" and k: "\<And>v. \<forall>s. \<exists>va s'. k v s = Inr (va, s')"
  from m obtain v s1 where "m s = Inr (v, s1)" by blast
  moreover from k obtain va s' where "k v s1 = Inr (va, s')" by blast
  ultimately show "\<exists>v s'. then_do m k s = Inr (v, s')" by (simp add: then_do_def)
qed

lemma live_in_world [intro]: "live m \<Longrightarrow> live (in_world m)"
  unfolding live_def
proof
  fix s :: "'a send_proc" assume "\<forall>s. \<exists>v s'. m s = Inr (v, s')"
  then obtain v w where "m (sp_world s) = Inr (v, w)" by blast
  then show "\<exists>v s'. in_world m s = Inr (v, s')" by (simp add: in_world_def)
qed

lemma live_redis [simp]: "live (redis_call m)"
  by (auto simp: redis_call_def)

lemma live_send [simp]: "live (sendToGatewayWithRedisStream d g m)"
  unfolding sendToGatewayWithRedisStream_def by (auto split: sum.split)

lemma demo_single: "live (PushSingleViaGateway demo_deps u m)"
  unfolding PushSingleViaGateway_def
proof (intro live_then live_in_world)
  show "live (GetUserGateway (routing demo_deps) u)"
    by (auto simp: live_def GetUserGateway_def then_do_def demo_deps_def cache_get_def cache_set_def demo_query)
qed (auto split: sum.split)

lemma demo_callbacks: "live (run_callbacks demo_deps cs)"
proof (induction cs)
  case (Cons c cs)
  have "live (SendACKToSender demo_deps k)" for k
  proof -
    have "live (then_do (PushSingleViaGateway demo_deps x y) (\<lambda>_. returns ()))" for x y
      by (auto intro: demo_single)
    then show ?thesis unfolding live_def SendACKToSender_def by (auto split: option.split)
  qed
  moreover have "live (OnFailMessage k n)" for k n by (simp add: live_def OnFailMessage_def)
  ultimately have "live (run_callback demo_deps c)"
    by (cases "(demo_deps, c)" rule: run_callback.cases) auto
  with Cons show ?case by auto
qed (simp add: live_def)

lemma demo_report: "live (report_pm demo_deps f)"
  using demo_callbacks unfolding live_def report_pm_def Let_def by blast

lemma demo_groups: "live (send_groups demo_deps msg gs)"
proof (induction gs)
  case Nil
  then show ?case by (simp add: live_def)
next
  case (Cons g gs)
  have go: "live (group_offline demo_deps msg us (nd, nf))" for us nd nf
  proof (induction us arbitrary: nd nf)
    case Nil
    then show ?case by (simp add: live_def)
  next
    case (Cons u us)
    show ?case
    proof (cases "client_json (client_of_push msg)")
      case (Inl e)
      with Cons show ?thesis by (simp add: live_def)
    next
      case (Inr j)
      have "live (then_do (redis_call (SendQueueRPushWithRetry (clients demo_deps) 2 (offline_key u) (Doc j)))
            (\<lambda>r. group_offline demo_deps msg us (case r of Inl e \<Rightarrow> (nd, Suc nf) | Inr _ \<Rightarrow> (Suc nd, nf))))"
        using Cons by (intro live_then) (auto split: sum.split)
      with Inr show ?thesis by (simp add: live_def)
    qed
  qed
  obtain gid us where g: "g = (gid, us)" by force
  have "live (then_do (sendToGatewayWithRedisStream demo_deps gid (msg\<lparr>pTargetIDs := us\<rparr>))
       (\<lambda>r. then_do
          (case r of
             None \<Rightarrow> report_pm demo_deps (\<lambda>pm. DoneN pm (pID msg) (word_of_nat (length us)))
           | Some e \<Rightarrow>
               then_do (group_offline demo_deps msg us (0, 0))
                 (\<lambda>(nd, nf). then_do (report_done demo_deps (pID msg) nd) (\<lambda>_. report_failed demo_deps (pID msg) nf)))
          (\<lambda>_. send_groups demo_deps msg gs)))"
    using Cons go demo_report
    by (auto intro!: live_then simp: report_done_def [abs_def] report_failed_def [abs_def] split: option.split)
  then show ?case by (simp add: g live_def)
qed

lemma live_report: "live (report_done demo_deps k n)" "live (report_failed demo_deps k n)"
  using demo_report by (auto simp: report_done_def [abs_def] report_failed_def [abs_def])

theorem dispatch_acknowledges_once_witness:
  "\<exists>s1 s2. Dispatch_gateway demo_deps (\<lambda>i. True) (demo_chat\<lparr>pTargetIDs := [7, 7]\<rparr>) demo_proc = Inr (None, s1)
     \<and> drain_queue demo_deps 1 s1 = Inr ((), s2)
     \<and> (\<exists>f \<le> 2. filter (\<lambda>c. about c = 42) (fired (sp_pm s2)) =
          [if 0 < f then CallFail Fail_OnFailMessage 42 (word_of_nat f) else CallDone Done_SendACKToSender 42])
     \<and> msg2sender s2 42 = None"
proof -
  let ?m = "demo_chat\<lparr>pTargetIDs := [7, 7]\<rparr>"
  have b: "batches [7, 7 :: int64] = [[7, 7]]"
    by (simp add: batches.simps [of "[7, 7]"] batches.simps [of "[]"] batchSize_def)
  obtain s1 where disp: "Dispatch_gateway demo_deps (\<lambda>i. True) ?m demo_proc = Inr (None, s1)"
    and q: "gatewayQueue s1 = [?m]"
    by (auto simp: Dispatch_gateway_def Let_def b report_failed_def then_do_def demo_chat_def demo_proc_def
        StartGatewayDispatcher_def)
  have w: "\<exists>s2. gatewayWorker demo_deps ?m s = Inr ((), s2)" for s
  proof -
    have "\<exists>s3. BatchGetUserGateways (walkRoutes demo_deps) (routing demo_deps) [7, 7] (sp_world s) =
        Inr ((None, [7 \<mapsto> \<lparr>riGatewayID = ''g1'', riAddress = ''a''\<rparr>]), s3)"
      by (simp add: BatchGetUserGateways_def then_do_def demo_deps_def cache_get_def cache_set_def demo_query)
    moreover have "live (then_do (report_done demo_deps (pID ?m) nd)
           (\<lambda>_. then_do (report_failed demo_deps (pID ?m) nf)
           (\<lambda>_. send_groups demo_deps ?m (walkGroups demo_deps gs))))" for nd nf gs
      by (intro live_then live_report demo_groups)
    ultimately show ?thesis
      by (auto simp: gatewayWorker_def then_do_def in_world_def live_def)
  qed
  obtain s2 where drain: "drain_queue demo_deps 1 s1 = Inr ((), s2)"
    using w [of "s1\<lparr>gatewayQueue := []\<rparr>"] q by (auto simp: worker_step_def then_do_def)
  have pm: "sp_pm demo_proc = SetFailFunc (SetDoneFunc NewPendingManager Done_SendACKToSender) Fail_OnFailMessage"
    "gatewayQueue demo_proc = []"
    by (simp_all add: demo_proc_def StartGatewayDispatcher_def)
  have "pm_wf (sp_pm demo_proc)" "installed (sp_pm demo_proc)" "fired (sp_pm demo_proc) = []"
    by (simp_all add: pm installed_def SetFailFunc_def SetDoneFunc_def NewPendingManager_def [simplified])
       (simp_all add: pm_wf_def shard_find_def shard_index)
  moreover have m: "pID ?m = 42" "length (pTargetIDs ?m) = 2" by (simp_all add: demo_chat_def)
  ultimately have "\<exists>f. f \<le> 2 \<and> filter (\<lambda>c. about c = 42) (fired (sp_pm s2)) =
          [if 0 < f then CallFail Fail_OnFailMessage 42 (word_of_nat f) else CallDone Done_SendACKToSender 42]
      \<and> view (sp_pm s2) 42 = None \<and> msg2sender s2 42 = None"
    using dispatch_acknowledges_once [OF demo_walks _ _ _ _ _ _ disp _ drain] q pm(2)
    unfolding m by simp
  then
  have "\<exists>f \<le> 2. filter (\<lambda>c. about c = 42) (fired (sp_pm s2)) =
          [if 0 < f then CallFail Fail_OnFailMessage 42 (word_of_nat f) else CallDone Done_SendACKToSender 42]
      \<and> msg2sender s2 42 = None"
    by blast
  with disp drain show ?thesis by blast
qed

end
