(* ===== verification/Pushback.thy ===== *)
theory Pushback
  imports SendPush
begin

text \<open>
  Messages a gateway cannot deliver go back to a send instance: \<open>internal/gateway/centerclient\<close> is
  the caller, \<open>internal/send/pushback/handler.go\<close> and \<open>internal/send/pushnotify/handler.go\<close> the
  handlers. The handler binds the message to an \<open>interface{}\<close> and prints it again for the offline
  list, so its numbers go through \<open>float64\<close>.
\<close>

section \<open>The gateway's side\<close>

definition pushback_body :: "int64 \<Rightarrow> json \<Rightarrow> json" where
  "pushback_body targetID j = JObj [(''forward_req'', j), (''target_id'', json_of_int64 targetID)]"

definition send_url :: "send_info \<Rightarrow> string" where
  "send_url inst = ''http://'' @ siAddress inst @ '':'' @ FormatInt (siPort inst) @ ''/internal/pushback''"

fun post_attempts :: "'w http \<Rightarrow> string \<Rightarrow> json \<Rightarrow> nat \<Rightarrow> goerr option \<Rightarrow> ('w, goerr option) io" where
  "post_attempts h url body 0 lastErr w = (lastErr, w)"
| "post_attempts h url body (Suc n) lastErr w =
     (case hDo h ''POST'' url (Some (Doc body)) w of
        (Inl e, w') \<Rightarrow> post_attempts h url body n (Some e) w'
      | (Inr (st, b), w') \<Rightarrow>
          if 200 \<le> st \<and> st < 300 then (None, w')
          else post_attempts h url body n (Some (ErrText (''unexpected status '' @ format_nat st))) w')"

text \<open>\<open>pick n\<close> is \<open>rand.Intn(n)\<close>; the registry's client is missing when no URL is configured.\<close>

definition SendPushBackRequest :: "(nat \<Rightarrow> nat) \<Rightarrow> (int \<Rightarrow> int) \<Rightarrow> regenv \<Rightarrow> 'w http option \<Rightarrow>
    client_message \<Rightarrow> int64 \<Rightarrow> ('w, goerr option) io" where
  "SendPushBackRequest pick f64 env reg msg targetID =
     (case reg of
        None \<Rightarrow> return (Some (ErrText ''registry url not configured''))
      | Some h \<Rightarrow>
          on_call (ListSendInstances f64 env h) (\<lambda>e. return (Some e))
            (\<lambda>instances.
               if instances = [] then return (Some (ErrText ''no send instances available''))
               else let inst = instances ! (pick (length instances) mod length instances) in
                 case client_json msg of
                   Inl e \<Rightarrow> return (Some e)
                 | Inr j \<Rightarrow> post_attempts h (send_url inst) (pushback_body targetID j) 3 None))"

section \<open>The send instance's side\<close>

definition pushback_setf :: "(int \<Rightarrow> int) \<Rightarrow> string \<Rightarrow> json \<Rightarrow> int64 \<times> goval \<Rightarrow> goerr option \<times> int64 \<times> goval" where
  "pushback_setf f64 k v r =
     (case r of (t, p) \<Rightarrow>
       (case match_field [''target_id'', ''forward_req''] k of
          None \<Rightarrow> (None, r)
        | Some f \<Rightarrow>
            if f = ''target_id'' then upd (\<lambda>_ x. (x, p)) r (dec_int64 v t)
            else upd (\<lambda>_ x. (t, x)) r (dec_iface f64 v p)))"

definition bind_pushback :: "(int \<Rightarrow> int) \<Rightarrow> wire \<Rightarrow> goerr + int64 \<times> goval" where
  "bind_pushback f64 = bind_json (pushback_setf f64) (\<lambda>(t, p). t \<noteq> 0 \<and> p \<noteq> GoVal JNull) (0, GoVal JNull)"

definition PushbackHandler :: "(int \<Rightarrow> int) \<Rightarrow> 'w redis role_clients \<Rightarrow> wire \<Rightarrow> ('w, reply) io" where
  "PushbackHandler f64 cs body w =
     (case bind_pushback f64 body of
        Inl e \<Rightarrow> (invalid_request e, w)
      | Inr (t, p) \<Rightarrow>
          (case marshal_val p of
             Inl e \<Rightarrow> (ReplyError500 ''Failed to marshal message'', w)
           | Inr j \<Rightarrow>
               on_call (SendQueueRPushWithRetry cs 2 (offline_key t) (Doc j))
                 (\<lambda>e. return (ReplyError500 ''Failed to push offline message''))
                 (\<lambda>_. return (ReplySuccess ''Pushback success'')) w))"

definition notify_setf :: "string \<Rightarrow> json \<Rightarrow> int64 \<Rightarrow> goerr option \<times> int64" where
  "notify_setf k v t = (case match_field [''target_id''] k of None \<Rightarrow> (None, t) | Some f \<Rightarrow> dec_int64 v t)"

text \<open>The second result is the user for whom a goroutine runs \<open>PushOfflineMessages\<close>.\<close>

definition NotifyOnlineHandler :: "wire \<Rightarrow> reply \<times> int64 option" where
  "NotifyOnlineHandler body =
     (case bind_json notify_setf (\<lambda>t. t \<noteq> 0) 0 body of
        Inl e \<Rightarrow> (ReplyBadRequest ''invalid request'', None)
      | Inr t \<Rightarrow> (\<lparr>status = 202, envelope = \<lparr>sCode = 0, sMsg = ''Accepted'', sData = None\<rparr>\<rparr>, Some t))"

section \<open>What arrives in the offline list\<close>

lemma match_pushback_keys [simp]:
  "match_field [''target_id'', ''forward_req''] ''target_id'' = Some ''target_id''"
  "match_field [''target_id'', ''forward_req''] ''forward_req'' = Some ''forward_req''"
  "match_field [''target_id''] ''target_id'' = Some ''target_id''"
  by code_simp+

text \<open>A client message whose numbers went through \<open>float64\<close>, as \<open>encoding/json\<close> prints the map.\<close>

definition rounded_json :: "(int \<Rightarrow> int) \<Rightarrow> client_message \<Rightarrow> json \<Rightarrow> json" where
  "rounded_json f64 m p = JObj [(''id'', JInt (f64 (sint (cID m)))), (''payload'', iface f64 p),
     (''room_id'', JInt (f64 (sint (cRoomID m)))), (''sender_id'', JInt (f64 (sint (cSenderID m)))),
     (''type'', JStr (cType m))]"

lemma client_json_rounded:
  assumes "client_json m = Inr j"
  shows "\<exists>p. cPayload m = GoVal p \<and> iface f64 j = rounded_json f64 m p"
proof -
  from assms obtain p where p: "cPayload m = GoVal p" and j: "j = JObj [(''id'', json_of_int64 (cID m)),
      (''type'', JStr (cType m)), (''room_id'', json_of_int64 (cRoomID m)),
      (''sender_id'', json_of_int64 (cSenderID m)), (''payload'', p)]"
    by (cases "cPayload m") (auto simp: client_json_def marshal_val_def)
  have order: "''id'' < ''payload''" "''payload'' < ''room_id''" "''room_id'' < ''sender_id''" "''sender_id'' < ''type''"
    "''id'' < ''type''" "''id'' < ''room_id''" "''id'' < ''sender_id''" "''room_id'' < ''type''"
    "''payload'' < ''sender_id''" "''payload'' < ''type''"
    by code_simp+
  note neg = order [THEN less_not_sym] order [THEN less_imp_neq] order [THEN less_imp_neq, THEN not_sym]
  show ?thesis
    using p by (simp add: j rounded_json_def obj_canon_def json_of_int64_def order neg)
qed

definition in_int64 :: "int \<Rightarrow> bool" where
  "in_int64 n \<longleftrightarrow> - (2 ^ 63) \<le> n \<and> n < 2 ^ 63"

lemma rounded_unmarshal:
  assumes "in_int64 (f64 (sint (cID m)))" "in_int64 (f64 (sint (cRoomID m)))" "in_int64 (f64 (sint (cSenderID m)))"
  shows "client_unmarshal f64 (Doc (rounded_json f64 m p)) = (None, \<lparr>cID = word_of_int (f64 (sint (cID m))),
    cType = cType m, cRoomID = word_of_int (f64 (sint (cRoomID m))),
    cSenderID = word_of_int (f64 (sint (cSenderID m))), cPayload = GoVal (iface f64 (iface f64 p))\<rparr>)"
  using assms
  by (simp add: client_unmarshal_def unmarshal_struct_def rounded_json_def zero_client_def dec_int64_def in_int64_def)

text \<open>
  A pushback that the handler accepts leaves the message in the target's offline list at least
  once and touches no other list; but what is stored is the message with its ids, room and sender
  rounded to doubles: it decodes to those rounded values, which are other ids as soon as they are
  not representable (beyond 2 to the power 53).
\<close>

theorem pushback_stores_rounded:
  assumes queue: "getSendRoleClient cs RoleQueue = Some rd" and laws: "list_laws rd lst"
    and t: "t \<noteq> 0" and j: "client_json m = Inr j"
    and run: "PushbackHandler f64 cs (Doc (pushback_body t j)) w = (r, w')" and ok: "status r = 200"
  shows "\<exists>p n. cPayload m = GoVal p \<and> 1 \<le> n \<and> n \<le> 2
    \<and> lst w' = (lst w)(offline_key t := lst w (offline_key t) @ replicate n (Doc (rounded_json f64 m p)))
    \<and> (in_int64 (f64 (sint (cID m))) \<and> in_int64 (f64 (sint (cRoomID m))) \<and> in_int64 (f64 (sint (cSenderID m))) \<longrightarrow>
         cID (snd (client_unmarshal f64 (Doc (rounded_json f64 m p)))) = word_of_int (f64 (sint (cID m))))"
proof -
  obtain p where p: "cPayload m = GoVal p" and i: "iface f64 j = rounded_json f64 m p"
    using client_json_rounded [OF j] by blast
  have "bind_pushback f64 (Doc (pushback_body t j)) = Inr (t, GoVal (rounded_json f64 m p))"
    using t i by (simp add: bind_pushback_def bind_json_def unmarshal_struct_def pushback_body_def
        pushback_setf_def) (simp add: rounded_json_def)
  with run have "on_call (SendQueueRPushWithRetry cs 2 (offline_key t) (Doc (rounded_json f64 m p)))
      (\<lambda>e. return (ReplyError500 ''Failed to push offline message''))
      (\<lambda>_. return (ReplySuccess ''Pushback success'')) w = (r, w')"
    by (simp add: PushbackHandler_def marshal_val_def)
  with ok have push: "RPushWithRetry rd 2 (offline_key t) (Doc (rounded_json f64 m p)) w = (Inr (), w')"
    by (elim on_callE) (auto simp: reply_defs SendQueueRPushWithRetry_def sendRPushWithRetry_def queue RPushWithRetry_def)
  from rpush_retried [OF laws _ push] obtain n where n: "1 \<le> n" "n \<le> 2"
    "lst w' = (lst w)(offline_key t := lst w (offline_key t) @ replicate n (Doc (rounded_json f64 m p)))" by auto
  with p rounded_unmarshal [of f64 m p] show ?thesis by auto
qed

text \<open>\<open>float64(9007199254740993)\<close> is 9007199254740992: the message is stored under another id.\<close>

definition demo_f64 :: "int \<Rightarrow> int" where
  "demo_f64 n = (if n = 9007199254740993 then 9007199254740992 else n)"

definition demo_lost :: client_message where
  "demo_lost = \<lparr>cID = 9007199254740993, cType = ''chat'', cRoomID = 5, cSenderID = 8, cPayload = GoVal (JStr ''hi'')\<rparr>"

theorem pushback_stores_rounded_witness:
  "\<exists>j r w' d. client_json demo_lost = Inr j
     \<and> PushbackHandler demo_f64 (clients demo_deps) (Doc (pushback_body 7 j)) mem_empty = (r, w') \<and> status r = 200
     \<and> d \<in> set (m_lists w' (offline_key 7)) \<and> cID (snd (client_unmarshal demo_f64 d)) = 9007199254740992"
proof -
  obtain j where j: "client_json demo_lost = Inr j" by (simp add: client_json_def demo_lost_def marshal_val_def)
  obtain p where p: "iface demo_f64 j = rounded_json demo_f64 demo_lost p"
    using client_json_rounded [OF j] by blast
  have b: "bind_pushback demo_f64 (Doc (pushback_body 7 j)) = Inr (7, GoVal (rounded_json demo_f64 demo_lost p))"
    using p by (simp add: bind_pushback_def bind_json_def unmarshal_struct_def pushback_body_def
        pushback_setf_def) (simp add: rounded_json_def)
  have q: "getSendRoleClient (clients demo_deps) RoleQueue = Some mem_redis"
    by (simp add: demo_deps_def getSendRoleClient_def)
  have "fst (PushbackHandler demo_f64 (clients demo_deps) (Doc (pushback_body 7 j)) mem_empty) = ReplySuccess ''Pushback success''"
    by (simp add: PushbackHandler_def b marshal_val_def on_call_def SendQueueRPushWithRetry_def q
        sendRPushWithRetry_def numeral_2_eq_2 mem_redis_def mem_write_def mem_empty_def)
  then obtain w' where run: "PushbackHandler demo_f64 (clients demo_deps) (Doc (pushback_body 7 j)) mem_empty
      = (ReplySuccess ''Pushback success'', w')" by (metis prod.collapse)
  have "in_int64 (demo_f64 (sint (cID demo_lost)))" "in_int64 (demo_f64 (sint (cRoomID demo_lost)))"
    "in_int64 (demo_f64 (sint (cSenderID demo_lost)))"
    by (simp_all add: in_int64_def demo_f64_def demo_lost_def)
  with pushback_stores_rounded [OF q mem_list_laws _ j run] obtain n p' where n: "1 \<le> n"
    "m_lists w' (offline_key 7) = m_lists mem_empty (offline_key 7) @ replicate n (Doc (rounded_json demo_f64 demo_lost p'))"
    "cID (snd (client_unmarshal demo_f64 (Doc (rounded_json demo_f64 demo_lost p')))) = word_of_int (demo_f64 (sint (cID demo_lost)))"
    by (auto simp: reply_defs)
  then have "Doc (rounded_json demo_f64 demo_lost p') \<in> set (m_lists w' (offline_key 7))"
    "cID (snd (client_unmarshal demo_f64 (Doc (rounded_json demo_f64 demo_lost p')))) = 9007199254740992"
    by (simp_all add: demo_f64_def demo_lost_def)
  with j run show ?thesis by (auto simp: reply_defs)
qed

end
