(* ===== verification/AckCache.thy ===== *)
theory AckCache
  imports RedisApi
begin

text \<open>
  \<open>pkg/db/redis/AckCache.go\<close>: ids to acknowledge on the gateway's stream are buffered in a channel of
  10000, collected by one goroutine into batches of at most 1024 and sent with \<open>XACK\<close> when a batch is
  full, at every tick, and at shutdown. The goroutine's \<open>select\<close> is a sequence of events.
\<close>

section \<open>State and events\<close>

record ack_cache =
  msgCh :: "string list"
  ackBatch :: "string list"
  ackExited :: bool

definition maxBatchSize :: nat where
  "maxBatchSize = 1024"

definition ackCapacity :: nat where
  "ackCapacity = 10000"

definition InitAckCache :: ack_cache where
  "InitAckCache = \<lparr>msgCh = [], ackBatch = [], ackExited = False\<rparr>"

text \<open>An id that finds the channel full is dropped. The second result lists the accepted ones.\<close>

fun InsertAckCache :: "string list \<Rightarrow> ack_cache \<Rightarrow> ack_cache \<times> string list" where
  "InsertAckCache [] st = (st, [])"
| "InsertAckCache (x # xs) st =
     (if length (msgCh st) < ackCapacity then
        (case InsertAckCache xs (st\<lparr>msgCh := msgCh st @ [x]\<rparr>) of (st', acc) \<Rightarrow> (st', x # acc))
      else InsertAckCache xs st)"

datatype ack_event = TakeId | Tick | Stop | Insert "string list"

text \<open>One round of the worker's loop; the second result is the batch it sends, if any.\<close>

definition flush_batch :: "ack_cache \<Rightarrow> ack_cache \<times> string list list" where
  "flush_batch st = (st\<lparr>ackBatch := []\<rparr>, [ackBatch st])"

fun ack_step :: "ack_event \<Rightarrow> ack_cache \<Rightarrow> ack_cache \<times> string list list" where
  "ack_step TakeId st =
     (if ackExited st then (st, [])
      else case msgCh st of
          [] \<Rightarrow> (st, [])
        | x # xs \<Rightarrow>
            let st1 = st\<lparr>msgCh := xs, ackBatch := ackBatch st @ [x]\<rparr> in
            if maxBatchSize \<le> length (ackBatch st1) then flush_batch st1 else (st1, []))"
| "ack_step Tick st = (if ackExited st \<or> ackBatch st = [] then (st, []) else flush_batch st)"
| "ack_step Stop st =
     (if ackExited st then (st, [])
      else let (st1, out) = (if ackBatch st = [] then (st, []) else flush_batch st) in (st1\<lparr>ackExited := True\<rparr>, out))"
| "ack_step (Insert xs) st = (fst (InsertAckCache xs st), [])"

text \<open>The worker on the world: each batch is sent with three attempts, whose failure is ignored.\<close>

definition cacheFlushWorker :: "'w redis \<Rightarrow> string \<Rightarrow> string \<Rightarrow> ack_event \<Rightarrow> ack_cache \<times> 'w \<Rightarrow> ack_cache \<times> 'w" where
  "cacheFlushWorker rd stream grp ev s =
     (case ack_step ev (fst s) of
        (st', out) \<Rightarrow> (st', fold (\<lambda>ids w. snd (XAckWithRetry rd 3 stream grp ids w)) out (snd s)))"

section \<open>Runs\<close>

fun ack_run :: "ack_event list \<Rightarrow> ack_cache \<Rightarrow> string list list \<times> string list \<times> ack_cache" where
  "ack_run [] st = ([], [], st)"
| "ack_run (e # es) st =
     (let (st1, out) = ack_step e st;
          acc = (case e of Insert xs \<Rightarrow> snd (InsertAckCache xs st) | _ \<Rightarrow> []);
          (out', acc', st') = ack_run es st1
      in (out @ out', acc @ acc', st'))"

lemma InsertAckCache_effect:
  "InsertAckCache xs st = (st', acc) \<Longrightarrow> length (msgCh st) \<le> ackCapacity \<Longrightarrow>
     msgCh st' = msgCh st @ acc \<and> ackBatch st' = ackBatch st \<and> ackExited st' = ackExited st
     \<and> length (msgCh st') \<le> ackCapacity"
proof (induction xs arbitrary: st acc)
  case Nil
  then show ?case by simp
next
  case (Cons x xs)
  show ?case
  proof (cases "length (msgCh st) < ackCapacity")
    case True
    with Cons.prems obtain acc' where "InsertAckCache xs (st\<lparr>msgCh := msgCh st @ [x]\<rparr>) = (st', acc')" "acc = x # acc'"
      by (auto split: prod.splits)
    from Cons.IH [OF this(1)] this(2) True show ?thesis by auto
  next
    case False
    with Cons.prems have "InsertAckCache xs st = (st', acc)" by simp
    from Cons.IH [OF this Cons.prems(2)] show ?thesis .
  qed
qed

definition ack_ok :: "ack_cache \<Rightarrow> bool" where
  "ack_ok st \<longleftrightarrow> length (ackBatch st) < maxBatchSize \<and> length (msgCh st) \<le> ackCapacity \<and> (ackExited st \<longrightarrow> ackBatch st = [])"

lemma ack_step_ok:
  assumes "ack_ok st" "ack_step e st = (st', out)"
  shows "ack_ok st' \<and> (\<forall>b \<in> set out. 0 < length b \<and> length b \<le> maxBatchSize)
    \<and> concat out @ ackBatch st' @ msgCh st' =
        ackBatch st @ msgCh st @ (case e of Insert xs \<Rightarrow> snd (InsertAckCache xs st) | _ \<Rightarrow> [])"
proof (cases e)
  case (Insert xs)
  with assms InsertAckCache_effect [of xs st "fst (InsertAckCache xs st)" "snd (InsertAckCache xs st)"]
  show ?thesis by (auto simp: ack_ok_def)
qed (use assms in \<open>auto simp: ack_ok_def flush_batch_def Let_def maxBatchSize_def split: if_splits list.splits\<close>)

text \<open>
  C33: over any sequence of insertions, receptions, ticks and a shutdown, the ids sent with \<open>XACK\<close>,
  then those in the batch, then those in the channel are exactly the accepted ids in order: none is
  lost, repeated or reordered before it is sent; every batch sent has between 1 and 1024 ids.
\<close>

theorem ack_cache_conserves:
  assumes "ack_run es InitAckCache = (out, acc, st')"
  shows "concat out @ ackBatch st' @ msgCh st' = acc \<and> length (ackBatch st') < maxBatchSize
    \<and> length (msgCh st') \<le> ackCapacity \<and> (\<forall>b \<in> set out. 0 < length b \<and> length b \<le> maxBatchSize)"
proof -
  have "concat out @ ackBatch st' @ msgCh st' = ackBatch st @ msgCh st @ acc \<and> ack_ok st'
      \<and> (\<forall>b \<in> set out. 0 < length b \<and> length b \<le> maxBatchSize)"
    if "ack_run es st = (out, acc, st')" "ack_ok st" for st
    using that
  proof (induction es arbitrary: st out acc)
    case Nil
    then show ?case by simp
  next
    case (Cons e es)
    obtain st1 o1 where s: "ack_step e st = (st1, o1)" by force
    obtain o2 a2 where r: "ack_run es st1 = (o2, a2, st')" using Cons.prems(1) s
      by (auto simp: Let_def split: prod.splits)
    have out: "out = o1 @ o2" "acc = (case e of Insert xs \<Rightarrow> snd (InsertAckCache xs st) | _ \<Rightarrow> []) @ a2"
      using Cons.prems(1) s r by (auto simp: Let_def)
    from ack_step_ok [OF Cons.prems(2) s] Cons.IH [OF r] out show ?case by auto
  qed
  from this [OF assms] show ?thesis by (simp add: InitAckCache_def ack_ok_def maxBatchSize_def)
qed

theorem ack_cache_conserves_witness:
  "\<exists>st. ack_run [Insert [''1'', ''2''], TakeId, Tick, TakeId, Insert [''3''], Stop] InitAckCache
      = ([[''1''], [''2'']], [''1'', ''2'', ''3''], st) \<and> msgCh st = [''3'']"
proof -
  obtain out acc st where r: "ack_run [Insert [''1'', ''2''], TakeId, Tick, TakeId, Insert [''3''], Stop] InitAckCache = (out, acc, st)"
    by (metis surj_pair)
  then have "out = [[''1''], [''2'']]" "acc = [''1'', ''2'', ''3'']" "ackBatch st = []"
    by (auto simp: InitAckCache_def ackCapacity_def maxBatchSize_def flush_batch_def Let_def)
  with ack_cache_conserves [OF r] r show ?thesis by auto
qed

end
