(* ===== verification/Monitor.thy ===== *)
theory Monitor
  imports Prelude
begin

text \<open>
  \<open>pkg/monitor/monitor.go\<close>: the latest completed tasks in a ring of \<open>maxLen\<close> slots with running
  totals, fed through a channel that the goroutine started by \<open>Run\<close> empties. The abstract view
  \<open>window\<close> is the list of tasks in the ring; the operations refine list operations on it. Times are
  milliseconds as \<open>int64\<close>, the current time an argument; \<open>NewMonitor\<close> is called with 1000 and 100.
\<close>

section \<open>State\<close>

record task =
  sTime :: int64
  lTime :: int64
  success :: bool

record monitor =
  tasks :: "task list"
  inWindow :: nat
  headindex :: nat
  tailindex :: nat
  maxLen :: nat
  windowdur :: int64
  totalTimeCount :: int64
  successCount :: nat
  insertChan :: "task list"

definition NewMonitor :: "nat \<Rightarrow> int64 \<Rightarrow> monitor" where
  "NewMonitor n dur = \<lparr>tasks = replicate n \<lparr>sTime = 0, lTime = 0, success = False\<rparr>, inWindow = 0,
     headindex = 0, tailindex = 0, maxLen = n, windowdur = dur, totalTimeCount = 0, successCount = 0, insertChan = []\<rparr>"

definition NewTask :: "int64 \<Rightarrow> task" where
  "NewTask now = \<lparr>sTime = now, lTime = 0, success = False\<rparr>"

section \<open>Operations\<close>

text \<open>A send to the channel, of capacity \<open>maxLen\<close>, waits while it is full.\<close>

definition CompleteTask :: "task \<Rightarrow> bool \<Rightarrow> int64 \<Rightarrow> (monitor, unit) proc" where
  "CompleteTask t ok now m =
     (if length (insertChan m) < maxLen m
      then Inr ((), m\<lparr>insertChan := insertChan m @ [t\<lparr>lTime := now, success := ok\<rparr>]\<rparr>)
      else Inl Blocked)"

definition GetStats :: "(int64 \<Rightarrow> nat \<Rightarrow> 'f) \<Rightarrow> 'f \<Rightarrow> monitor \<Rightarrow> 'f \<times> 'f \<times> nat" where
  "GetStats quot zero m =
     (if inWindow m = 0 then (zero, zero, 0)
      else (quot (totalTimeCount m) (inWindow m), quot (word_of_nat (successCount m)) (inWindow m), inWindow m))"

text \<open>Taking the oldest task out of the totals and the ring; both loops of \<open>Run\<close> do it.\<close>

definition drop_head :: "monitor \<Rightarrow> monitor" where
  "drop_head m =
     (let old = tasks m ! headindex m in
      m\<lparr>headindex := (headindex m + 1) mod maxLen m, inWindow := inWindow m - 1,
        totalTimeCount := totalTimeCount m - (lTime old - sTime old),
        successCount := (if success old then successCount m - 1 else successCount m)\<rparr>)"

partial_function (option) evict :: "int64 \<Rightarrow> monitor \<Rightarrow> monitor option" where
  "evict now m =
     (if headindex m \<noteq> tailindex m then
        let old = tasks m ! headindex m in
        if lTime old = 0 \<or> now - lTime old <s windowdur m then Some m else evict now (drop_head m)
      else Some m)"

definition put_tail :: "task \<Rightarrow> monitor \<Rightarrow> monitor" where
  "put_tail t m =
     m\<lparr>tasks := (tasks m)[tailindex m := t], tailindex := (tailindex m + 1) mod maxLen m, inWindow := inWindow m + 1,
       totalTimeCount := totalTimeCount m + (lTime t - sTime t),
       successCount := (if success t then successCount m + 1 else successCount m)\<rparr>"

text \<open>One round of \<open>Run\<close> that receives \<open>t\<close>; \<open>None\<close> would be a round that does not end.\<close>

definition insert_task :: "int64 \<Rightarrow> task \<Rightarrow> monitor \<Rightarrow> monitor option" where
  "insert_task now t m =
     (case evict now m of
        None \<Rightarrow> None
      | Some m1 \<Rightarrow> Some (put_tail t (if inWindow m1 = maxLen m1 then drop_head m1 else m1)))"

definition run_round :: "int64 \<Rightarrow> monitor \<Rightarrow> monitor option" where
  "run_round now m =
     (case insertChan m of
        [] \<Rightarrow> Some m
      | t # ts \<Rightarrow> insert_task now t (m\<lparr>insertChan := ts\<rparr>))"

section \<open>The window\<close>

definition slot :: "monitor \<Rightarrow> nat \<Rightarrow> nat" where
  "slot m i = (headindex m + i) mod maxLen m"

definition window :: "monitor \<Rightarrow> task list" where
  "window m = map (\<lambda>i. tasks m ! slot m i) [0..<inWindow m]"

definition elapsed :: "task list \<Rightarrow> int64" where
  "elapsed ts = sum_list (map (\<lambda>t. lTime t - sTime t) ts)"

definition successes :: "task list \<Rightarrow> nat" where
  "successes ts = length (filter success ts)"

definition mon_ok :: "monitor \<Rightarrow> bool" where
  "mon_ok m \<longleftrightarrow> 0 < maxLen m \<and> length (tasks m) = maxLen m \<and> inWindow m \<le> maxLen m
     \<and> headindex m < maxLen m \<and> tailindex m = slot m (inWindow m)
     \<and> totalTimeCount m = elapsed (window m) \<and> successCount m = successes (window m)"

lemma mon_ok_new: "0 < n \<Longrightarrow> mon_ok (NewMonitor n dur)"
  by (simp add: mon_ok_def NewMonitor_def slot_def window_def elapsed_def successes_def)

text \<open>The specification: a list that loses old tasks at its head.\<close>

definition stale :: "int64 \<Rightarrow> int64 \<Rightarrow> task \<Rightarrow> bool" where
  "stale dur now t \<longleftrightarrow> lTime t \<noteq> 0 \<and> \<not> now - lTime t <s dur"

definition window_insert :: "nat \<Rightarrow> int64 \<Rightarrow> int64 \<Rightarrow> task \<Rightarrow> task list \<Rightarrow> task list" where
  "window_insert n dur now t q =
     (if length q = n then tl q else dropWhile (stale dur now) q) @ [t]"

section \<open>The ring refines the list\<close>

lemma slot_drop: "slot (drop_head m) i = slot m (Suc i)"
  by (simp add: slot_def drop_head_def Let_def mod_add_left_eq)

lemma window_head:
  assumes "mon_ok m" "0 < inWindow m"
  shows "window m = tasks m ! headindex m # window (drop_head m)"
proof -
  obtain k where k: "inWindow m = Suc k" using assms(2) by (cases "inWindow m") auto
  have h: "slot m 0 = headindex m" using assms(1) by (simp add: slot_def mon_ok_def)
  have "tasks (drop_head m) = tasks m" "inWindow (drop_head m) = k"
    by (simp_all add: drop_head_def Let_def k)
  then show ?thesis
    by (simp add: window_def k h slot_drop upt_conv_Cons map_Suc_upt [symmetric] o_def del: upt_Suc)
qed

lemma drop_head_fields [simp]:
  "maxLen (drop_head m) = maxLen m" "tasks (drop_head m) = tasks m" "windowdur (drop_head m) = windowdur m"
  "inWindow (drop_head m) = inWindow m - 1" "tailindex (drop_head m) = tailindex m" "insertChan (drop_head m) = insertChan m"
  by (simp_all add: drop_head_def Let_def)

lemma drop_head_totals:
  "totalTimeCount (drop_head m) = totalTimeCount m - (lTime (tasks m ! headindex m) - sTime (tasks m ! headindex m))"
  "successCount (drop_head m) = successCount m - (if success (tasks m ! headindex m) then 1 else 0)"
  by (simp_all add: drop_head_def Let_def)

lemma drop_head_ok:
  assumes ok: "mon_ok m" and c: "0 < inWindow m"
  shows "mon_ok (drop_head m)"
proof -
  have t: "tailindex m = slot (drop_head m) (inWindow m - 1)"
    using ok c by (simp add: mon_ok_def slot_drop)
  have "totalTimeCount (drop_head m) = elapsed (window (drop_head m))"
    "successCount (drop_head m) = successes (window (drop_head m))"
    using ok window_head [OF ok c] by (simp_all add: mon_ok_def drop_head_totals elapsed_def successes_def)
  with ok t show ?thesis by (auto simp: mon_ok_def) (simp add: drop_head_def Let_def)
qed

lemma ring_empty:
  assumes "mon_ok m"
  shows "headindex m = tailindex m \<longleftrightarrow> inWindow m = 0 \<or> inWindow m = maxLen m"
proof -
  from assms have b: "inWindow m \<le> maxLen m" "headindex m < maxLen m"
    and t: "tailindex m = (headindex m + inWindow m) mod maxLen m"
    by (simp_all add: mon_ok_def slot_def)
  consider "inWindow m = maxLen m" | "inWindow m < maxLen m" "headindex m + inWindow m < maxLen m"
    | "inWindow m < maxLen m" "maxLen m \<le> headindex m + inWindow m" using b(1) by linarith
  then show ?thesis
  proof cases
    case 3
    then have "tailindex m = headindex m + inWindow m - maxLen m" using b t by (simp add: mod_if)
    with 3 b show ?thesis by linarith
  qed (use b t in simp_all)
qed

lemma evict_window:
  "mon_ok m \<Longrightarrow> \<exists>m'. evict now m = Some m' \<and> mon_ok m' \<and> maxLen m' = maxLen m \<and> windowdur m' = windowdur m
     \<and> insertChan m' = insertChan m
     \<and> window m' = (if inWindow m = maxLen m then window m else dropWhile (stale (windowdur m) now) (window m))"
proof (induction "inWindow m" arbitrary: m)
  case 0
  then have "headindex m = tailindex m" "window m = []" using ring_empty [of m] by (simp_all add: window_def)
  with 0 show ?case by (subst evict.simps) simp
next
  case (Suc k)
  let ?t = "tasks m ! headindex m"
  from Suc have w: "window m = ?t # window (drop_head m)" by (intro window_head) simp_all
  show ?case
  proof (cases "inWindow m = maxLen m")
    case True
    then have "headindex m = tailindex m" using ring_empty [OF Suc.prems] by simp
    with True Suc.prems show ?thesis by (subst evict.simps) simp
  next
    case False
    then have ne: "headindex m \<noteq> tailindex m" using ring_empty [OF Suc.prems] Suc.hyps(2) by simp
    show ?thesis
    proof (cases "stale (windowdur m) now ?t")
      case False
      with ne have "evict now m = Some m" by (subst evict.simps) (auto simp: stale_def Let_def)
      with False w Suc.prems \<open>inWindow m \<noteq> maxLen m\<close> show ?thesis by auto
    next
      case True
      with ne have e: "evict now m = evict now (drop_head m)" by (subst evict.simps) (auto simp: stale_def Let_def)
      have d: "mon_ok (drop_head m)" "inWindow (drop_head m) \<noteq> maxLen (drop_head m)"
        using drop_head_ok [OF Suc.prems] Suc.hyps(2) Suc.prems by (auto simp: mon_ok_def)
      have "k = inWindow (drop_head m)" using Suc.hyps(2) by simp
      from Suc.hyps(1) [OF this d(1)] d(2) True w \<open>inWindow m \<noteq> maxLen m\<close> e show ?thesis by auto
    qed
  qed
qed

lemma put_tail_window:
  assumes ok: "mon_ok m" and room: "inWindow m < maxLen m"
  shows "mon_ok (put_tail t m) \<and> window (put_tail t m) = window m @ [t]"
proof -
  have lt: "tailindex m < length (tasks m)" using ok by (simp add: mon_ok_def slot_def)
  have s: "slot (put_tail t m) i = slot m i" for i by (simp add: slot_def put_tail_def)
  have inj: "slot m i \<noteq> tailindex m" if "i < inWindow m" for i
  proof
    assume "slot m i = tailindex m"
    then have "(headindex m + inWindow m) mod maxLen m = (headindex m + i) mod maxLen m"
      using ok by (simp add: mon_ok_def slot_def)
    then have "maxLen m dvd inWindow m - i"
      using that mod_eq_dvd_iff_nat [of "headindex m + i" "headindex m + inWindow m" "maxLen m"] by simp
    with that room show False using nat_dvd_not_less [of "inWindow m - i" "maxLen m"] by simp
  qed
  have tail: "slot m (inWindow m) = tailindex m" using ok by (simp add: mon_ok_def)
  have w: "window (put_tail t m) = window m @ [t]"
    using inj [THEN not_sym] lt tail by (auto simp: window_def s) (auto simp: put_tail_def)
  have "tailindex (put_tail t m) = slot (put_tail t m) (inWindow (put_tail t m))"
    using ok by (simp add: s) (simp add: put_tail_def slot_def mon_ok_def mod_Suc_eq)
  moreover have "totalTimeCount (put_tail t m) = elapsed (window (put_tail t m))"
    "successCount (put_tail t m) = successes (window (put_tail t m))"
    using ok by (simp_all add: w elapsed_def successes_def) (simp_all add: put_tail_def mon_ok_def elapsed_def successes_def)
  ultimately show ?thesis using ok room w by (simp add: mon_ok_def) (simp add: put_tail_def)
qed

lemma window_length [simp]: "length (window m) = inWindow m"
  by (simp add: window_def)

lemma insert_task_window:
  assumes ok: "mon_ok m"
  shows "\<exists>m'. insert_task now t m = Some m' \<and> mon_ok m' \<and> maxLen m' = maxLen m \<and> insertChan m' = insertChan m
    \<and> windowdur m' = windowdur m
    \<and> window m' = window_insert (maxLen m) (windowdur m) now t (window m)"
proof -
  obtain m1 where e: "evict now m = Some m1" "mon_ok m1" "maxLen m1 = maxLen m" "windowdur m1 = windowdur m"
    "insertChan m1 = insertChan m"
    "window m1 = (if inWindow m = maxLen m then window m else dropWhile (stale (windowdur m) now) (window m))"
    using evict_window [OF ok] by blast
  define m2 where "m2 = (if inWindow m1 = maxLen m1 then drop_head m1 else m1)"
  have room: "mon_ok m2 \<and> inWindow m2 < maxLen m2 \<and> maxLen m2 = maxLen m \<and> insertChan m2 = insertChan m \<and> windowdur m2 = windowdur m
    \<and> window m2 = (if length (window m) = maxLen m then tl (window m) else dropWhile (stale (windowdur m) now) (window m))"
  proof (cases "inWindow m1 = maxLen m1")
    case True
    have "inWindow m = maxLen m"
    proof (rule ccontr)
      assume "inWindow m \<noteq> maxLen m"
      then have "inWindow m1 \<le> inWindow m"
        using e(6) window_length [of m1] length_dropWhile_le [of "stale (windowdur m) now" "window m"] by simp
      with True e(3) ok \<open>inWindow m \<noteq> maxLen m\<close> show False by (simp add: mon_ok_def)
    qed
    moreover have "0 < inWindow m1" using True e(2) by (simp add: mon_ok_def)
    moreover from this have "tl (window m1) = window (drop_head m1)" using window_head [OF e(2)] by simp
    ultimately show ?thesis
      using True e drop_head_ok [OF e(2)] by (auto simp: m2_def)
  next
    case False
    then have "inWindow m \<noteq> maxLen m"
      using e(3,6) window_length [of m1] by auto
    with False e show ?thesis by (auto simp: m2_def mon_ok_def)
  qed
  have "insert_task now t m = Some (put_tail t m2)" by (simp add: insert_task_def e m2_def)
  moreover have "maxLen (put_tail t m2) = maxLen m" "insertChan (put_tail t m2) = insertChan m" "windowdur (put_tail t m2) = windowdur m"
    using room by (simp_all add: put_tail_def)
  ultimately show ?thesis
    using put_tail_window [OF room [THEN conjunct1] room [THEN conjunct2, THEN conjunct1], of t] room
    by (simp add: window_insert_def)
qed

section \<open>Hooks\<close>

text \<open>
  \<open>pkg/db/redis/hook.go\<close> and the hook of \<open>pkg/db/mysql/mysql.go\<close>: every command of the database
  client is a task of a monitor, completed after the command was carried out by \<open>exec\<close>.
\<close>

definition ProcessHook :: "('w, goerr + 'a) io \<Rightarrow> int64 \<Rightarrow> int64 \<Rightarrow> (monitor \<times> 'w, goerr + 'a) proc" where
  "ProcessHook exec started ended s =
     (case exec (snd s) of
        (r, w) \<Rightarrow>
          (case CompleteTask (NewTask started) (case r of Inl e \<Rightarrow> False | Inr v \<Rightarrow> True) ended (fst s) of
             Inl h \<Rightarrow> Inl h
           | Inr (_, m) \<Rightarrow> Inr (r, (m, w))))"

definition mysql_Before :: "int64 \<Rightarrow> task" where
  "mysql_Before now = NewTask now"

definition mysql_After :: "task \<Rightarrow> int64 \<Rightarrow> (monitor, unit) proc" where
  "mysql_After t now = CompleteTask t True now"

definition mysql_OnError :: "task \<Rightarrow> int64 \<Rightarrow> (monitor, unit) proc" where
  "mysql_OnError t now = CompleteTask t False now"

text \<open>Commands one after the other, each with its start and end time.\<close>

fun hooked_commands :: "(('w, goerr + 'a) io \<times> int64 \<times> int64) list \<Rightarrow> (monitor \<times> 'w, (goerr + 'a) list) proc" where
  "hooked_commands [] = returns []"
| "hooked_commands ((exec, t0, t1) # cs) =
     then_do (ProcessHook exec t0 t1) (\<lambda>r. then_do (hooked_commands cs) (\<lambda>rs. returns (r # rs)))"

lemma hooked_commands_room:
  "length (insertChan m) \<le> maxLen m \<Longrightarrow>
     (if length (insertChan m) + length cs \<le> maxLen m
      then \<exists>rs s'. hooked_commands cs (m, w) = Inr (rs, s') \<and> length rs = length cs
      else hooked_commands cs (m, w) = Inl Blocked)"
proof (induction cs arbitrary: m w)
  case Nil
  then show ?case by simp
next
  case (Cons c cs)
  obtain exec t0 t1 where c: "c = (exec, t0, t1)" by (cases c)
  obtain r w1 where n: "exec w = (r, w1)" by (cases "exec w")
  show ?case
  proof (cases "length (insertChan m) < maxLen m")
    case True
    then obtain t where p: "ProcessHook exec t0 t1 (m, w) = Inr (r, (m\<lparr>insertChan := insertChan m @ [t]\<rparr>, w1))"
      by (auto simp: ProcessHook_def n CompleteTask_def then_do_def)
    from True Cons.IH [of "m\<lparr>insertChan := insertChan m @ [t]\<rparr>" w1] show ?thesis
      by (auto simp: c p then_do_def split: if_splits)
  next
    case False
    with Cons.prems show ?thesis by (simp add: c ProcessHook_def n CompleteTask_def then_do_def)
  qed
qed

section \<open>Properties\<close>

text \<open>
  C11: a round of the monitor always ends, keeps the ring's invariant and refines the list: the tasks in
  the ring afterwards are those of \<open>window_insert\<close>, and the statistics are computed from exactly these,
  their number being at most \<open>maxLen\<close>, their times and successes summed without drift.
\<close>

theorem monitor_refines_window:
  assumes ok: "mon_ok m"
  shows "\<exists>m'. insert_task now t m = Some m' \<and> mon_ok m' \<and> maxLen m' = maxLen m
    \<and> window m' = window_insert (maxLen m) (windowdur m) now t (window m)
    \<and> GetStats quot zero m' = (quot (elapsed (window m')) (length (window m')),
         quot (word_of_nat (successes (window m'))) (length (window m')), length (window m'))
    \<and> length (window m') \<le> maxLen m"
proof -
  obtain m' where m': "insert_task now t m = Some m'" "mon_ok m'" "maxLen m' = maxLen m"
    "window m' = window_insert (maxLen m) (windowdur m) now t (window m)"
    using insert_task_window [OF ok] by blast
  moreover have "0 < inWindow m'" using m'(4) window_length [of m'] by (simp add: window_insert_def)
  ultimately show ?thesis by (auto simp: GetStats_def mon_ok_def)
qed

text \<open>
  When the ring is full its first and last index agree, which the loop over old tasks takes for an
  empty ring: however old the tasks are, only one leaves per insertion.
\<close>

theorem full_ring_keeps_stale:
  assumes ok: "mon_ok m" and full: "inWindow m = maxLen m"
  shows "\<exists>m'. insert_task now t m = Some m' \<and> window m' = tl (window m) @ [t] \<and> inWindow m' = maxLen m"
proof -
  obtain m' where m': "insert_task now t m = Some m'" "window m' = tl (window m) @ [t]"
    using insert_task_window [OF ok, of now t] full by (auto simp: window_insert_def)
  then have "inWindow m' = maxLen m"
    using full ok window_length [of m'] by (simp add: mon_ok_def)
  with m' show ?thesis by blast
qed

text \<open>
  C12: a database client whose monitor nobody runs, as the Redis and the MySQL clients' are, carries out
  as many commands as the monitor has slots; the next one is carried out but never returns.
\<close>

theorem unread_monitor_blocks:
  "if length cs \<le> n then \<exists>rs s'. hooked_commands cs (NewMonitor n dur, w) = Inr (rs, s') \<and> length rs = length cs
   else hooked_commands cs (NewMonitor n dur, w) = Inl Blocked"
  using hooked_commands_room [of "NewMonitor n dur" cs w] by (simp add: NewMonitor_def)

section \<open>Witnesses\<close>

definition demo_monitor :: monitor where
  "demo_monitor = (NewMonitor 2 60)\<lparr>tasks := [\<lparr>sTime = 1, lTime = 2, success = True\<rparr>, \<lparr>sTime = 3, lTime = 5, success = False\<rparr>],
     inWindow := 2, totalTimeCount := 3, successCount := 1\<rparr>"

lemma demo_monitor_ok: "mon_ok demo_monitor"
  and demo_monitor_window: "window demo_monitor =
    [\<lparr>sTime = 1, lTime = 2, success = True\<rparr>, \<lparr>sTime = 3, lTime = 5, success = False\<rparr>]"
  by (simp_all add: demo_monitor_def mon_ok_def NewMonitor_def window_def slot_def elapsed_def successes_def numeral_2_eq_2)

theorem monitor_refines_window_witness:
  "\<exists>m'. insert_task 100 \<lparr>sTime = 90, lTime = 100, success = True\<rparr> (NewMonitor 2 60) = Some m'
     \<and> window m' = [\<lparr>sTime = 90, lTime = 100, success = True\<rparr>]"
  using monitor_refines_window [OF mon_ok_new, of 2 100 "\<lparr>sTime = 90, lTime = 100, success = True\<rparr>" 60 "\<lambda>_ _. ()" "()"]
  by (auto simp: NewMonitor_def window_insert_def window_def)

theorem full_ring_keeps_stale_witness:
  "\<exists>m'. insert_task 1000000 \<lparr>sTime = 9, lTime = 9, success = True\<rparr> demo_monitor = Some m'
     \<and> window m' = [\<lparr>sTime = 3, lTime = 5, success = False\<rparr>, \<lparr>sTime = 9, lTime = 9, success = True\<rparr>]"
  using full_ring_keeps_stale [OF demo_monitor_ok, of 1000000 "\<lparr>sTime = 9, lTime = 9, success = True\<rparr>"]
  by (simp add: demo_monitor_window) (auto simp: demo_monitor_def NewMonitor_def)

end
