(* ===== verification/GwConn.thy ===== *)
theory GwConn
  imports ConnStore Pushback AckCache Monitor
begin

text \<open>
  \<open>internal/gateway/push/manager.go\<close>: the gateway's connections. A connection holder is a pointer, so
  it is a cell of \<open>holders\<close>; its buffered channel \<open>sendCh\<close> is a list with a capacity and a closed
  flag. \<open>connCount\<close> and \<open>totalPending\<close> are counters kept beside the data they count, and the
  invariant \<open>gw_inv\<close> says that they count it. An operation here is one uninterrupted execution; the
  race between enqueueing and closing is stated on the two halves of \<open>EnqueueMessage\<close>.
\<close>

section \<open>State\<close>

datatype gw_msg = GPing | GClient client_message | GOther json

record request =
  rqMsg :: gw_msg
  rqResp :: bool

record holder =
  hConn :: nat
  hSend :: "request list"
  hCap :: nat
  hSendClosed :: bool
  hCloseSig :: bool

record 'w gw_proc =
  gw_world :: 'w
  gw_pm :: pending_manager
  gw_ack :: ack_cache
  holders :: "holder list"
  connStore :: "int64 \<rightharpoonup> nat"
  closedConns :: "nat list"
  connCount :: int64
  totalPending :: int64
  isPulling :: bool
  taskChan :: "push_message list"
  pullsStarted :: nat
  waitSet :: "int64 list"
  waitMsg :: "int64 \<rightharpoonup> wire list"
  pushMonitor :: "monitor option"

record 'w gw_deps =
  gdRedis :: "'w redis"
  gdRegistry :: "'w http option"
  gdReport :: "'w http option"
  gdGatewayID :: string
  gdEnv :: regenv
  gdFloat :: "int \<Rightarrow> int"
  gdPick :: "nat \<Rightarrow> nat"
  gdConfigured :: bool
  gdBuffer :: "nat option"
  gdThreshold :: int64

section \<open>Counters\<close>

text \<open>\<open>PullTask\<close> starts a goroutine \<open>pullLoop\<close> unless one runs or there is enough to do.\<close>

definition PullTask :: "'w gw_deps \<Rightarrow> 'w gw_proc \<Rightarrow> 'w gw_proc" where
  "PullTask d s =
     (if isPulling s then s
      else if 800 < length (taskChan s) then s
      else if gdThreshold d <s totalPending s then s
      else s\<lparr>pullsStarted := Suc (pullsStarted s)\<rparr>)"

definition incPending :: "int64 \<Rightarrow> 'w gw_proc \<Rightarrow> 'w gw_proc" where
  "incPending n s = s\<lparr>totalPending := totalPending s + n\<rparr>"

definition decPending :: "'w gw_deps \<Rightarrow> int64 \<Rightarrow> 'w gw_proc \<Rightarrow> 'w gw_proc" where
  "decPending d n s = PullTask d (s\<lparr>totalPending := totalPending s - n\<rparr>)"

section \<open>Completion of a target\<close>

text \<open>The gateway's \<open>doneFunc\<close> puts the message id, in decimal, into the ack cache.\<close>

fun gw_callback :: "callback \<Rightarrow> 'w gw_proc \<Rightarrow> 'w gw_proc" where
  "gw_callback (CallDone Done_InsertAckCache k) s = s\<lparr>gw_ack := fst (InsertAckCache [FormatInt k] (gw_ack s))\<rparr>"
| "gw_callback _ s = s"

definition gw_done :: "int64 \<Rightarrow> 'w gw_proc \<Rightarrow> 'w gw_proc" where
  "gw_done k s =
     (let pm = gw_pm s; pm' = Done pm k in
      fold gw_callback (drop (length (fired pm)) (fired pm')) (s\<lparr>gw_pm := pm'\<rparr>))"

section \<open>Registering and removing\<close>

definition set_holder :: "nat \<Rightarrow> (holder \<Rightarrow> holder) \<Rightarrow> 'w gw_proc \<Rightarrow> 'w gw_proc" where
  "set_holder a f s = s\<lparr>holders := (holders s)[a := f (holders s ! a)]\<rparr>"

definition report_io :: "('w, goerr option) io \<Rightarrow> 'w gw_proc \<Rightarrow> 'w gw_proc" where
  "report_io m s = s\<lparr>gw_world := snd (m (gw_world s))\<rparr>"

definition report_connect :: "'w gw_deps \<Rightarrow> int64 \<Rightarrow> 'w gw_proc \<Rightarrow> 'w gw_proc" where
  "report_connect d u s = (case gdReport d of None \<Rightarrow> s | Some h \<Rightarrow> report_io (ReportUserConnect (gdFloat d) h (gdGatewayID d) u) s)"

definition report_disconnect :: "'w gw_deps \<Rightarrow> int64 \<Rightarrow> 'w gw_proc \<Rightarrow> 'w gw_proc" where
  "report_disconnect d u s = (case gdReport d of None \<Rightarrow> s | Some h \<Rightarrow> report_io (ReportUserDisconnect (gdFloat d) h (gdGatewayID d) u) s)"

definition send_buffer :: "'w gw_deps \<Rightarrow> nat" where
  "send_buffer d = (case gdBuffer d of Some n \<Rightarrow> if 0 < n then n else 128 | None \<Rightarrow> 128)"

text \<open>
  Stopping the old holder: its buffered requests are drained (a buffered channel can be drained also
  after it was closed) and both channels end up closed, panics of \<open>close\<close> being recovered.
\<close>

definition retire :: "nat \<Rightarrow> 'w gw_proc \<Rightarrow> request list \<times> 'w gw_proc" where
  "retire a s =
     (let h = holders s ! a in
      (hSend h, (set_holder a (\<lambda>h. h\<lparr>hSend := [], hSendClosed := True, hCloseSig := True\<rparr>) s)
         \<lparr>closedConns := closedConns s @ [hConn h], connCount := connCount s - 1\<rparr>))"

definition RegisterConnection :: "'w gw_deps \<Rightarrow> int64 \<Rightarrow> nat \<Rightarrow> 'w gw_proc \<Rightarrow> 'w gw_proc" where
  "RegisterConnection d u conn s =
     (let (drained, s1) = (case connStore s u of
            None \<Rightarrow> ([], s)
          | Some a \<Rightarrow> (case retire a s of (rs, s') \<Rightarrow> (rs, s'\<lparr>connStore := (connStore s')(u := None)\<rparr>)));
          h = \<lparr>hConn = conn, hSend = drained, hCap = send_buffer d + length drained,
               hSendClosed = False, hCloseSig = False\<rparr>;
          s2 = s1\<lparr>holders := holders s1 @ [h], connStore := (connStore s1)(u \<mapsto> length (holders s1)),
                  connCount := connCount s1 + 1\<rparr>
      in report_connect d u s2)"

text \<open>
  \<open>RemoveConnection\<close> drains the buffer unless \<open>closeCh\<close> was closed already (the recovered panic
  leaves the function before the loop), and sends the drained client messages back.
\<close>

fun send_back :: "'w gw_deps \<Rightarrow> int64 \<Rightarrow> request list \<Rightarrow> 'w gw_proc \<Rightarrow> 'w gw_proc" where
  "send_back d u [] s = s"
| "send_back d u (r # rs) s =
     (case rqMsg r of
        GClient m \<Rightarrow>
          if gdConfigured d then
            (case SendPushBackRequest (gdPick d) (gdFloat d) (gdEnv d) (gdRegistry d) m u (gw_world s) of
               (Some e, w) \<Rightarrow> send_back d u rs (s\<lparr>gw_world := w\<rparr>)
             | (None, w) \<Rightarrow> send_back d u rs (gw_done (cID m) (s\<lparr>gw_world := w\<rparr>)))
          else send_back d u rs s
      | _ \<Rightarrow> send_back d u rs s)"

definition RemoveConnection :: "'w gw_deps \<Rightarrow> int64 \<Rightarrow> 'w gw_proc \<Rightarrow> goerr option \<times> 'w gw_proc" where
  "RemoveConnection d u s =
     (case connStore s u of
        None \<Rightarrow> (Some ErrNoConn, s)
      | Some a \<Rightarrow>
          let h = holders s ! a;
              drained = (if hCloseSig h then [] else hSend h);
              s1 = (if hCloseSig h then s
                    else set_holder a (\<lambda>h. h\<lparr>hSend := [], hSendClosed := True, hCloseSig := True\<rparr>) s);
              s2 = (if drained = [] then s1 else decPending d (word_of_nat (length drained)) s1);
              s3 = send_back d u drained s2;
              s4 = s3\<lparr>closedConns := closedConns s3 @ [hConn h], connStore := (connStore s3)(u := None),
                      connCount := connCount s3 - 1\<rparr>
          in (None, report_disconnect d u s4))"

section \<open>Enqueueing and writing\<close>

text \<open>The two halves of \<open>EnqueueMessage\<close>: finding the holder, and sending to its channel.\<close>

definition find_holder :: "int64 \<Rightarrow> 'w gw_proc \<Rightarrow> nat option" where
  "find_holder u s = connStore s u"

definition enqueue_timeout :: goerr where
  "enqueue_timeout = ErrText ''enqueue timeout''"

text \<open>
  A send that waits on a full channel and gets room before the time-out is one executed after the
  writer's round that made the room; here the channel is looked at once.
\<close>

definition send_to :: "nat \<Rightarrow> request \<Rightarrow> 'w gw_proc \<Rightarrow> halt + (goerr option \<times> 'w gw_proc)" where
  "send_to a r s =
     (let h = holders s ! a in
      if hSendClosed h then Inl Panicked
      else if length (hSend h) < hCap h then
        Inr (None, incPending 1 (set_holder a (\<lambda>h. h\<lparr>hSend := hSend h @ [r]\<rparr>) s))
      else Inr (Some enqueue_timeout, s))"

definition EnqueueMessage :: "int64 \<Rightarrow> gw_msg \<Rightarrow> 'w gw_proc \<Rightarrow> halt + (goerr option \<times> 'w gw_proc)" where
  "EnqueueMessage u m s =
     (case find_holder u s of
        None \<Rightarrow> Inr (Some ErrNoConn, s)
      | Some a \<Rightarrow> send_to a \<lparr>rqMsg = m, rqResp = False\<rparr> s)"

text \<open>
  One round of \<open>writerLoop\<close> on the holder \<open>a\<close> that receives a request; \<open>res\<close> is what the write to the
  connection returns. The result is whether the loop goes on, and the reply sent back if one is expected.
\<close>

definition writer_round :: "'w gw_deps \<Rightarrow> nat \<Rightarrow> goerr option \<Rightarrow> 'w gw_proc \<Rightarrow> (bool \<times> goerr option option) \<times> 'w gw_proc" where
  "writer_round d a res s =
     (case hSend (holders s ! a) of
        [] \<Rightarrow> ((\<not> hSendClosed (holders s ! a), None), s)
      | r # rs \<Rightarrow>
          let s1 = decPending d 1 (set_holder a (\<lambda>h. h\<lparr>hSend := rs\<rparr>) s);
              s2 = (case (rqMsg r, res) of (GClient m, None) \<Rightarrow> gw_done (cID m) s1 | _ \<Rightarrow> s1);
              s3 = (if res = None then s2 else s2\<lparr>closedConns := closedConns s2 @ [hConn (holders s2 ! a)]\<rparr>)
          in ((res = None, if rqResp r then Some res else None), s3))"

definition GetConnection :: "int64 \<Rightarrow> 'w gw_proc \<Rightarrow> nat option" where
  "GetConnection u s = map_option (\<lambda>a. hConn (holders s ! a)) (connStore s u)"

text \<open>The locks are gone: the functions that hand them out return nil.\<close>

definition GetConnectionAndLock :: "int64 \<Rightarrow> 'w gw_proc \<Rightarrow> (nat \<times> nat option) option" where
  "GetConnectionAndLock u s = map_option (\<lambda>a. (hConn (holders s ! a), None)) (connStore s u)"

definition GetConnectionCount :: "'w gw_proc \<Rightarrow> int64" where
  "GetConnectionCount s = connCount s"

text \<open>The first guard of \<open>WebSocketHandler\<close>; \<open>None\<close> is the reply 503.\<close>

definition admit :: "'w gw_deps \<Rightarrow> int64 \<Rightarrow> int64 \<Rightarrow> nat \<Rightarrow> 'w gw_proc \<Rightarrow> 'w gw_proc option" where
  "admit d maxConnections u conn s =
     (if maxConnections \<le>s GetConnectionCount s then None else Some (RegisterConnection d u conn s))"

section \<open>Invariant\<close>

definition buffered :: "holder list \<Rightarrow> nat" where
  "buffered hs = sum_list (map (length \<circ> hSend) hs)"

definition gw_inv :: "'w gw_proc \<Rightarrow> bool" where
  "gw_inv s \<longleftrightarrow> finite (dom (connStore s)) \<and> connCount s = word_of_nat (card (dom (connStore s)))
     \<and> totalPending s = word_of_nat (buffered (holders s))
     \<and> (\<forall>u a. connStore s u = Some a \<longrightarrow> a < length (holders s)
          \<and> \<not> hSendClosed (holders s ! a) \<and> \<not> hCloseSig (holders s ! a)
          \<and> length (hSend (holders s ! a)) \<le> hCap (holders s ! a))
     \<and> (\<forall>u v a. connStore s u = Some a \<longrightarrow> connStore s v = Some a \<longrightarrow> u = v)
     \<and> (\<forall>a < length (holders s). a \<notin> ran (connStore s) \<longrightarrow> hSend (holders s ! a) = [])"

lemma gw_invD:
  assumes "gw_inv s"
  shows "finite (dom (connStore s))" "connCount s = word_of_nat (card (dom (connStore s)))"
    "totalPending s = word_of_nat (buffered (holders s))"
    "connStore s u = Some a \<Longrightarrow> a < length (holders s)"
    "connStore s u = Some a \<Longrightarrow> \<not> hSendClosed (holders s ! a)"
    "connStore s u = Some a \<Longrightarrow> \<not> hCloseSig (holders s ! a)"
    "connStore s u = Some a \<Longrightarrow> length (hSend (holders s ! a)) \<le> hCap (holders s ! a)"
    "connStore s u = Some a \<Longrightarrow> connStore s v = Some a \<Longrightarrow> u = v"
    "a < length (holders s) \<Longrightarrow> a \<notin> ran (connStore s) \<Longrightarrow> hSend (holders s ! a) = []"
  using assms unfolding gw_inv_def by blast+

text \<open>The fields that the invariant reads.\<close>

definition conn_part :: "'w gw_proc \<Rightarrow> holder list \<times> (int64 \<rightharpoonup> nat) \<times> int64 \<times> int64" where
  "conn_part s = (holders s, connStore s, connCount s, totalPending s)"

lemma gw_inv_cong: "conn_part s = conn_part s' \<Longrightarrow> gw_inv s = gw_inv s'"
  by (simp add: conn_part_def gw_inv_def)

lemma conn_part_simps [simp]:
  "conn_part (s\<lparr>gw_world := w\<rparr>) = conn_part s" "conn_part (s\<lparr>gw_pm := p\<rparr>) = conn_part s"
  "conn_part (s\<lparr>gw_ack := k\<rparr>) = conn_part s" "conn_part (s\<lparr>closedConns := c\<rparr>) = conn_part s"
  "conn_part (s\<lparr>pullsStarted := n\<rparr>) = conn_part s" "conn_part (s\<lparr>isPulling := b\<rparr>) = conn_part s"
  "conn_part (s\<lparr>taskChan := t\<rparr>) = conn_part s" "conn_part (s\<lparr>waitSet := ws\<rparr>) = conn_part s"
  "conn_part (s\<lparr>waitMsg := wm\<rparr>) = conn_part s" "conn_part (s\<lparr>pushMonitor := mo\<rparr>) = conn_part s"
  by (simp_all add: conn_part_def)

lemma conn_part_ops [simp]:
  "conn_part (PullTask d s) = conn_part s" "conn_part (report_io m s) = conn_part s"
  "conn_part (report_connect d u s) = conn_part s" "conn_part (report_disconnect d u s) = conn_part s"
  by (simp_all add: PullTask_def report_io_def report_connect_def report_disconnect_def split: option.split)

lemma conn_part_callback [simp]: "conn_part (gw_callback c s) = conn_part s"
  by (cases "(c, s)" rule: gw_callback.cases) auto

lemma conn_part_callbacks [simp]: "conn_part (fold gw_callback cs s) = conn_part s"
  by (induction cs arbitrary: s) auto

lemma conn_part_done [simp]: "conn_part (gw_done k s) = conn_part s"
  by (simp add: gw_done_def Let_def)

lemma conn_part_send_back [simp]: "conn_part (send_back d u rs s) = conn_part s"
  by (induction d u rs s rule: send_back.induct) (auto split: gw_msg.split prod.split option.split)

lemma buffered_update:
  "a < length hs \<Longrightarrow> buffered (hs[a := h]) + length (hSend (hs ! a)) = buffered hs + length (hSend h)"
  unfolding buffered_def
proof (induction hs arbitrary: a)
  case (Cons x hs)
  then show ?case by (cases a) (auto simp: add.assoc)
qed simp

lemma buffered_append [simp]: "buffered (hs @ hs') = buffered hs + buffered hs'" "buffered [h] = length (hSend h)"
  by (simp_all add: buffered_def)

lemma sub_count: "m \<le> n \<Longrightarrow> (word_of_nat n :: int64) - word_of_nat m = word_of_nat (n - m)"
  by simp

text \<open>Retiring the holder of a stored user: its buffer leaves the count, the user leaves the map.\<close>

lemma conn_of_fields:
  "holders s' = fst (conn_part s')" "connStore s' = fst (snd (conn_part s'))"
  "connCount s' = fst (snd (snd (conn_part s')))" "totalPending s' = snd (snd (snd (conn_part s')))"
  by (simp_all add: conn_part_def)

lemma inv_retired:
  assumes inv: "gw_inv s" and a: "connStore s u = Some a"
    and hs: "holders s' = (holders s)[a := h]" and h: "hSend h = []"
    and cs: "connStore s' = (connStore s)(u := None)" and cc: "connCount s' = connCount s - 1"
    and tp: "totalPending s' = totalPending s - word_of_nat (length (hSend (holders s ! a)))"
  shows "gw_inv s'"
proof -
  note D = gw_invD [OF inv]
  have lt: "a < length (holders s)" using D(4) [OF a] .
  have "card (dom (connStore s)) = Suc (card (dom (connStore s) - {u}))"
    using D(1) a by (metis card.remove domI)
  then have "connCount s' = word_of_nat (card (dom (connStore s')))"
    by (simp add: cc D(2) cs)
  moreover have "buffered (holders s') = buffered (holders s) - length (hSend (holders s ! a))"
    and "length (hSend (holders s ! a)) \<le> buffered (holders s)"
    using buffered_update [OF lt, of h] h hs by simp_all
  then have "totalPending s' = word_of_nat (buffered (holders s'))"
    using sub_count [of "length (hSend (holders s ! a))" "buffered (holders s)"] by (simp add: tp D(3))
  moreover have "b < length (holders s') \<and> \<not> hSendClosed (holders s' ! b) \<and> \<not> hCloseSig (holders s' ! b)
      \<and> length (hSend (holders s' ! b)) \<le> hCap (holders s' ! b)" if "connStore s' v = Some b" for v b
  proof -
    from that cs have v: "v \<noteq> u" "connStore s v = Some b" by (auto split: if_splits)
    then have "b \<noteq> a" using D(8) [OF a] by blast
    with v D(4-7) [of v b] show ?thesis by (simp add: hs)
  qed
  moreover have "hSend (holders s' ! b) = []" if "b < length (holders s')" "b \<notin> ran (connStore s')" for b
  proof (cases "b = a")
    case True
    with lt h show ?thesis by (simp add: hs)
  next
    case False
    have "b \<notin> ran (connStore s)"
    proof
      assume "b \<in> ran (connStore s)"
      then obtain v where v: "connStore s v = Some b" by (auto simp: ran_def)
      with a False have "v \<noteq> u" by auto
      with v have "connStore s' v = Some b" by (simp add: cs)
      with that(2) show False by (auto simp: ran_def)
    qed
    with that False D(9) [of b] show ?thesis by (simp add: hs)
  qed
  moreover have "finite (dom (connStore s'))" using D(1) by (simp add: cs)
  moreover have "\<forall>v w b. connStore s' v = Some b \<longrightarrow> connStore s' w = Some b \<longrightarrow> v = w"
    using D(8) by (auto simp: cs)
  ultimately show ?thesis unfolding gw_inv_def by blast
qed

text \<open>A new holder for a user without one.\<close>

lemma inv_added:
  assumes inv: "gw_inv s" and u: "connStore s u = None"
    and hs: "holders s' = holders s @ [h]" and h: "\<not> hSendClosed h" "\<not> hCloseSig h" "length (hSend h) \<le> hCap h"
    and cs: "connStore s' = (connStore s)(u \<mapsto> length (holders s))" and cc: "connCount s' = connCount s + 1"
    and tp: "totalPending s' = totalPending s + word_of_nat (length (hSend h))"
  shows "gw_inv s'"
proof -
  note D = gw_invD [OF inv]
  have "card (insert u (dom (connStore s))) = Suc (card (dom (connStore s)))"
    using D(1) u by (simp add: domIff)
  then have "connCount s' = word_of_nat (card (dom (connStore s')))"
    by (simp add: cc D(2) cs)
  moreover have "totalPending s' = word_of_nat (buffered (holders s'))" by (simp add: tp D(3) hs)
  moreover have "b < length (holders s') \<and> \<not> hSendClosed (holders s' ! b) \<and> \<not> hCloseSig (holders s' ! b)
      \<and> length (hSend (holders s' ! b)) \<le> hCap (holders s' ! b)" if "connStore s' v = Some b" for v b
    using that h D(4-7) [of v b] by (auto simp: hs cs nth_append split: if_splits)
  moreover have "hSend (holders s' ! b) = []" if "b < length (holders s')" "b \<notin> ran (connStore s')" for b
  proof -
    have n: "connStore s' x \<noteq> Some b" for x using that(2) by (auto simp: ran_def)
    have ne: "b \<noteq> length (holders s)" using n [of u] by (simp add: cs)
    have "connStore s x \<noteq> Some b" for x using n [of x] u by (cases "x = u") (simp_all add: cs)
    then have "b \<notin> ran (connStore s)" by (auto simp: ran_def)
    with ne that D(9) [of b] show ?thesis by (simp add: hs nth_append)
  qed
  moreover have "finite (dom (connStore s'))" using D(1) by (simp add: cs)
  moreover have "\<forall>v w b. connStore s' v = Some b \<longrightarrow> connStore s' w = Some b \<longrightarrow> v = w"
  proof (intro allI impI)
    fix v w b assume v: "connStore s' v = Some b" and w: "connStore s' w = Some b"
    have new: "connStore s x \<noteq> Some (length (holders s))" for x using D(4) [of x] by blast
    show "v = w"
    proof (cases "b = length (holders s)")
      case True
      have only: "x = u" if "connStore s' x = Some b" for x
      proof (rule ccontr)
        assume "x \<noteq> u"
        with that have "connStore s x = Some b" by (simp add: cs)
        with new True show False by blast
      qed
      from only [OF v] only [OF w] show ?thesis by simp
    next
      case False
      have old: "connStore s x = Some b" if "connStore s' x = Some b" for x
        using that False by (cases "x = u") (simp_all add: cs)
      from old [OF v] old [OF w] have "connStore s v = Some b" "connStore s w = Some b" .
      then show ?thesis by (rule D(8))
    qed
  qed
  ultimately show ?thesis unfolding gw_inv_def by blast
qed

text \<open>A changed buffer of a stored, open holder.\<close>

lemma inv_buffer:
  assumes inv: "gw_inv s" and a: "connStore s u = Some a"
    and hs: "holders s' = (holders s)[a := (holders s ! a)\<lparr>hSend := rs\<rparr>]" and cap: "length rs \<le> hCap (holders s ! a)"
    and same: "connStore s' = connStore s" "connCount s' = connCount s"
    and tp: "totalPending s' + word_of_nat (length (hSend (holders s ! a))) = totalPending s + word_of_nat (length rs)"
  shows "gw_inv s'"
proof -
  note D = gw_invD [OF inv]
  have lt: "a < length (holders s)" using D(4) [OF a] .
  have "buffered (holders s') + length (hSend (holders s ! a)) = buffered (holders s) + length rs"
    using buffered_update [OF lt, of "(holders s ! a)\<lparr>hSend := rs\<rparr>"] by (simp add: hs)
  then have "(word_of_nat (buffered (holders s')) :: int64) + word_of_nat (length (hSend (holders s ! a)))
      = word_of_nat (buffered (holders s)) + word_of_nat (length rs)"
    by (metis of_nat_add)
  with tp have "totalPending s' = word_of_nat (buffered (holders s'))" using D(3) by (metis add_right_cancel)
  moreover have "b < length (holders s') \<and> \<not> hSendClosed (holders s' ! b) \<and> \<not> hCloseSig (holders s' ! b)
      \<and> length (hSend (holders s' ! b)) \<le> hCap (holders s' ! b)" if "connStore s' v = Some b" for v b
    using that D(4-7) [of v b] lt cap by (cases "b = a") (auto simp: hs same)
  moreover have "hSend (holders s' ! b) = []" if "b < length (holders s')" "b \<notin> ran (connStore s')" for b
  proof -
    have "b \<noteq> a" using that a by (auto simp: same ran_def)
    with that D(9) [of b] show ?thesis by (simp add: hs same)
  qed
  ultimately show ?thesis using D(1,2,8) unfolding gw_inv_def same by blast
qed

section \<open>Every operation keeps the invariant\<close>

lemma holders_conn_part: "conn_part s' = conn_part s \<Longrightarrow> holders s' = holders s \<and> connStore s' = connStore s
    \<and> connCount s' = connCount s \<and> totalPending s' = totalPending s"
  by (simp add: conn_part_def)

definition unregistered :: "int64 \<Rightarrow> 'w gw_proc \<Rightarrow> request list \<times> 'w gw_proc" where
  "unregistered u s = (case connStore s u of
      None \<Rightarrow> ([], s)
    | Some a \<Rightarrow> (case retire a s of (rs, s') \<Rightarrow> (rs, s'\<lparr>connStore := (connStore s')(u := None)\<rparr>)))"

text \<open>
  Between the two halves of a registration the drained requests are counted though they are in no
  buffer; taken out of the count the state satisfies the invariant.
\<close>

lemma inv_unregistered:
  assumes inv: "gw_inv s" and u: "unregistered u s = (rs, s1)"
  shows "gw_inv (s1\<lparr>totalPending := totalPending s1 - word_of_nat (length rs)\<rparr>) \<and> connStore s1 u = None
    \<and> rs = (case connStore s u of None \<Rightarrow> [] | Some a \<Rightarrow> hSend (holders s ! a))
    \<and> (\<forall>v. v \<noteq> u \<longrightarrow> connStore s1 v = connStore s v) \<and> length (holders s1) = length (holders s)
    \<and> (\<forall>v b. v \<noteq> u \<longrightarrow> connStore s v = Some b \<longrightarrow> holders s1 ! b = holders s ! b)"
proof (cases "connStore s u")
  case None
  with u inv show ?thesis by (simp add: unregistered_def)
next
  case (Some a)
  let ?h = "(holders s ! a)\<lparr>hSend := [], hSendClosed := True, hCloseSig := True\<rparr>"
  from Some u have rs: "rs = hSend (holders s ! a)" and
    s1: "holders s1 = (holders s)[a := ?h]" "connStore s1 = (connStore s)(u := None)"
      "connCount s1 = connCount s - 1" "totalPending s1 = totalPending s"
    by (auto simp: unregistered_def retire_def Let_def set_holder_def)
  have "gw_inv (s1\<lparr>totalPending := totalPending s1 - word_of_nat (length rs)\<rparr>)"
    by (rule inv_retired [OF inv Some, where h = ?h]) (simp_all add: s1 rs)
  moreover have "holders s1 ! b = holders s ! b" if "v \<noteq> u" "connStore s v = Some b" for v b
    using that gw_invD(8) [OF inv Some, of v] by (cases "b = a") (auto simp: s1)
  ultimately show ?thesis by (simp add: s1 rs Some)
qed

lemma RegisterConnection_effect:
  assumes inv: "gw_inv s"
  shows "gw_inv (RegisterConnection d u c s)
    \<and> connStore (RegisterConnection d u c s) = (connStore s)(u \<mapsto> length (holders s))
    \<and> (\<forall>v b. v \<noteq> u \<longrightarrow> connStore s v = Some b \<longrightarrow> holders (RegisterConnection d u c s) ! b = holders s ! b)
    \<and> hConn (holders (RegisterConnection d u c s) ! length (holders s)) = c
    \<and> hSend (holders (RegisterConnection d u c s) ! length (holders s)) =
        (case connStore s u of None \<Rightarrow> [] | Some a \<Rightarrow> hSend (holders s ! a))"
proof -
  obtain rs s1 where u: "unregistered u s = (rs, s1)" by force
  note I = inv_unregistered [OF inv u]
  let ?h = "\<lparr>hConn = c, hSend = rs, hCap = send_buffer d + length rs, hSendClosed = False, hCloseSig = False\<rparr>"
  let ?s2 = "s1\<lparr>holders := holders s1 @ [?h], connStore := (connStore s1)(u \<mapsto> length (holders s1)),
                  connCount := connCount s1 + 1\<rparr>"
  have R: "RegisterConnection d u c s = report_connect d u ?s2"
    using u by (simp add: RegisterConnection_def unregistered_def Let_def)
  have "gw_inv ?s2"
    by (rule inv_added [OF I [THEN conjunct1], where u = u and h = ?h]) (use I in simp_all)
  moreover have "conn_part (RegisterConnection d u c s) = conn_part ?s2" by (simp add: R)
  ultimately have inv': "gw_inv (RegisterConnection d u c s)" using gw_inv_cong by blast
  have fields: "holders (RegisterConnection d u c s) = holders s1 @ [?h]"
    "connStore (RegisterConnection d u c s) = (connStore s1)(u \<mapsto> length (holders s1))"
    using holders_conn_part [of "RegisterConnection d u c s" ?s2] by (simp_all add: R)
  have "connStore (RegisterConnection d u c s) = (connStore s)(u \<mapsto> length (holders s))"
    using I by (auto simp: fields fun_eq_iff)
  moreover have "holders (RegisterConnection d u c s) ! b = holders s ! b" if "v \<noteq> u" "connStore s v = Some b" for v b
    using that I gw_invD(4) [OF inv that(2)] by (auto simp: fields nth_append)
  ultimately show ?thesis using inv' I by (auto simp: fields nth_append)
qed

lemma RemoveConnection_effect:
  assumes inv: "gw_inv s"
  shows "gw_inv (snd (RemoveConnection d u s))
    \<and> connStore (snd (RemoveConnection d u s)) = (connStore s)(u := None)
    \<and> (\<forall>a. connStore s u = Some a \<longrightarrow> hSendClosed (holders (snd (RemoveConnection d u s)) ! a))
    \<and> (\<forall>v b. v \<noteq> u \<longrightarrow> connStore s v = Some b \<longrightarrow> holders (snd (RemoveConnection d u s)) ! b = holders s ! b)"
proof (cases "connStore s u")
  case None
  then have "(connStore s)(u := None) = connStore s" by (simp add: fun_upd_idem)
  with None inv show ?thesis by (simp add: RemoveConnection_def)
next
  case (Some a)
  let ?h = "(holders s ! a)\<lparr>hSend := [], hSendClosed := True, hCloseSig := True\<rparr>"
  let ?rs = "hSend (holders s ! a)"
  have open': "\<not> hCloseSig (holders s ! a)" and lt: "a < length (holders s)"
    using gw_invD(4,6) [OF inv Some] by simp_all
  define s1 where "s1 = set_holder a (\<lambda>h. h\<lparr>hSend := [], hSendClosed := True, hCloseSig := True\<rparr>) s"
  define s2 where "s2 = (if ?rs = [] then s1 else decPending d (word_of_nat (length ?rs)) s1)"
  define s3 where "s3 = send_back d u ?rs s2"
  let ?s4 = "s3\<lparr>closedConns := closedConns s3 @ [hConn (holders s ! a)], connStore := (connStore s3)(u := None),
                      connCount := connCount s3 - 1\<rparr>"
  have R: "snd (RemoveConnection d u s) = report_disconnect d u ?s4"
    using Some open' by (simp add: RemoveConnection_def Let_def s1_def s2_def s3_def)
  have s2: "holders s2 = (holders s)[a := ?h]" "connStore s2 = connStore s" "connCount s2 = connCount s"
    "totalPending s2 = totalPending s - word_of_nat (length ?rs)"
    using holders_conn_part [of "PullTask d (s1\<lparr>totalPending := totalPending s1 - word_of_nat (length ?rs)\<rparr>)"
        "s1\<lparr>totalPending := totalPending s1 - word_of_nat (length ?rs)\<rparr>"]
    by (auto simp: s2_def s1_def set_holder_def decPending_def)
  have s3: "holders s3 = holders s2" "connStore s3 = connStore s2" "connCount s3 = connCount s2" "totalPending s3 = totalPending s2"
    using holders_conn_part [of s3 s2] by (simp_all add: s3_def)
  have "gw_inv ?s4"
    by (rule inv_retired [OF inv Some, where h = ?h]) (simp_all add: s3 s2)
  moreover have cp: "conn_part (snd (RemoveConnection d u s)) = conn_part ?s4" by (simp add: R)
  ultimately have inv': "gw_inv (snd (RemoveConnection d u s))" using gw_inv_cong by blast
  have fields: "holders (snd (RemoveConnection d u s)) = (holders s)[a := ?h]"
    "connStore (snd (RemoveConnection d u s)) = (connStore s)(u := None)"
    using holders_conn_part [OF cp] by (simp_all add: s3 s2)
  have "holders (snd (RemoveConnection d u s)) ! b = holders s ! b" if "v \<noteq> u" "connStore s v = Some b" for v b
    using that gw_invD(8) [OF inv Some, of v] by (cases "b = a") (auto simp: fields)
  with inv' lt Some show ?thesis by (simp add: fields)
qed

lemma EnqueueMessage_effect:
  assumes inv: "gw_inv s" and run: "EnqueueMessage u m s = Inr (e, s')"
  shows "gw_inv s' \<and> connStore s' = connStore s"
proof (cases "connStore s u")
  case None
  with run inv show ?thesis by (simp add: EnqueueMessage_def find_holder_def)
next
  case (Some a)
  let ?r = "\<lparr>rqMsg = m, rqResp = False\<rparr>"
  show ?thesis
  proof (cases "length (hSend (holders s ! a)) < hCap (holders s ! a)")
    case True
    with run Some gw_invD(5) [OF inv Some]
    have s': "s' = incPending 1 (set_holder a (\<lambda>h. h\<lparr>hSend := hSend h @ [?r]\<rparr>) s)"
      by (simp add: EnqueueMessage_def find_holder_def send_to_def Let_def)
    have "gw_inv s'"
      by (rule inv_buffer [OF inv Some, where rs = "hSend (holders s ! a) @ [?r]"])
         (use True in \<open>simp_all add: s' incPending_def set_holder_def\<close>)
    then show ?thesis by (simp add: s' incPending_def set_holder_def)
  next
    case False
    with run Some gw_invD(5) [OF inv Some] inv show ?thesis
      by (simp add: EnqueueMessage_def find_holder_def send_to_def Let_def)
  qed
qed

lemma EnqueueMessage_returns:
  "gw_inv s \<Longrightarrow> \<exists>e s'. EnqueueMessage u m s = Inr (e, s')"
  using gw_invD(5) [of s u] by (auto simp: EnqueueMessage_def find_holder_def send_to_def Let_def split: option.split)

lemma writer_round_effect:
  assumes inv: "gw_inv s" and a: "connStore s u = Some a"
  shows "gw_inv (snd (writer_round d a res s)) \<and> connStore (snd (writer_round d a res s)) = connStore s"
proof (cases "hSend (holders s ! a)")
  case Nil
  with inv show ?thesis by (simp add: writer_round_def)
next
  case (Cons r rs)
  define s1 where "s1 = decPending d 1 (set_holder a (\<lambda>h. h\<lparr>hSend := rs\<rparr>) s)"
  have s1: "holders s1 = (holders s)[a := (holders s ! a)\<lparr>hSend := rs\<rparr>]" "connStore s1 = connStore s"
    "connCount s1 = connCount s" "totalPending s1 = totalPending s - 1"
    using holders_conn_part [of s1 "set_holder a (\<lambda>h. h\<lparr>hSend := rs\<rparr>) s\<lparr>totalPending := totalPending s - 1\<rparr>"]
    by (auto simp: s1_def set_holder_def decPending_def)
  have inv1: "gw_inv s1"
    by (rule inv_buffer [OF inv a, where rs = rs])
       (use Cons gw_invD(7) [OF inv a] in \<open>simp_all add: s1\<close>)
  have "conn_part (snd (writer_round d a res s)) = conn_part s1"
    using Cons by (simp add: writer_round_def Let_def s1_def [symmetric] split: gw_msg.split option.split)
  with inv1 holders_conn_part [OF this] show ?thesis using gw_inv_cong s1(2) by metis
qed

section \<open>Runs of the gateway's connection code\<close>

text \<open>
  Handlers, dispatchers and writer goroutines, each operation uninterrupted. A writer runs on a
  holder that is still stored; a writer of a retired holder finds its channel empty and ends.
\<close>

inductive gw_step :: "'w gw_deps \<Rightarrow> 'w gw_proc \<Rightarrow> 'w gw_proc \<Rightarrow> bool" for d where
  connect: "gw_step d s (RegisterConnection d u c s)"
| disconnect: "gw_step d s (snd (RemoveConnection d u s))"
| enqueue: "EnqueueMessage u m s = Inr (e, s') \<Longrightarrow> gw_step d s s'"
| write_one: "connStore s u = Some a \<Longrightarrow> gw_step d s (snd (writer_round d a res s))"

inductive gw_reach :: "'w gw_deps \<Rightarrow> 'w gw_proc \<Rightarrow> 'w gw_proc \<Rightarrow> bool" for d where
  start: "gw_reach d s s"
| step: "gw_reach d s t \<Longrightarrow> gw_step d t t' \<Longrightarrow> gw_reach d s t'"

inductive_cases gw_stepE: "gw_step d s t"

definition gw_init :: "'w \<Rightarrow> 'w gw_proc" where
  "gw_init w = \<lparr>gw_world = w, gw_pm = SetDoneFunc NewPendingManager Done_InsertAckCache, gw_ack = InitAckCache,
     holders = [], connStore = Map.empty, closedConns = [], connCount = 0, totalPending = 0,
     isPulling = False, taskChan = [], pullsStarted = 0, waitSet = [], waitMsg = Map.empty, pushMonitor = None\<rparr>"

lemma gw_init_inv [simp]: "gw_inv (gw_init w)"
  by (simp add: gw_init_def gw_inv_def buffered_def)

lemma gw_step_inv: "gw_step d s t \<Longrightarrow> gw_inv s \<Longrightarrow> gw_inv t"
  by (erule gw_stepE)
     (auto simp: RegisterConnection_effect RemoveConnection_effect writer_round_effect dest: EnqueueMessage_effect)

lemma gw_reach_inv: "gw_reach d s t \<Longrightarrow> gw_inv s \<Longrightarrow> gw_inv t"
  by (induction rule: gw_reach.induct) (auto intro: gw_step_inv)

interpretation gwc: conn_registry "\<lambda>u c s. RegisterConnection d u c s" "\<lambda>u s. snd (RemoveConnection d u s)"
  "\<lambda>s u. GetConnection u s" gw_inv for d :: "'w gw_deps"
proof
  fix s :: "'w gw_proc" and u :: int64 and c :: nat
  assume inv: "gw_inv s"
  note R = RegisterConnection_effect [OF inv, of d u c] and M = RemoveConnection_effect [OF inv, of d u]
  show "gw_inv (RegisterConnection d u c s)" "gw_inv (snd (RemoveConnection d u s))" using R M by simp_all
  show "(\<lambda>v. GetConnection v (RegisterConnection d u c s)) = (\<lambda>v. GetConnection v s)(u \<mapsto> c)"
  proof
    fix v show "GetConnection v (RegisterConnection d u c s) = ((\<lambda>v. GetConnection v s)(u \<mapsto> c)) v"
      using R by (cases "connStore s v") (auto simp: GetConnection_def)
  qed
  show "(\<lambda>v. GetConnection v (snd (RemoveConnection d u s))) = (\<lambda>v. GetConnection v s)(u := None)"
  proof
    fix v show "GetConnection v (snd (RemoveConnection d u s)) = ((\<lambda>v. GetConnection v s)(u := None)) v"
      using M by (cases "connStore s v") (auto simp: GetConnection_def)
  qed
qed

section \<open>Properties\<close>


text \<open>
  C30: a user who reconnects keeps every request not yet written: the new holder's channel holds
  exactly the old one's requests in order, the old connection is closed, the number of connections
  and of pending requests is unchanged, and other users' holders are untouched.
\<close>

theorem reconnect_keeps_requests:
  assumes reach: "gw_reach d (gw_init w) s" and old: "connStore s u = Some a"
    and s': "s' = RegisterConnection d u c s"
  shows "\<exists>b. connStore s' u = Some b \<and> hConn (holders s' ! b) = c \<and> hSend (holders s' ! b) = hSend (holders s ! a)
    \<and> connCount s' = connCount s \<and> totalPending s' = totalPending s
    \<and> (\<forall>v b. v \<noteq> u \<longrightarrow> connStore s v = Some b \<longrightarrow> connStore s' v = Some b \<and> holders s' ! b = holders s ! b)"
proof -
  have inv: "gw_inv s" by (rule gw_reach_inv [OF reach gw_init_inv])
  note R = RegisterConnection_effect [OF inv, of d u c, folded s']
  have "dom (connStore s') = dom (connStore s)" using R old by auto
  then have "connCount s' = connCount s"
    using gw_invD(2) [OF inv] R gw_invD(2) [of s'] by simp
  moreover have "totalPending s' = totalPending s"
    using holders_conn_part [of s' "(snd (retire a s))\<lparr>holders := holders (snd (retire a s)) @
        [\<lparr>hConn = c, hSend = hSend (holders s ! a), hCap = send_buffer d + length (hSend (holders s ! a)), hSendClosed = False, hCloseSig = False\<rparr>],
        connStore := (connStore s)(u \<mapsto> length (holders s)), connCount := connCount s\<rparr>"] old
    by (simp add: s' RegisterConnection_def Let_def retire_def set_holder_def conn_part_def
        report_connect_def report_io_def split: option.split)
  ultimately show ?thesis using R old by auto
qed

text \<open>
  The handler of a connection that was replaced ends by removing its user, and that removes the
  newer connection: after connecting as \<open>c1\<close>, reconnecting as \<open>c2\<close> and the end of the first handler
  the user has no connection, although \<open>c2\<close> was established last.
\<close>

theorem stale_handler_disconnects:
  assumes "gw_inv s"
  shows "GetConnection u (RegisterConnection d u c2 (RegisterConnection d u c1 s)) = Some c2
    \<and> GetConnection u (snd (RemoveConnection d u (RegisterConnection d u c2 (RegisterConnection d u c1 s)))) = None"
  using gwc.stale_removal [OF assms, of u d c2 c1] by simp

text \<open>
  A dispatcher that has found a user's holder and is overtaken by \<open>RemoveConnection\<close> before it
  sends, sends on a closed channel, which panics; uninterrupted, \<open>EnqueueMessage\<close> always returns.
\<close>

theorem overtaken_enqueue_panics:
  assumes "gw_inv s"
  shows "(\<forall>a. find_holder u s = Some a \<longrightarrow> send_to a r (snd (RemoveConnection d u s)) = Inl Panicked)
    \<and> (\<exists>e s'. EnqueueMessage u m s = Inr (e, s'))"
  using RemoveConnection_effect [OF assms, of d u] EnqueueMessage_returns [OF assms, of u m]
  by (simp add: find_holder_def send_to_def Let_def)

section \<open>Witnesses\<close>

definition demo_gw :: "mem gw_deps" where
  "demo_gw = \<lparr>gdRedis = mem_redis, gdRegistry = None, gdReport = None, gdGatewayID = ''g1'', gdEnv = demo_env,
     gdFloat = (\<lambda>n. n), gdPick = (\<lambda>n. 0), gdConfigured = True, gdBuffer = None, gdThreshold = 10000\<rparr>"

definition demo_queued :: "mem gw_proc" where
  "demo_queued = (case EnqueueMessage 7 GPing (RegisterConnection demo_gw 7 1 (gw_init mem_empty)) of Inr (e, s) \<Rightarrow> s | Inl h \<Rightarrow> gw_init mem_empty)"

lemma demo_queued_reach: "gw_reach demo_gw (gw_init mem_empty) demo_queued"
  and demo_queued_simps: "connStore demo_queued = [7 \<mapsto> 0]"
    "hSend (holders demo_queued ! 0) = [\<lparr>rqMsg = GPing, rqResp = False\<rparr>]"
proof -
  let ?s = "RegisterConnection demo_gw 7 1 (gw_init mem_empty)"
  have r: "gw_reach demo_gw (gw_init mem_empty) ?s"
    by (rule gw_reach.step [OF gw_reach.start]) (rule connect)
  obtain e t where e: "EnqueueMessage 7 GPing ?s = Inr (e, t)"
    using EnqueueMessage_returns [OF gw_reach_inv [OF r gw_init_inv]] by blast
  then have "demo_queued = t" by (simp add: demo_queued_def)
  with gw_reach.step [OF r enqueue [OF e]] show "gw_reach demo_gw (gw_init mem_empty) demo_queued" by simp
  show "connStore demo_queued = [7 \<mapsto> 0]" "hSend (holders demo_queued ! 0) = [\<lparr>rqMsg = GPing, rqResp = False\<rparr>]"
    by (simp_all add: demo_queued_def EnqueueMessage_def find_holder_def RegisterConnection_def gw_init_def
        report_connect_def demo_gw_def send_to_def Let_def send_buffer_def incPending_def set_holder_def)
qed


theorem reconnect_keeps_requests_witness:
  "\<exists>b. connStore (RegisterConnection demo_gw 7 2 demo_queued) 7 = Some b
     \<and> hSend (holders (RegisterConnection demo_gw 7 2 demo_queued) ! b) = [\<lparr>rqMsg = GPing, rqResp = False\<rparr>]"
  using reconnect_keeps_requests [OF demo_queued_reach _ refl, of 7 0 2] by (auto simp: demo_queued_simps)

theorem stale_handler_disconnects_witness:
  "GetConnection 7 (snd (RemoveConnection demo_gw 7
     (RegisterConnection demo_gw 7 2 (RegisterConnection demo_gw 7 1 (gw_init mem_empty))))) = None"
  using stale_handler_disconnects [OF gw_init_inv, of 7 demo_gw 2 1 mem_empty] by simp

theorem overtaken_enqueue_panics_witness:
  "send_to 0 \<lparr>rqMsg = GPing, rqResp = False\<rparr> (snd (RemoveConnection demo_gw 7 demo_queued)) = Inl Panicked"
  using overtaken_enqueue_panics [OF gw_reach_inv [OF demo_queued_reach gw_init_inv], of 7 _ demo_gw]
  by (simp add: find_holder_def demo_queued_simps)

end
