(* ===== verification/GwDispatch.thy ===== *)
theory GwDispatch
  imports GwConn
begin

text \<open>
  \<open>internal/gateway/push/dispatcher.go\<close>, \<open>channel_redis.go\<close>, \<open>channel_ws.go\<close> and \<open>pullTask.go\<close>: entries of
  the gateway's stream become tasks, a task is spread over the channels of its users, what has no
  channel goes back to a send instance, what finds a full one into a wait list in Redis, which a
  background pass tries again.
\<close>

section \<open>Wait queue\<close>

definition wait_key :: "int64 \<Rightarrow> string" where
  "wait_key u = ''wait:push:'' @ FormatInt u"

definition InsertWaitSet :: "int64 \<Rightarrow> 'w gw_proc \<Rightarrow> 'w gw_proc" where
  "InsertWaitSet u s = (if u \<in> set (waitSet s) then s else s\<lparr>waitSet := waitSet s @ [u]\<rparr>)"

definition RemoveWaitSet :: "int64 \<Rightarrow> 'w gw_proc \<Rightarrow> 'w gw_proc" where
  "RemoveWaitSet u s = s\<lparr>waitSet := filter (\<lambda>v. v \<noteq> u) (waitSet s)\<rparr>"

text \<open>A channel of capacity 100 that no code receives from.\<close>

definition InsertWaitMsg :: "int64 \<Rightarrow> wire \<Rightarrow> ('w gw_proc, unit) proc" where
  "InsertWaitMsg u msg s =
     (let buf = (case waitMsg s u of None \<Rightarrow> [] | Some b \<Rightarrow> b) in
      if length buf < 100 then Inr ((), s\<lparr>waitMsg := (waitMsg s)(u \<mapsto> buf @ [msg])\<rparr>) else Inl Blocked)"

definition InsertWaitQueue :: "'w gw_deps \<Rightarrow> int64 \<Rightarrow> wire \<Rightarrow> ('w gw_proc, unit) proc" where
  "InsertWaitQueue d u msg s =
     (case RPushWithRetry (gdRedis d) 2 (wait_key u) msg (gw_world s) of
        (Inl e, w) \<Rightarrow> InsertWaitMsg u msg ((InsertWaitSet u s)\<lparr>gw_world := w\<rparr>)
      | (Inr _, w) \<Rightarrow> Inr ((), (InsertWaitSet u s)\<lparr>gw_world := w\<rparr>))"

section \<open>Dispatching a task\<close>

text \<open>What became of one target; the code keeps no such record, the theorems do.\<close>

datatype fate = Queued | PushedBack | PushbackLost | Waiting

definition dispatch_target :: "'w gw_deps \<Rightarrow> client_message \<Rightarrow> wire \<Rightarrow> int64 \<Rightarrow> ('w gw_proc, fate) proc" where
  "dispatch_target d m marshaled u =
     then_do (EnqueueMessage u (GClient m))
       (\<lambda>e. case e of
           None \<Rightarrow> returns Queued
         | Some err \<Rightarrow>
             if err = ErrNoConn then
               (\<lambda>s. case SendPushBackRequest (gdPick d) (gdFloat d) (gdEnv d) (gdRegistry d) m u (gw_world s) of
                   (Some e2, w) \<Rightarrow> Inr (PushbackLost, s\<lparr>gw_world := w\<rparr>)
                 | (None, w) \<Rightarrow> Inr (PushedBack, gw_done (cID m) (s\<lparr>gw_world := w\<rparr>)))
             else then_do (InsertWaitQueue d u marshaled) (\<lambda>_. returns Waiting))"

fun dispatch_targets :: "'w gw_deps \<Rightarrow> client_message \<Rightarrow> wire \<Rightarrow> int64 list \<Rightarrow> ('w gw_proc, fate list) proc" where
  "dispatch_targets d m marshaled [] = returns []"
| "dispatch_targets d m marshaled (u # us) =
     then_do (dispatch_target d m marshaled u)
       (\<lambda>f. then_do (dispatch_targets d m marshaled us) (\<lambda>fs. returns (f # fs)))"

definition Dispatch :: "'w gw_deps \<Rightarrow> push_message \<Rightarrow> ('w gw_proc, goerr option \<times> fate list) proc" where
  "Dispatch d msg s =
     (let m = client_of_push msg;
          s1 = s\<lparr>gw_pm := Init (gw_pm s) (pID msg) (word_of_nat (length (pTargetIDs msg)))\<rparr> in
      case client_json m of
        Inl e \<Rightarrow> Inr ((Some e, []), s1)
      | Inr j \<Rightarrow> then_do (dispatch_targets d m (Doc j) (pTargetIDs msg)) (\<lambda>fs. returns (None, fs)) s1)"

section \<open>The pass over the wait queue\<close>

text \<open>One user of the wait set; the result is whether the iteration goes on.\<close>

definition wait_user :: "'w gw_deps \<Rightarrow> int64 \<Rightarrow> ('w gw_proc, bool) proc" where
  "wait_user d u s =
     (case LPopWithRetry (gdRedis d) 2 (wait_key u) (gw_world s) of
        (Inl e, w) \<Rightarrow> Inr (True, s\<lparr>gw_world := w\<rparr>)
      | (Inr msgStr, w) \<Rightarrow>
          (case client_unmarshal (gdFloat d) msgStr of
             (Some e, _) \<Rightarrow> Inr (True, s\<lparr>gw_world := w\<rparr>)
           | (None, m) \<Rightarrow>
               then_do (EnqueueMessage u (GClient m))
                 (\<lambda>r s. case r of
                     Some e \<Rightarrow> Inr (False, s\<lparr>gw_world := snd (RPushWithRetry (gdRedis d) 2 (wait_key u) msgStr (gw_world s))\<rparr>)
                   | None \<Rightarrow>
                       (case cLLen (gdRedis d) (wait_key u) (gw_world s) of
                          (Inr n, w) \<Rightarrow> Inr (True, (if n = 0 then RemoveWaitSet u else id) (s\<lparr>gw_world := w\<rparr>))
                        | (Inl e, w) \<Rightarrow> Inr (True, s\<lparr>gw_world := w\<rparr>)))
                 (s\<lparr>gw_world := w\<rparr>)))"

fun wait_pass :: "'w gw_deps \<Rightarrow> int64 list \<Rightarrow> ('w gw_proc, unit) proc" where
  "wait_pass d [] = returns ()"
| "wait_pass d (u # us) = then_do (wait_user d u) (\<lambda>go. if go then wait_pass d us else returns ())"

text \<open>\<open>ListeningWaitQueue\<close> for \<open>n\<close> rounds; \<open>walk\<close> is the order in which the set is visited.\<close>

fun ListeningWaitQueue :: "'w gw_deps \<Rightarrow> (int64 list \<Rightarrow> int64 list) \<Rightarrow> nat \<Rightarrow> ('w gw_proc, unit) proc" where
  "ListeningWaitQueue d walk 0 s = Inr ((), s)"
| "ListeningWaitQueue d walk (Suc n) s =
     then_do (wait_pass d (walk (waitSet s))) (\<lambda>_. ListeningWaitQueue d walk n) s"

section \<open>Pulling tasks\<close>

text \<open>The \<open>data\<close> field of the entries; an entry without it or that does not decode is left out.\<close>

fun XStream2PushMessage :: "(int \<Rightarrow> int) \<Rightarrow> (string \<times> wire option) list \<Rightarrow> push_message list" where
  "XStream2PushMessage f64 [] = []"
| "XStream2PushMessage f64 ((i, data) # es) =
     (case data of
        None \<Rightarrow> XStream2PushMessage f64 es
      | Some w \<Rightarrow>
          (case UnmarshalJSON f64 w zero_push of
             Inl e \<Rightarrow> XStream2PushMessage f64 es
           | Inr m \<Rightarrow> m # XStream2PushMessage f64 es))"

record stream_config =
  streamName :: string
  groupName :: string
  consumerGroup :: string

text \<open>
  One round of \<open>pullLoop\<close>; \<open>canceled\<close> says whether the context is canceled when the round looks at it.
  The result is whether the loop goes on. A task that finds the channel full waits until a worker
  has made room, so tasks enter the channel in order.
\<close>

definition pull_round :: "'w gw_deps \<Rightarrow> stream_config \<Rightarrow> bool \<Rightarrow> 'w gw_proc \<Rightarrow> bool \<times> 'w gw_proc" where
  "pull_round d c canceled s =
     (if canceled then (False, s)
      else if gdThreshold d <s totalPending s then (False, s)
      else case XReadGroupBlockingWithContext (gdRedis d) (streamName c) (groupName c) (consumerGroup c) 100 ''>'' (gw_world s) of
          (Inl e, w) \<Rightarrow> (e \<noteq> CtxCanceled, s\<lparr>gw_world := w\<rparr>)
        | (Inr es, w) \<Rightarrow> (True, s\<lparr>gw_world := w, taskChan := taskChan s @ XStream2PushMessage (gdFloat d) es\<rparr>))"

fun pull_rounds :: "'w gw_deps \<Rightarrow> stream_config \<Rightarrow> bool list \<Rightarrow> 'w gw_proc \<Rightarrow> 'w gw_proc" where
  "pull_rounds d c [] s = s"
| "pull_rounds d c (b # bs) s = (case pull_round d c b s of (go, s') \<Rightarrow> if go then pull_rounds d c bs s' else s')"

definition pullLoop :: "'w gw_deps \<Rightarrow> stream_config \<Rightarrow> bool list \<Rightarrow> 'w gw_proc \<Rightarrow> 'w gw_proc" where
  "pullLoop d c bs s = (pull_rounds d c bs (s\<lparr>isPulling := True\<rparr>))\<lparr>isPulling := False\<rparr>"

definition dispatchWorker :: "'w gw_deps \<Rightarrow> ('w gw_proc, fate list) proc" where
  "dispatchWorker d s =
     (case taskChan s of
        [] \<Rightarrow> Inr ([], s)
      | m # ms \<Rightarrow> then_do (Dispatch d m) (\<lambda>r. returns (snd r)) (s\<lparr>taskChan := ms\<rparr>))"

definition InitStreamAndGroup :: "'w gw_deps \<Rightarrow> stream_config \<Rightarrow> 'w gw_proc \<Rightarrow> 'w gw_proc" where
  "InitStreamAndGroup d c s =
     s\<lparr>gw_pm := SetDoneFunc (gw_pm s) Done_InsertAckCache, gw_ack := InitAckCache,
       gw_world := snd (XGroupCreateMkStreamWithRetry (gdRedis d) 2 (streamName c) (groupName c) ''0'' (gw_world s))\<rparr>"

section \<open>What a dispatch does to the counters\<close>

lemma gw_callback_pm [simp]: "gw_pm (fold gw_callback cs s) = gw_pm s"
proof (induction cs arbitrary: s)
  case (Cons c cs)
  have "gw_pm (gw_callback c s) = gw_pm s" by (cases "(c, s)" rule: gw_callback.cases) auto
  with Cons show ?case by simp
qed simp

lemma gw_done_pm [simp]: "gw_pm (gw_done k s) = apply_pm_report (RDone k 1) (gw_pm s)"
  by (simp add: gw_done_def Let_def apply_pm_report_def Done_def)

definition rest_part :: "'w gw_proc \<Rightarrow> pending_manager \<times> holder list \<times> (int64 \<rightharpoonup> nat) \<times> int64 \<times> int64" where
  "rest_part s = (gw_pm s, conn_part s)"

lemma InsertWaitQueue_rest:
  assumes "InsertWaitQueue d u msg s = Inr (x, s')"
  shows "gw_pm s' = gw_pm s \<and> conn_part s' = conn_part s"
  using assms
  by (auto simp: InsertWaitQueue_def InsertWaitMsg_def InsertWaitSet_def Let_def split: prod.splits sum.splits if_splits)

lemma EnqueueMessage_counts:
  assumes inv: "gw_inv s" and run: "EnqueueMessage u m s = Inr (e, s')"
  shows "gw_inv s' \<and> connStore s' = connStore s \<and> gw_pm s' = gw_pm s
    \<and> buffered (holders s') = buffered (holders s) + (if e = None then 1 else 0)
    \<and> (e = Some ErrNoConn \<longleftrightarrow> connStore s u = None) \<and> (e \<noteq> None \<longrightarrow> s' = s)"
proof -
  have "gw_pm s' = gw_pm s \<and> buffered (holders s') = buffered (holders s) + (if e = None then 1 else 0)
    \<and> (e = Some ErrNoConn \<longleftrightarrow> connStore s u = None) \<and> (e \<noteq> None \<longrightarrow> s' = s)"
  proof (cases "connStore s u")
    case None
    with run show ?thesis by (auto simp: EnqueueMessage_def find_holder_def)
  next
    case (Some a)
    have lt: "a < length (holders s)" using gw_invD(4) [OF inv Some] .
    let ?h = "holders s ! a"
    have "buffered ((holders s)[a := ?h\<lparr>hSend := hSend ?h @ [r]\<rparr>]) = buffered (holders s) + 1" for r
      using buffered_update [OF lt, of "?h\<lparr>hSend := hSend ?h @ [r]\<rparr>"] by simp
    with run Some show ?thesis
      by (auto simp: EnqueueMessage_def find_holder_def send_to_def Let_def incPending_def set_holder_def
          enqueue_timeout_def split: if_splits)
  qed
  with EnqueueMessage_effect [OF inv run] show ?thesis by blast
qed

lemma dispatch_target_effect:
  assumes inv: "gw_inv s" and run: "dispatch_target d m w u s = Inr (f, s')"
  shows "gw_inv s' \<and> connStore s' = connStore s
    \<and> gw_pm s' = (if f = PushedBack then apply_pm_report (RDone (cID m) 1) (gw_pm s) else gw_pm s)
    \<and> buffered (holders s') = buffered (holders s) + (if f = Queued then 1 else 0)
    \<and> (f \<in> {PushedBack, PushbackLost} \<longleftrightarrow> connStore s u = None)"
proof -
  from run [unfolded dispatch_target_def] obtain e s1 where e: "EnqueueMessage u (GClient m) s = Inr (e, s1)"
    and k: "(case e of None \<Rightarrow> returns Queued
         | Some err \<Rightarrow>
             if err = ErrNoConn then
               (\<lambda>s. case SendPushBackRequest (gdPick d) (gdFloat d) (gdEnv d) (gdRegistry d) m u (gw_world s) of
                   (Some e2, w) \<Rightarrow> Inr (PushbackLost, s\<lparr>gw_world := w\<rparr>)
                 | (None, w) \<Rightarrow> Inr (PushedBack, gw_done (cID m) (s\<lparr>gw_world := w\<rparr>)))
             else then_do (InsertWaitQueue d u w) (\<lambda>_. returns Waiting)) s1 = Inr (f, s')"
    by (rule then_doE)
  note E = EnqueueMessage_counts [OF inv e]
  have keep: "gw_inv t \<and> connStore t = connStore s1 \<and> buffered (holders t) = buffered (holders s1)"
    if "conn_part t = conn_part s1" for t
    using that gw_inv_cong [OF that] holders_conn_part [OF that] E by simp
  consider (queued) "e = None" | (noconn) "e = Some ErrNoConn" | (full) err where "e = Some err" "err \<noteq> ErrNoConn"
    by (cases e) auto
  then show ?thesis
  proof cases
    case queued
    with k E show ?thesis by auto
  next
    case noconn
    with k have "conn_part s' = conn_part s1" "f \<in> {PushedBack, PushbackLost}"
      "gw_pm s' = (if f = PushedBack then apply_pm_report (RDone (cID m) 1) (gw_pm s1) else gw_pm s1)"
      by (auto split: prod.splits option.splits)
    with keep [of s'] E noconn show ?thesis by auto
  next
    case full
    with k obtain x where "InsertWaitQueue d u w s1 = Inr (x, s')" "f = Waiting"
      by (auto elim!: then_doE)
    with InsertWaitQueue_rest [of d u w s1 x s'] keep [of s'] E full show ?thesis by auto
  qed
qed

definition fates :: "fate \<Rightarrow> fate list \<Rightarrow> nat" where
  "fates f fs = length (filter (\<lambda>g. g = f) fs)"

lemma fates_simps [simp]: "fates f [] = 0" "fates f (g # gs) = (if g = f then 1 else 0) + fates f gs"
  by (simp_all add: fates_def)

lemma fates_total: "fates Queued fs + fates PushedBack fs + fates PushbackLost fs + fates Waiting fs = length fs"
proof (induction fs)
  case (Cons f fs)
  then show ?case by (cases f) auto
qed simp

lemma dispatch_targets_effect:
  assumes "gw_inv s" "dispatch_targets d m w us s = Inr (fs, s')"
  shows "gw_inv s' \<and> connStore s' = connStore s \<and> length fs = length us
    \<and> gw_pm s' = run_pm (replicate (fates PushedBack fs) (RDone (cID m) 1)) (gw_pm s)
    \<and> buffered (holders s') = buffered (holders s) + fates Queued fs
    \<and> (\<forall>i < length us. fs ! i \<in> {PushedBack, PushbackLost} \<longleftrightarrow> connStore s (us ! i) = None)"
  using assms
proof (induction us arbitrary: s fs)
  case Nil
  then show ?case by (simp add: run_pm_def)
next
  case (Cons u us)
  from Cons.prems(2) obtain f s1 gs where f: "dispatch_target d m w u s = Inr (f, s1)"
    and g: "dispatch_targets d m w us s1 = Inr (gs, s')" and fs: "fs = f # gs"
    by (auto elim!: then_doE)
  note E = dispatch_target_effect [OF Cons.prems(1) f]
  note R = Cons.IH [OF E [THEN conjunct1] g]
  have "gw_pm s' = run_pm (replicate (fates PushedBack fs) (RDone (cID m) 1)) (gw_pm s)"
    using E R by (cases "f = PushedBack") (simp_all add: fs run_pm_def)
  moreover have "fs ! i \<in> {PushedBack, PushbackLost} \<longleftrightarrow> connStore s ((u # us) ! i) = None"
    if "i < length (u # us)" for i
    using that E R by (cases i) (simp_all add: fs)
  ultimately show ?case using E R by (auto simp: fs)
qed

section \<open>Properties\<close>

lemma Dispatch_run:
  assumes "Dispatch d msg s = Inr ((None, fs), s')"
  obtains j where "dispatch_targets d (client_of_push msg) (Doc j) (pTargetIDs msg)
    (s\<lparr>gw_pm := Init (gw_pm s) (pID msg) (word_of_nat (length (pTargetIDs msg)))\<rparr>) = Inr (fs, s')"
  using assms by (auto simp: Dispatch_def Let_def split: sum.splits elim!: then_doE)


text \<open>
  One step of the wait-queue pass that pops a message and enqueues it takes the head of the user's
  list for the channel (up to one element before it is lost by a retried pop). When the channel does not
  take it the pass stops and the message goes to the end of the list, behind those that came after it:
  a busy user's messages are reordered; and no request is queued.
\<close>

theorem wait_pass_reorders:
  assumes laws: "list_laws (gdRedis d) lst" and inv: "gw_inv s"
    and run: "wait_user d u s = Inr (False, s')"
  shows "\<exists>lost msgStr rest m. length lost < 2 \<and> lst (gw_world s) (wait_key u) = lost @ msgStr # rest
    \<and> lst (gw_world s') (wait_key u) = rest @ replicate m msgStr \<and> m \<le> 2
    \<and> (\<forall>k. k \<noteq> wait_key u \<longrightarrow> lst (gw_world s') k = lst (gw_world s) k)
    \<and> holders s' = holders s \<and> totalPending s' = totalPending s"
proof -
  obtain r w1 where pop: "LPopWithRetry (gdRedis d) 2 (wait_key u) (gw_world s) = (r, w1)"
    by (cases "LPopWithRetry (gdRedis d) 2 (wait_key u) (gw_world s)")
  from run pop obtain msgStr where r: "r = Inr msgStr" by (cases r) (auto simp: wait_user_def)
  from run pop r obtain m where dec: "client_unmarshal (gdFloat d) msgStr = (None, m)"
    by (auto simp: wait_user_def split: prod.splits option.splits)
  let ?s = "s\<lparr>gw_world := w1\<rparr>"
  have "gw_inv ?s" using inv gw_inv_cong [of s ?s] by simp
  obtain e s1 where e: "EnqueueMessage u (GClient m) ?s = Inr (e, s1)"
    using EnqueueMessage_returns [OF \<open>gw_inv ?s\<close>] by blast
  note E = EnqueueMessage_counts [OF \<open>gw_inv ?s\<close> e]
  have "e \<noteq> None"
    using run pop r dec e by (cases e) (auto simp: wait_user_def then_do_def split: sum.splits prod.splits)
  then have s1: "s1 = ?s" using E by blast
  with run pop r dec e \<open>e \<noteq> None\<close>
  have s': "s' = ?s\<lparr>gw_world := snd (RPushWithRetry (gdRedis d) 2 (wait_key u) msgStr w1)\<rparr>"
    by (auto simp: wait_user_def then_do_def)
  obtain r2 w2 where push: "RPushWithRetry (gdRedis d) 2 (wait_key u) msgStr w1 = (r2, w2)"
    by (cases "RPushWithRetry (gdRedis d) 2 (wait_key u) msgStr w1")
  obtain lost where l: "\<forall>k. k \<noteq> wait_key u \<longrightarrow> lst w1 k = lst (gw_world s) k" "length lost < 2"
    "lst (gw_world s) (wait_key u) = lost @ msgStr # lst w1 (wait_key u)"
    using lpop_retried [OF laws _ pop] r by auto
  obtain n where p: "lst w2 = (lst w1)(wait_key u := lst w1 (wait_key u) @ replicate n msgStr)" "n \<le> 2"
    using rpush_retried [OF laws _ push] by auto
  show ?thesis
    using l p by (intro exI[of _ lost] exI[of _ msgStr] exI[of _ "lst w1 (wait_key u)"] exI[of _ n])
      (simp add: s' push)
qed

section \<open>Witnesses\<close>

definition demo_task :: push_message where
  "demo_task = zero_push\<lparr>pID := 42, pTargetIDs := [7], pPayload := GoVal JNull\<rparr>"


text \<open>A channel of one slot that is taken; two messages wait.\<close>

definition demo_wire :: "int64 \<Rightarrow> wire" where
  "demo_wire n = Doc (JObj [(''id'', json_of_int64 n)])"

definition demo_full :: "mem gw_proc" where
  "demo_full = (gw_init (mem_empty\<lparr>m_lists := (\<lambda>k. if k = wait_key 7 then [demo_wire 1, demo_wire 2] else [])\<rparr>))
     \<lparr>holders := [\<lparr>hConn = 1, hSend = [\<lparr>rqMsg = GPing, rqResp = False\<rparr>], hCap = 1, hSendClosed = False, hCloseSig = False\<rparr>],
      connStore := [7 \<mapsto> 0], connCount := 1, totalPending := 1\<rparr>"

theorem wait_pass_reorders_witness:
  "\<exists>s'. wait_user demo_gw 7 demo_full = Inr (False, s')
     \<and> (\<exists>m rest. m_lists (gw_world s') (wait_key 7) = rest @ replicate m (demo_wire 1) \<and> rest = [demo_wire 2])"
proof -
  have inv: "gw_inv demo_full"
    by (auto simp: demo_full_def gw_init_def gw_inv_def buffered_def ran_def split: if_splits)
  have pop: "LPopWithRetry mem_redis 2 (wait_key 7) (gw_world demo_full) =
      (Inr (demo_wire 1), mem_empty\<lparr>m_lists := (\<lambda>k. if k = wait_key 7 then [demo_wire 2] else [])\<rparr>)"
    by (simp add: LPopWithRetry_def numeral_2_eq_2 mem_redis_def mem_pop_def demo_full_def gw_init_def mem_empty_def fun_eq_iff)
  have dec: "client_unmarshal (\<lambda>n. n) (demo_wire 1) = (None, zero_client\<lparr>cID := 1\<rparr>)"
    by (simp add: demo_wire_def client_unmarshal_def unmarshal_struct_def)
  let ?w1 = "mem_empty\<lparr>m_lists := (\<lambda>k. if k = wait_key 7 then [demo_wire 2] else [])\<rparr>"
  have push: "RPushWithRetry mem_redis 2 (wait_key 7) (demo_wire 1) ?w1 =
      (Inr (), ?w1\<lparr>m_lists := (m_lists ?w1)(wait_key 7 := [demo_wire 2, demo_wire 1])\<rparr>)"
    by (simp add: RPushWithRetry_def numeral_2_eq_2 mem_ops mem_write_def mem_empty_def)
  have enq: "EnqueueMessage 7 m (demo_full\<lparr>gw_world := w\<rparr>) = Inr (Some enqueue_timeout, demo_full\<lparr>gw_world := w\<rparr>)" for m w
    by (simp add: EnqueueMessage_def find_holder_def send_to_def demo_full_def)
  have fields: "gdRedis demo_gw = mem_redis" "gdFloat demo_gw = (\<lambda>n. n)" by (simp_all add: demo_gw_def)
  obtain s' where run: "wait_user demo_gw 7 demo_full = Inr (False, s')"
    and w: "m_lists (gw_world s') (wait_key 7) = [demo_wire 2, demo_wire 1]"
    by (simp add: wait_user_def fields pop dec then_do_def enq push)
  have laws: "list_laws (gdRedis demo_gw) m_lists" using mem_list_laws by (simp add: demo_gw_def)
  from wait_pass_reorders [OF laws inv run] obtain lost msgStr rest m where
    "lost @ msgStr # rest = [demo_wire 1, demo_wire 2]" "m_lists (gw_world s') (wait_key 7) = rest @ replicate m msgStr"
    by (auto simp: demo_full_def gw_init_def)
  with run w show ?thesis by (intro exI[of _ s'] conjI exI[of _ 1] exI[of _ "[demo_wire 2]"]) auto
qed

end
