(* ===== verification/GwWs.thy ===== *)
theory GwWs
  imports GwDispatch
begin

text \<open>
  \<open>internal/gateway/user/ws/ws.go\<close> and the synchronous writes of \<open>internal/gateway/push\<close>: a user's
  WebSocket handler with its read loop and heartbeat. What the other goroutines do while a writer is
  waited for, and what it answers before the time-out, is the argument \<open>wait\<close>.
\<close>

section \<open>Synchronous writes\<close>

type_synonym 'w wait = "'w gw_proc \<Rightarrow> goerr option option \<times> 'w gw_proc"

definition write_timeout :: goerr where
  "write_timeout = ErrText ''write result timeout''"

definition WriteJSONSafe :: "nat option \<Rightarrow> gw_msg \<Rightarrow> 'w wait \<Rightarrow> ('w gw_proc, goerr option) proc" where
  "WriteJSONSafe h m wait =
     (case h of
        None \<Rightarrow> returns (Some ErrNoConn)
      | Some a \<Rightarrow>
          then_do (send_to a \<lparr>rqMsg = m, rqResp = True\<rparr>)
            (\<lambda>e s. case e of
                Some err \<Rightarrow> Inr (Some err, s)
              | None \<Rightarrow>
                  (case wait s of
                     (Some res, s') \<Rightarrow> Inr (res, s')
                   | (None, s') \<Rightarrow> Inr (Some write_timeout, s'))))"

definition complete_push :: "int64 \<Rightarrow> int64 \<Rightarrow> goerr option \<Rightarrow> ('w gw_proc, goerr option) proc" where
  "complete_push t0 t1 err s =
     (case pushMonitor s of
        None \<Rightarrow> Inr (err, s)
      | Some mon \<Rightarrow>
          (case CompleteTask (NewTask t0) (err = None) t1 mon of
             Inl h \<Rightarrow> Inl h
           | Inr (_, mon') \<Rightarrow> Inr (err, s\<lparr>pushMonitor := Some mon'\<rparr>)))"

definition PushViaWS :: "'w gw_deps \<Rightarrow> int64 \<Rightarrow> client_message \<Rightarrow> 'w wait \<Rightarrow> int64 \<Rightarrow> int64 \<Rightarrow> ('w gw_proc, goerr option) proc" where
  "PushViaWS d u m wait t0 t1 s =
     (case find_holder u s of
        None \<Rightarrow> complete_push t0 t1 (Some ErrNoConn) s
      | Some a \<Rightarrow>
          then_do (WriteJSONSafe (Some a) (GClient m) wait)
            (\<lambda>err s. complete_push t0 t1 err
               (if err \<noteq> None \<and> err \<noteq> Some ErrNoConn then snd (RemoveConnection d u s) else s)) s)"

fun push_retries :: "nat \<Rightarrow> 'w gw_deps \<Rightarrow> int64 \<Rightarrow> client_message \<Rightarrow> 'w wait \<Rightarrow> int64 \<Rightarrow> int64 \<Rightarrow> goerr option \<Rightarrow>
    ('w gw_proc, goerr option) proc" where
  "push_retries 0 d u m wait t0 t1 err = returns err"
| "push_retries (Suc n) d u m wait t0 t1 err =
     then_do (PushViaWS d u m wait t0 t1)
       (\<lambda>e. case e of None \<Rightarrow> returns None | Some _ \<Rightarrow> push_retries n d u m wait t0 t1 e)"

definition PushViaWSWithRetry :: "'w gw_deps \<Rightarrow> int64 \<Rightarrow> nat \<Rightarrow> client_message \<Rightarrow> 'w wait \<Rightarrow> int64 \<Rightarrow> int64 \<Rightarrow>
    ('w gw_proc, goerr option) proc" where
  "PushViaWSWithRetry d u attempts m wait t0 t1 =
     then_do (PushViaWS d u m wait t0 t1)
       (\<lambda>e. if e = None \<or> e = Some ErrNoConn then returns e else push_retries (attempts - 1) d u m wait t0 t1 e)"

definition InitDispatcher :: "'w gw_proc \<Rightarrow> 'w gw_proc" where
  "InitDispatcher s = s\<lparr>pushMonitor := Some (NewMonitor 1000 60000)\<rparr>"

section \<open>The handler\<close>

definition welcome_msg :: client_message where
  "welcome_msg = \<lparr>cID = -1, cType = ''system'', cRoomID = -1, cSenderID = -1,
     cPayload = GoVal (JStr ''Connected to WebSocket server'')\<rparr>"

text \<open>
  The beginning of \<open>WebSocketHandler\<close>, up to its loops; \<open>upgraded\<close> is the new connection, \<open>user\<close> the
  user the middleware left in the context. The result says how the handler goes on.
\<close>

datatype ws_start = Refused503 | UpgradeFailed | Unauthorized | Serving int64

definition WebSocketHandler_start :: "'w gw_deps \<Rightarrow> int64 \<Rightarrow> nat option \<Rightarrow> int64 option \<Rightarrow> 'w wait \<Rightarrow> int64 \<Rightarrow> int64 \<Rightarrow>
    ('w gw_proc, ws_start) proc" where
  "WebSocketHandler_start d maxConnections upgraded user wait t0 t1 s =
     (if maxConnections \<le>s GetConnectionCount s then Inr (Refused503, s)
      else case upgraded of
          None \<Rightarrow> Inr (UpgradeFailed, s)
        | Some conn \<Rightarrow>
            (case user of
               None \<Rightarrow> Inr (Unauthorized, s\<lparr>closedConns := closedConns s @ [conn]\<rparr>)
             | Some u \<Rightarrow>
                 then_do (PushViaWS d u welcome_msg wait t0 t1) (\<lambda>_. returns (Serving u)) (RegisterConnection d u conn s)))"

text \<open>What \<open>ReadMessage\<close> returns, as the read loop classifies it, and whether the loop goes on.\<close>

datatype read_result = GotMessage | PeerClosed | ReadTimeout | TemporaryError | ClosedOrEOF | OtherError

fun keeps_reading :: "read_result \<Rightarrow> bool" where
  "keeps_reading GotMessage = True"
| "keeps_reading TemporaryError = True"
| "keeps_reading _ = False"

text \<open>The loop over a sequence of reads; it ends with the removal, \<open>None\<close> while it still reads.\<close>

fun read_loop :: "'w gw_deps \<Rightarrow> int64 \<Rightarrow> read_result list \<Rightarrow> 'w gw_proc \<Rightarrow> 'w gw_proc option" where
  "read_loop d u [] s = None"
| "read_loop d u (r # rs) s = (if keeps_reading r then read_loop d u rs s else Some (snd (RemoveConnection d u s)))"

text \<open>A tick of the heartbeat; the result is whether its goroutine goes on.\<close>

definition heartbeat_tick :: "'w gw_deps \<Rightarrow> int64 \<Rightarrow> 'w wait \<Rightarrow> 'w wait \<Rightarrow> ('w gw_proc, bool) proc" where
  "heartbeat_tick d u wait1 wait2 s =
     (case find_holder u s of
        None \<Rightarrow> Inr (True, s)
      | Some a \<Rightarrow>
          then_do (WriteJSONSafe (Some a) GPing wait1)
            (\<lambda>err. if err = None then returns True
               else if err = Some ErrNoConn then returns False
               else then_do (WriteJSONSafe (Some a) GPing wait2)
                 (\<lambda>err2 s. if err2 = None then Inr (True, s) else Inr (False, snd (RemoveConnection d u s)))) s)"

section \<open>Lemmas\<close>

text \<open>The other goroutines keep the invariant, and no writer answers \<open>ErrNoConn\<close>.\<close>

definition wait_ok :: "'w wait \<Rightarrow> bool" where
  "wait_ok wait \<longleftrightarrow> (\<forall>s. gw_inv s \<longrightarrow> gw_inv (snd (wait s)) \<and> fst (wait s) \<noteq> Some (Some ErrNoConn))"

lemma send_to_found:
  assumes inv: "gw_inv s" and a: "find_holder u s = Some a" and run: "send_to a r s = Inr (e, s')"
  shows "gw_inv s' \<and> (e = None \<or> e = Some enqueue_timeout)"
proof -
  from a have c: "connStore s u = Some a" by (simp add: find_holder_def)
  show ?thesis
  proof (cases "length (hSend (holders s ! a)) < hCap (holders s ! a)")
    case True
    with run gw_invD(5) [OF inv c]
    have s': "s' = incPending 1 (set_holder a (\<lambda>h. h\<lparr>hSend := hSend h @ [r]\<rparr>) s)" "e = None"
      by (simp_all add: send_to_def Let_def)
    have "gw_inv s'"
      by (rule inv_buffer [OF inv c, where rs = "hSend (holders s ! a) @ [r]"])
         (use True in \<open>simp_all add: s' incPending_def set_holder_def\<close>)
    with s' show ?thesis by simp
  next
    case False
    with run gw_invD(5) [OF inv c] inv show ?thesis by (simp add: send_to_def Let_def)
  qed
qed

lemma send_to_returns: "gw_inv s \<Longrightarrow> find_holder u s = Some a \<Longrightarrow> \<exists>e s'. send_to a r s = Inr (e, s')"
  using gw_invD(5) [of s u a] by (auto simp: find_holder_def send_to_def Let_def)

lemma WriteJSONSafe_found:
  assumes inv: "gw_inv s" and w: "wait_ok wait" and a: "find_holder u s = Some a"
    and run: "WriteJSONSafe (Some a) m wait s = Inr (e, s')"
  shows "gw_inv s' \<and> e \<noteq> Some ErrNoConn"
proof -
  from run obtain e1 s1 where s1: "send_to a \<lparr>rqMsg = m, rqResp = True\<rparr> s = Inr (e1, s1)"
    and k: "(case e1 of Some err \<Rightarrow> Inr (Some err, s1)
              | None \<Rightarrow> (case wait s1 of (Some res, s') \<Rightarrow> Inr (res, s') | (None, s') \<Rightarrow> Inr (Some write_timeout, s')))
            = (Inr (e, s') :: halt + (goerr option \<times> 'a gw_proc))"
    by (auto simp: WriteJSONSafe_def elim!: then_doE)
  from send_to_found [OF inv a s1] have i1: "gw_inv s1" and e1: "e1 = None \<or> e1 = Some enqueue_timeout" by auto
  from w i1 have "gw_inv (snd (wait s1))" "fst (wait s1) \<noteq> Some (Some ErrNoConn)" by (simp_all add: wait_ok_def)
  with k i1 e1 show ?thesis
    by (auto simp: enqueue_timeout_def write_timeout_def split: prod.splits option.splits)
qed

lemma complete_push_effect:
  "complete_push t0 t1 err s = Inr (e, s') \<Longrightarrow> e = err \<and> conn_part s' = conn_part s"
  by (auto simp: complete_push_def split: option.splits sum.splits)

lemma connection_conn_part: "conn_part s' = conn_part s \<Longrightarrow> GetConnection u s' = GetConnection u s"
  by (simp add: conn_part_def GetConnection_def)

section \<open>Properties\<close>

text \<open>
  C31: a synchronous push keeps the counters exact, and when it reports any error the user is left
  without a connection: whoever cannot be written to, be it only because the channel was full, is
  disconnected.
\<close>

theorem failed_push_disconnects:
  assumes inv: "gw_inv s" and w: "wait_ok wait" and run: "PushViaWS d u m wait t0 t1 s = Inr (err, s')"
  shows "gw_inv s' \<and> (err \<noteq> None \<longrightarrow> GetConnection u s' = None)"
proof (cases "find_holder u s")
  case None
  with run have "err = Some ErrNoConn" and c: "conn_part s' = conn_part s"
    using complete_push_effect by (fastforce simp: PushViaWS_def)+
  with None inv gw_inv_cong [OF c] connection_conn_part [OF c, of u] show ?thesis
    by (simp add: GetConnection_def find_holder_def)
next
  case (Some a)
  with run obtain e s1 where wr: "WriteJSONSafe (Some a) (GClient m) wait s = Inr (e, s1)"
    and k: "complete_push t0 t1 e (if e \<noteq> None \<and> e \<noteq> Some ErrNoConn then snd (RemoveConnection d u s1) else s1) = Inr (err, s')"
    by (auto simp: PushViaWS_def elim!: then_doE)
  from WriteJSONSafe_found [OF inv w Some wr] have i1: "gw_inv s1" and ne: "e \<noteq> Some ErrNoConn" by auto
  let ?t = "if e \<noteq> None \<and> e \<noteq> Some ErrNoConn then snd (RemoveConnection d u s1) else s1"
  from complete_push_effect [OF k] have e: "err = e" and c: "conn_part s' = conn_part ?t" by auto
  have "gw_inv ?t \<and> (e \<noteq> None \<longrightarrow> GetConnection u ?t = None)"
    using RemoveConnection_effect [OF i1, of d u] i1 ne by (simp add: GetConnection_def)
  with gw_inv_cong [OF c] connection_conn_part [OF c, of u] e show ?thesis by simp
qed


section \<open>Witnesses\<close>

lemma pushMonitor_done: "pushMonitor (gw_done k s) = pushMonitor s"
proof -
  have "pushMonitor (fold gw_callback cs s) = pushMonitor s" for cs and s :: "'a gw_proc"
  proof (induction cs arbitrary: s)
    case (Cons c cs)
    have "pushMonitor (gw_callback c s) = pushMonitor s" by (cases "(c, s)" rule: gw_callback.cases) auto
    with Cons show ?case by simp
  qed simp
  then show ?thesis by (simp add: gw_done_def Let_def)
qed

lemma pushMonitor_send_back: "pushMonitor (send_back d u rs s) = pushMonitor s"
  by (induction d u rs s rule: send_back.induct) (auto simp: pushMonitor_done split: gw_msg.split prod.split option.split)

lemma pushMonitor_kept: "pushMonitor (snd (RemoveConnection d u s)) = pushMonitor s"
  by (auto simp: RemoveConnection_def Let_def report_disconnect_def report_io_def pushMonitor_send_back
      decPending_def PullTask_def set_holder_def split: option.split)

theorem failed_push_disconnects_witness:
  "\<exists>s'. PushViaWS demo_gw 7 welcome_msg (\<lambda>s. (None, s)) 0 1 (RegisterConnection demo_gw 7 1 (gw_init mem_empty))
       = Inr (Some write_timeout, s') \<and> GetConnection 7 s' = None"
proof -
  define s :: "mem gw_proc" where "s = RegisterConnection demo_gw 7 1 (gw_init mem_empty)"
  let ?wait = "\<lambda>s :: mem gw_proc. (None, s)"
  have inv: "gw_inv s" unfolding s_def by (rule RegisterConnection_effect [OF gw_init_inv, THEN conjunct1])
  have w: "wait_ok ?wait" by (simp add: wait_ok_def)
  have s: "holders s = [\<lparr>hConn = 1, hSend = [], hCap = 128, hSendClosed = False, hCloseSig = False\<rparr>]"
    "connStore s = [7 \<mapsto> 0]" "pushMonitor s = None"
    by (simp_all add: s_def RegisterConnection_def gw_init_def report_connect_def demo_gw_def Let_def send_buffer_def)
  obtain t where t: "send_to 0 \<lparr>rqMsg = GClient welcome_msg, rqResp = True\<rparr> s = Inr (None, t)" "pushMonitor t = None"
    by (simp add: send_to_def s Let_def incPending_def set_holder_def)
  have wr: "WriteJSONSafe (Some 0) (GClient welcome_msg) ?wait s = Inr (Some write_timeout, t)"
    by (simp add: WriteJSONSafe_def then_do_def t)
  obtain s' where r: "PushViaWS demo_gw 7 welcome_msg ?wait 0 1 s = Inr (Some write_timeout, s')"
    using t(2) by (simp add: PushViaWS_def find_holder_def s then_do_def wr complete_push_def pushMonitor_kept write_timeout_def)
  from failed_push_disconnects [OF inv w r] r show ?thesis by (auto simp: s_def)
qed


end
