(* ===== verification/SendConn.thy ===== *)
theory SendConn
  imports SendPush ConnStore Monitor
begin

text \<open>
  The send service's own connections and its standalone mode: \<open>internal/send/push/manager.go\<close>,
  \<open>channel_ws.go\<close>, \<open>channel_cache.go\<close> and \<open>dispatcher_standalone.go\<close>. Holders are cells, as in the
  gateway; unlike there, replacing a connection closes the old channels without draining them. What other
  goroutines do while a writer is waited for is the argument \<open>wait\<close>.
\<close>

section \<open>State\<close>

datatype ws_msg = WsPing | WsClient client_message

record ws_request =
  wrMsg :: ws_msg
  wrResp :: bool

record ws_holder =
  whConn :: nat
  whSend :: "ws_request list"
  whCap :: nat
  whSendClosed :: bool
  whCloseSig :: bool

record 'w ws_proc =
  wsSend :: "'w send_proc"
  wsHolders :: "ws_holder list"
  wsStore :: "int64 \<rightharpoonup> nat"
  wsClosed :: "nat list"
  wsWaitSet :: "int64 list"
  wsWaitMsg :: "int64 \<rightharpoonup> wire list"
  wsMonitor :: "monitor option"

record 'w ws_deps =
  wdSend :: "'w send_deps"
  wdFloat :: "int \<Rightarrow> int"
  wdGateway :: bool
  wdBuffer :: "nat option"

definition in_send :: "('w send_proc, 'a) proc \<Rightarrow> ('w ws_proc, 'a) proc" where
  "in_send m s = (case m (wsSend s) of Inl h \<Rightarrow> Inl h | Inr (v, p) \<Rightarrow> Inr (v, s\<lparr>wsSend := p\<rparr>))"

section \<open>Connections\<close>

definition ws_buffer :: "'w ws_deps \<Rightarrow> nat" where
  "ws_buffer d = (case wdBuffer d of Some n \<Rightarrow> if 0 < n then n else 128 | None \<Rightarrow> 128)"

text \<open>
  Both closes stand in one function whose panic is recovered: if \<open>closeCh\<close> is closed already, \<open>sendCh\<close>
  stays as it is.
\<close>

definition close_holder :: "nat \<Rightarrow> 'w ws_proc \<Rightarrow> 'w ws_proc" where
  "close_holder a s =
     (let h = wsHolders s ! a;
          h' = (if whCloseSig h then h else h\<lparr>whCloseSig := True, whSendClosed := True\<rparr>)
      in s\<lparr>wsHolders := (wsHolders s)[a := h'], wsClosed := wsClosed s @ [whConn h]\<rparr>)"

definition RemoveConnection_ws :: "int64 \<Rightarrow> 'w ws_proc \<Rightarrow> goerr option \<times> 'w ws_proc" where
  "RemoveConnection_ws u s =
     (case wsStore s u of
        None \<Rightarrow> (Some ErrNoConn, s)
      | Some a \<Rightarrow> (None, (close_holder a s)\<lparr>wsStore := (wsStore s)(u := None)\<rparr>))"

definition RegisterConnection_ws :: "'w ws_deps \<Rightarrow> int64 \<Rightarrow> nat \<Rightarrow> 'w ws_proc \<Rightarrow> 'w ws_proc" where
  "RegisterConnection_ws d u conn s =
     (let s1 = (case wsStore s u of
            None \<Rightarrow> s
          | Some a \<Rightarrow> (close_holder a s)\<lparr>wsStore := (wsStore s)(u := None)\<rparr>);
          h = \<lparr>whConn = conn, whSend = [], whCap = ws_buffer d, whSendClosed = False, whCloseSig = False\<rparr>
      in s1\<lparr>wsHolders := wsHolders s1 @ [h], wsStore := (wsStore s1)(u \<mapsto> length (wsHolders s1))\<rparr>)"

definition GetConnectionHolder_ws :: "int64 \<Rightarrow> 'w ws_proc \<Rightarrow> nat option" where
  "GetConnectionHolder_ws u s = wsStore s u"

definition GetConnection_ws :: "int64 \<Rightarrow> 'w ws_proc \<Rightarrow> nat option" where
  "GetConnection_ws u s = map_option (\<lambda>a. whConn (wsHolders s ! a)) (wsStore s u)"

definition ws_timeout :: goerr where
  "ws_timeout = ErrText ''enqueue timeout''"

definition ws_send_to :: "nat \<Rightarrow> ws_request \<Rightarrow> ('w ws_proc, goerr option) proc" where
  "ws_send_to a r s =
     (let h = wsHolders s ! a in
      if whSendClosed h then Inl Panicked
      else if length (whSend h) < whCap h then
        Inr (None, s\<lparr>wsHolders := (wsHolders s)[a := h\<lparr>whSend := whSend h @ [r]\<rparr>]\<rparr>)
      else Inr (Some ws_timeout, s))"

definition EnqueueMessage_ws :: "int64 \<Rightarrow> ws_msg \<Rightarrow> ('w ws_proc, goerr option) proc" where
  "EnqueueMessage_ws u m s =
     (case wsStore s u of
        None \<Rightarrow> Inr (Some ErrNoConn, s)
      | Some a \<Rightarrow> ws_send_to a \<lparr>wrMsg = m, wrResp = False\<rparr> s)"

type_synonym 'w ws_wait = "'w ws_proc \<Rightarrow> goerr option option \<times> 'w ws_proc"

definition WriteJSONSafe_ws :: "nat option \<Rightarrow> ws_msg \<Rightarrow> 'w ws_wait \<Rightarrow> ('w ws_proc, goerr option) proc" where
  "WriteJSONSafe_ws h m wait =
     (case h of
        None \<Rightarrow> returns (Some ErrNoConn)
      | Some a \<Rightarrow>
          then_do (ws_send_to a \<lparr>wrMsg = m, wrResp = True\<rparr>)
            (\<lambda>e s. case e of
                Some err \<Rightarrow> Inr (Some err, s)
              | None \<Rightarrow>
                  (case wait s of
                     (Some res, s') \<Rightarrow> Inr (res, s')
                   | (None, s') \<Rightarrow> Inr (Some (ErrText ''write result timeout''), s'))))"

text \<open>One round of \<open>writerLoop\<close> that receives from \<open>sendCh\<close>; \<open>res\<close> is what the write returns.\<close>

definition ws_writer_round :: "nat \<Rightarrow> goerr option \<Rightarrow> 'w ws_proc \<Rightarrow> (bool \<times> goerr option option) \<times> 'w ws_proc" where
  "ws_writer_round a res s =
     (case whSend (wsHolders s ! a) of
        [] \<Rightarrow> ((\<not> whSendClosed (wsHolders s ! a), None), s)
      | r # rs \<Rightarrow>
          let s1 = s\<lparr>wsHolders := (wsHolders s)[a := (wsHolders s ! a)\<lparr>whSend := rs\<rparr>]\<rparr>;
              s2 = (if res = None then s1 else s1\<lparr>wsClosed := wsClosed s1 @ [whConn (wsHolders s ! a)]\<rparr>)
          in ((res = None, if wrResp r then Some res else None), s2))"

section \<open>Pushing to a connection\<close>

definition complete_ws :: "int64 \<Rightarrow> int64 \<Rightarrow> goerr option \<Rightarrow> ('w ws_proc, goerr option) proc" where
  "complete_ws t0 t1 err s =
     (case wsMonitor s of
        None \<Rightarrow> Inr (err, s)
      | Some mon \<Rightarrow>
          (case CompleteTask (NewTask t0) (err = None) t1 mon of
             Inl h \<Rightarrow> Inl h
           | Inr (_, mon') \<Rightarrow> Inr (err, s\<lparr>wsMonitor := Some mon'\<rparr>)))"

definition PushViaWS_ws :: "int64 \<Rightarrow> client_message \<Rightarrow> 'w ws_wait \<Rightarrow> int64 \<Rightarrow> int64 \<Rightarrow> ('w ws_proc, goerr option) proc" where
  "PushViaWS_ws u m wait t0 t1 s =
     (case wsStore s u of
        None \<Rightarrow> complete_ws t0 t1 (Some ErrNoConn) s
      | Some a \<Rightarrow>
          then_do (WriteJSONSafe_ws (Some a) (WsClient m) wait)
            (\<lambda>err s. complete_ws t0 t1 err
               (if err \<noteq> None \<and> err \<noteq> Some ErrNoConn then snd (RemoveConnection_ws u s) else s)) s)"

fun ws_retries :: "nat \<Rightarrow> int64 \<Rightarrow> client_message \<Rightarrow> 'w ws_wait \<Rightarrow> int64 \<Rightarrow> int64 \<Rightarrow> goerr option \<Rightarrow> ('w ws_proc, goerr option) proc" where
  "ws_retries 0 u m wait t0 t1 err = returns err"
| "ws_retries (Suc n) u m wait t0 t1 err =
     then_do (PushViaWS_ws u m wait t0 t1)
       (\<lambda>e. case e of None \<Rightarrow> returns None | Some _ \<Rightarrow> ws_retries n u m wait t0 t1 e)"

definition PushViaWSWithRetry_ws :: "nat \<Rightarrow> int64 \<Rightarrow> client_message \<Rightarrow> 'w ws_wait \<Rightarrow> int64 \<Rightarrow> int64 \<Rightarrow> ('w ws_proc, goerr option) proc" where
  "PushViaWSWithRetry_ws attempts u m wait t0 t1 =
     then_do (PushViaWS_ws u m wait t0 t1)
       (\<lambda>e. if e = None \<or> e = Some ErrNoConn then returns e else ws_retries (attempts - 1) u m wait t0 t1 e)"

section \<open>Invariant\<close>

definition ws_inv :: "'w ws_proc \<Rightarrow> bool" where
  "ws_inv s \<longleftrightarrow> (\<forall>u a. wsStore s u = Some a \<longrightarrow> a < length (wsHolders s)
       \<and> \<not> whSendClosed (wsHolders s ! a) \<and> \<not> whCloseSig (wsHolders s ! a))
     \<and> (\<forall>u v a. wsStore s u = Some a \<longrightarrow> wsStore s v = Some a \<longrightarrow> u = v)"

lemma ws_invD:
  assumes "ws_inv s" "wsStore s u = Some a"
  shows "a < length (wsHolders s)" "\<not> whSendClosed (wsHolders s ! a)" "\<not> whCloseSig (wsHolders s ! a)"
    "wsStore s v = Some a \<Longrightarrow> u = v"
  using assms unfolding ws_inv_def by blast+

lemma close_holder_effect:
  assumes inv: "ws_inv s" and a: "wsStore s u = Some a"
  shows "ws_inv ((close_holder a s)\<lparr>wsStore := (wsStore s)(u := None)\<rparr>)
    \<and> (\<forall>v b. v \<noteq> u \<longrightarrow> wsStore s v = Some b \<longrightarrow> wsHolders (close_holder a s) ! b = wsHolders s ! b)
    \<and> wsHolders (close_holder a s) ! a = (wsHolders s ! a)\<lparr>whCloseSig := True, whSendClosed := True\<rparr>
    \<and> length (wsHolders (close_holder a s)) = length (wsHolders s)"
proof -
  have keep: "wsHolders (close_holder a s) ! b = wsHolders s ! b" if "v \<noteq> u" "wsStore s v = Some b" for v b
  proof -
    have "b \<noteq> a" using ws_invD(4) [OF inv a, of v] that by auto
    then show ?thesis by (simp add: close_holder_def Let_def)
  qed
  moreover have "ws_inv ((close_holder a s)\<lparr>wsStore := (wsStore s)(u := None)\<rparr>)"
    unfolding ws_inv_def
  proof (intro conjI allI impI)
    fix v b assume "wsStore (close_holder a s\<lparr>wsStore := (wsStore s)(u := None)\<rparr>) v = Some b"
    then have v: "v \<noteq> u" "wsStore s v = Some b" by (auto split: if_splits)
    from ws_invD(1-3) [OF inv v(2)] keep [OF v]
    show "b < length (wsHolders (close_holder a s\<lparr>wsStore := (wsStore s)(u := None)\<rparr>))"
      "\<not> whSendClosed (wsHolders (close_holder a s\<lparr>wsStore := (wsStore s)(u := None)\<rparr>) ! b)"
      "\<not> whCloseSig (wsHolders (close_holder a s\<lparr>wsStore := (wsStore s)(u := None)\<rparr>) ! b)"
      by (simp_all add: close_holder_def Let_def)
  next
    fix v v' b assume "wsStore (close_holder a s\<lparr>wsStore := (wsStore s)(u := None)\<rparr>) v = Some b"
      "wsStore (close_holder a s\<lparr>wsStore := (wsStore s)(u := None)\<rparr>) v' = Some b"
    then show "v = v'" using inv unfolding ws_inv_def by (auto split: if_splits)
  qed
  ultimately show ?thesis using ws_invD(1,3) [OF inv a] by (simp add: close_holder_def Let_def)
qed

lemma add_holder_effect:
  assumes inv: "ws_inv s" and u: "wsStore s u = None" and h: "\<not> whSendClosed h" "\<not> whCloseSig h"
  shows "ws_inv (s\<lparr>wsHolders := wsHolders s @ [h], wsStore := (wsStore s)(u \<mapsto> length (wsHolders s))\<rparr>)"
  unfolding ws_inv_def
proof (intro conjI allI impI)
  let ?s = "s\<lparr>wsHolders := wsHolders s @ [h], wsStore := (wsStore s)(u \<mapsto> length (wsHolders s))\<rparr>"
  fix v b assume "wsStore ?s v = Some b"
  then have "(v = u \<and> b = length (wsHolders s)) \<or> wsStore s v = Some b" by (auto split: if_splits)
  then show "b < length (wsHolders ?s)" "\<not> whSendClosed (wsHolders ?s ! b)" "\<not> whCloseSig (wsHolders ?s ! b)"
    using h ws_invD(1-3) [OF inv, of v b] by (auto simp: nth_append)
next
  let ?s = "s\<lparr>wsHolders := wsHolders s @ [h], wsStore := (wsStore s)(u \<mapsto> length (wsHolders s))\<rparr>"
  fix v v' b assume v: "wsStore ?s v = Some b" and v': "wsStore ?s v' = Some b"
  have new: "wsStore s x \<noteq> Some (length (wsHolders s))" for x using ws_invD(1) [OF inv, of x] by blast
  have "(v = u \<and> b = length (wsHolders s)) \<or> (v \<noteq> u \<and> wsStore s v = Some b)"
    "(v' = u \<and> b = length (wsHolders s)) \<or> (v' \<noteq> u \<and> wsStore s v' = Some b)"
    using v v' by (auto split: if_splits)
  then show "v = v'" using new ws_invD(4) [OF inv, of v b v'] by blast
qed

lemma RegisterConnection_ws_effect:
  assumes inv: "ws_inv s"
  shows "ws_inv (RegisterConnection_ws d u c s)
    \<and> wsStore (RegisterConnection_ws d u c s) = (wsStore s)(u \<mapsto> length (wsHolders s))
    \<and> (\<forall>v b. v \<noteq> u \<longrightarrow> wsStore s v = Some b \<longrightarrow> wsHolders (RegisterConnection_ws d u c s) ! b = wsHolders s ! b)
    \<and> wsHolders (RegisterConnection_ws d u c s) ! length (wsHolders s) =
        \<lparr>whConn = c, whSend = [], whCap = ws_buffer d, whSendClosed = False, whCloseSig = False\<rparr>
    \<and> (\<forall>a. wsStore s u = Some a \<longrightarrow> whSendClosed (wsHolders (RegisterConnection_ws d u c s) ! a)
         \<and> whSend (wsHolders (RegisterConnection_ws d u c s) ! a) = whSend (wsHolders s ! a))"
proof (cases "wsStore s u")
  case None
  then show ?thesis
    using add_holder_effect [OF inv None] ws_invD(1) [OF inv]
    by (auto simp: RegisterConnection_ws_def Let_def nth_append)
next
  case (Some a)
  let ?s1 = "(close_holder a s)\<lparr>wsStore := (wsStore s)(u := None)\<rparr>"
  note C = close_holder_effect [OF inv Some]
  let ?h = "\<lparr>whConn = c, whSend = [], whCap = ws_buffer d, whSendClosed = False, whCloseSig = False\<rparr>"
  have R: "RegisterConnection_ws d u c s =
      ?s1\<lparr>wsHolders := wsHolders ?s1 @ [?h], wsStore := (wsStore ?s1)(u \<mapsto> length (wsHolders ?s1))\<rparr>"
    by (simp add: RegisterConnection_ws_def Some Let_def)
  have "ws_inv (RegisterConnection_ws d u c s)"
    unfolding R by (rule add_holder_effect) (use C in simp_all)
  moreover have "a < length (wsHolders s)" by (rule ws_invD(1) [OF inv Some])
  moreover have "b < length (wsHolders s)" if "wsStore s v = Some b" for v b by (rule ws_invD(1) [OF inv that])
  ultimately show ?thesis using C Some by (auto simp: R nth_append)
qed

lemma RemoveConnection_ws_effect:
  assumes inv: "ws_inv s"
  shows "ws_inv (snd (RemoveConnection_ws u s))
    \<and> wsStore (snd (RemoveConnection_ws u s)) = (wsStore s)(u := None)
    \<and> (\<forall>v b. v \<noteq> u \<longrightarrow> wsStore s v = Some b \<longrightarrow> wsHolders (snd (RemoveConnection_ws u s)) ! b = wsHolders s ! b)"
proof (cases "wsStore s u")
  case None
  then have "(wsStore s)(u := None) = wsStore s" by (simp add: fun_upd_idem)
  with None inv show ?thesis by (simp add: RemoveConnection_ws_def)
next
  case (Some a)
  with close_holder_effect [OF inv Some] show ?thesis by (simp add: RemoveConnection_ws_def)
qed

interpretation wsc: conn_registry "\<lambda>u c s. RegisterConnection_ws d u c s" "\<lambda>u s. snd (RemoveConnection_ws u s)"
  "\<lambda>s u. GetConnection_ws u s" ws_inv for d :: "'w ws_deps"
proof
  fix s :: "'w ws_proc" and u :: int64 and c :: nat
  assume inv: "ws_inv s"
  note R = RegisterConnection_ws_effect [OF inv, of d u c] and M = RemoveConnection_ws_effect [OF inv, of u]
  show "ws_inv (RegisterConnection_ws d u c s)" "ws_inv (snd (RemoveConnection_ws u s))" using R M by simp_all
  show "(\<lambda>v. GetConnection_ws v (RegisterConnection_ws d u c s)) = (\<lambda>v. GetConnection_ws v s)(u \<mapsto> c)"
  proof
    fix v show "GetConnection_ws v (RegisterConnection_ws d u c s) = ((\<lambda>v. GetConnection_ws v s)(u \<mapsto> c)) v"
      using R by (cases "wsStore s v") (auto simp: GetConnection_ws_def)
  qed
  show "(\<lambda>v. GetConnection_ws v (snd (RemoveConnection_ws u s))) = (\<lambda>v. GetConnection_ws v s)(u := None)"
  proof
    fix v show "GetConnection_ws v (snd (RemoveConnection_ws u s)) = ((\<lambda>v. GetConnection_ws v s)(u := None)) v"
      using M by (cases "wsStore s v") (auto simp: GetConnection_ws_def)
  qed
qed

section \<open>Properties\<close>

text \<open>
  When a user reconnects to the send service, the requests still in the old channel stay behind in a
  closed holder that no store entry refers to, and the new connection starts with an empty channel; over
  any history of connections and removals the connection found is that of the user's last event.
\<close>

theorem send_reconnect_strands_requests:
  assumes inv: "ws_inv s" and old: "wsStore s u = Some a" and s': "s' = RegisterConnection_ws d u c s"
  shows "(\<exists>b. wsStore s' u = Some b \<and> whConn (wsHolders s' ! b) = c \<and> whSend (wsHolders s' ! b) = [])
    \<and> whSend (wsHolders s' ! a) = whSend (wsHolders s ! a) \<and> whSendClosed (wsHolders s' ! a) \<and> a \<notin> ran (wsStore s')
    \<and> GetConnection_ws u (wsc.run_events d es s) =
        (case last_event u es of None \<Rightarrow> GetConnection_ws u s | Some (Registered v k) \<Rightarrow> Some k | Some (Removed v) \<Rightarrow> None)"
proof -
  note R = RegisterConnection_ws_effect [OF inv, of d u c, folded s']
  have "a \<notin> ran (wsStore s')"
  proof
    assume "a \<in> ran (wsStore s')"
    then obtain v where v: "wsStore s' v = Some a" by (auto simp: ran_def)
    have "a < length (wsHolders s)" by (rule ws_invD(1) [OF inv old])
    with v R have "v \<noteq> u" "wsStore s v = Some a" by (auto split: if_splits)
    with ws_invD(4) [OF inv old] show False by blast
  qed
  with R old wsc.last_event_wins [OF inv, of u d es] show ?thesis by simp
qed

definition ws_init :: "'w send_proc \<Rightarrow> 'w ws_proc" where
  "ws_init p = \<lparr>wsSend = p, wsHolders = [], wsStore = Map.empty, wsClosed = [], wsWaitSet = [], wsWaitMsg = Map.empty, wsMonitor = None\<rparr>"

lemma ws_init_inv [simp]: "ws_inv (ws_init p)"
  by (simp add: ws_init_def ws_inv_def)

definition demo_wdeps :: "mem ws_deps" where
  "demo_wdeps = \<lparr>wdSend = demo_deps, wdFloat = (\<lambda>n. n), wdGateway = False, wdBuffer = None\<rparr>"

definition demo_ws :: "mem ws_proc" where
  "demo_ws = (ws_init demo_proc)\<lparr>wsHolders := [\<lparr>whConn = 1, whSend = [\<lparr>wrMsg = WsPing, wrResp = False\<rparr>], whCap = 128,
     whSendClosed = False, whCloseSig = False\<rparr>], wsStore := [7 \<mapsto> 0]\<rparr>"

theorem send_reconnect_strands_requests_witness:
  "whSend (wsHolders (RegisterConnection_ws demo_wdeps 7 2 demo_ws) ! 0) = [\<lparr>wrMsg = WsPing, wrResp = False\<rparr>]
     \<and> 0 \<notin> ran (wsStore (RegisterConnection_ws demo_wdeps 7 2 demo_ws))"
proof -
  have "ws_inv demo_ws" by (auto simp: demo_ws_def ws_init_def ws_inv_def split: if_splits)
  from send_reconnect_strands_requests [OF this _ refl, of 7 0 demo_wdeps 2 "[]"] show ?thesis
    by (simp add: demo_ws_def)
qed

end
