(* ===== verification/Offline.thy ===== *)
theory Offline
  imports SendConn Pushback
begin

text \<open>
  Messages for users the send service cannot reach now: the wait and offline lists of
  \<open>internal/send/push/channel_cache.go\<close>, the standalone dispatcher that fills them, and the push of a
  user's offline messages, which \<open>NotifyOnlineHandler\<close> and the WebSocket handler of
  \<open>internal/send/ws/ws.go\<close> start when the user comes online.
\<close>

section \<open>Wait queue\<close>

definition ws_wait_key :: "int64 \<Rightarrow> string" where
  "ws_wait_key u = ''wait:push:'' @ FormatInt u"

definition InsertWaitSet_ws :: "int64 \<Rightarrow> 'w ws_proc \<Rightarrow> 'w ws_proc" where
  "InsertWaitSet_ws u s = (if u \<in> set (wsWaitSet s) then s else s\<lparr>wsWaitSet := wsWaitSet s @ [u]\<rparr>)"

definition RemoveWaitSet_ws :: "int64 \<Rightarrow> 'w ws_proc \<Rightarrow> 'w ws_proc" where
  "RemoveWaitSet_ws u s = s\<lparr>wsWaitSet := filter (\<lambda>v. v \<noteq> u) (wsWaitSet s)\<rparr>"

text \<open>A channel of capacity 100 that no code receives from.\<close>

definition InsertWaitMsg_ws :: "int64 \<Rightarrow> wire \<Rightarrow> ('w ws_proc, unit) proc" where
  "InsertWaitMsg_ws u msg s =
     (let buf = (case wsWaitMsg s u of None \<Rightarrow> [] | Some b \<Rightarrow> b) in
      if length buf < 100 then Inr ((), s\<lparr>wsWaitMsg := (wsWaitMsg s)(u \<mapsto> buf @ [msg])\<rparr>) else Inl Blocked)"

definition ws_redis :: "('w, goerr + 'a) io \<Rightarrow> ('w ws_proc, goerr + 'a) proc" where
  "ws_redis m = in_send (redis_call m)"

definition InsertWaitQueue_ws :: "'w ws_deps \<Rightarrow> int64 \<Rightarrow> wire \<Rightarrow> ('w ws_proc, unit) proc" where
  "InsertWaitQueue_ws d u msg s =
     then_do (ws_redis (SendQueueRPushWithRetry (clients (wdSend d)) 2 (ws_wait_key u) msg))
       (\<lambda>r. case r of Inl e \<Rightarrow> InsertWaitMsg_ws u msg | Inr _ \<Rightarrow> returns ()) (InsertWaitSet_ws u s)"

section \<open>The standalone dispatcher\<close>

text \<open>What became of one target; the code keeps no such record, the theorems do.\<close>

datatype ws_fate = WsQueued | WsOffline | WsWaiting

definition standalone_target :: "'w ws_deps \<Rightarrow> client_message \<Rightarrow> wire \<Rightarrow> int64 \<Rightarrow> ('w ws_proc, ws_fate) proc" where
  "standalone_target d m marshaled u =
     then_do (EnqueueMessage_ws u (WsClient m))
       (\<lambda>e. case e of
           None \<Rightarrow> returns WsQueued
         | Some err \<Rightarrow>
             if err = ErrNoConn then
               then_do (in_send (InsertOfflineQueue (wdSend d) u marshaled)) (\<lambda>_. returns WsOffline)
             else then_do (InsertWaitQueue_ws d u marshaled) (\<lambda>_. returns WsWaiting))"

fun standalone_targets :: "'w ws_deps \<Rightarrow> client_message \<Rightarrow> wire \<Rightarrow> int64 list \<Rightarrow> ('w ws_proc, ws_fate list) proc" where
  "standalone_targets d m marshaled [] = returns []"
| "standalone_targets d m marshaled (u # us) =
     then_do (standalone_target d m marshaled u)
       (\<lambda>f. then_do (standalone_targets d m marshaled us) (\<lambda>fs. returns (f # fs)))"

definition Dispatch_StandAlone :: "'w ws_deps \<Rightarrow> push_message \<Rightarrow> ('w ws_proc, goerr option \<times> ws_fate list) proc" where
  "Dispatch_StandAlone d msg =
     (let m = client_of_push msg in
      case client_json m of
        Inl e \<Rightarrow> returns (Some e, [])
      | Inr j \<Rightarrow> then_do (standalone_targets d m (Doc j) (pTargetIDs msg)) (\<lambda>fs. returns (None, fs)))"

definition InitDispatcher_ws :: "'w ws_proc \<Rightarrow> 'w ws_proc" where
  "InitDispatcher_ws s = s\<lparr>wsMonitor := Some (NewMonitor 1000 60000)\<rparr>"

text \<open>One user of the wait set; the result is whether the iteration goes on.\<close>

definition ws_wait_user :: "'w ws_deps \<Rightarrow> int64 \<Rightarrow> ('w ws_proc, bool) proc" where
  "ws_wait_user d u =
     (let cs = clients (wdSend d) in
      then_do (ws_redis (SendQueueLPopWithRetry cs 2 (ws_wait_key u)))
        (\<lambda>r. case r of
            Inl e \<Rightarrow> returns True
          | Inr msgStr \<Rightarrow>
              (case client_unmarshal (wdFloat d) msgStr of
                 (Some e, _) \<Rightarrow> returns True
               | (None, m) \<Rightarrow>
                   then_do (EnqueueMessage_ws u (WsClient m))
                     (\<lambda>e. if e \<noteq> None then
                            then_do (ws_redis (SendQueueRPushWithRetry cs 2 (ws_wait_key u) msgStr)) (\<lambda>_. returns False)
                          else then_do (ws_redis (SendQueueLLenWithRetry cs 2 (ws_wait_key u)))
                            (\<lambda>l s. Inr (True, if l = Inr 0 then RemoveWaitSet_ws u s else s))))))"

fun ws_wait_pass :: "'w ws_deps \<Rightarrow> int64 list \<Rightarrow> ('w ws_proc, unit) proc" where
  "ws_wait_pass d [] = returns ()"
| "ws_wait_pass d (u # us) = then_do (ws_wait_user d u) (\<lambda>go. if go then ws_wait_pass d us else returns ())"

fun ListeningWaitQueue_ws :: "'w ws_deps \<Rightarrow> (int64 list \<Rightarrow> int64 list) \<Rightarrow> nat \<Rightarrow> ('w ws_proc, unit) proc" where
  "ListeningWaitQueue_ws d walk 0 s = Inr ((), s)"
| "ListeningWaitQueue_ws d walk (Suc n) s =
     then_do (ws_wait_pass d (walk (wsWaitSet s))) (\<lambda>_. ListeningWaitQueue_ws d walk n) s"

section \<open>Offline messages\<close>

text \<open>What \<open>json.Marshal\<close> gives when its error is ignored: nothing, on an error.\<close>

definition marshal_or_empty :: "goerr + json \<Rightarrow> wire" where
  "marshal_or_empty r = (case r of Inl e \<Rightarrow> Raw [] | Inr j \<Rightarrow> Doc j)"

definition PushSingleMsg :: "'w ws_deps \<Rightarrow> 'w ws_wait \<Rightarrow> int64 \<Rightarrow> int64 \<Rightarrow> int64 \<Rightarrow> client_message \<Rightarrow> ('w ws_proc, goerr option) proc" where
  "PushSingleMsg d wait t0 t1 u m =
     (if wdGateway d then in_send (PushSingleViaGateway (wdSend d) u m)
      else then_do (PushViaWSWithRetry_ws 2 u m wait t0 t1)
        (\<lambda>err. case err of
            None \<Rightarrow> returns None
          | Some e \<Rightarrow>
              then_do (ws_redis (SendQueueRPushWithRetry (clients (wdSend d)) 2 (offline_key u) (marshal_or_empty (client_json m))))
                (\<lambda>_ s. Inr (Some e, if e \<noteq> ErrNoConn then snd (RemoveConnection_ws u s) else s))))"

text \<open>The messages as \<open>encoding/json\<close> prints the slice; none was decoded into something it cannot print.\<close>

fun clients_json :: "client_message list \<Rightarrow> goerr + json list" where
  "clients_json [] = Inr []"
| "clients_json (m # ms) =
     (case client_json m of
        Inl e \<Rightarrow> Inl e
      | Inr j \<Rightarrow> (case clients_json ms of Inl e \<Rightarrow> Inl e | Inr js \<Rightarrow> Inr (j # js)))"

definition batch_json :: "client_message list \<Rightarrow> goerr + json" where
  "batch_json ms = (case clients_json ms of Inl e \<Rightarrow> Inl e | Inr js \<Rightarrow> Inr (JArr js))"

definition note_message :: "string \<Rightarrow> goval \<Rightarrow> client_message" where
  "note_message t p = \<lparr>cID = -1, cType = t, cRoomID = 0, cSenderID = 0, cPayload = p\<rparr>"

definition batch_message :: "client_message list \<Rightarrow> client_message" where
  "batch_message ms = note_message ''batch'' (case batch_json ms of Inl e \<Rightarrow> GoUnsupported | Inr j \<Rightarrow> GoVal j)"

definition info_message :: client_message where
  "info_message = note_message ''info'' (GoVal (JStr ''You have offline messages but failed to retrieve them.''))"

text \<open>
  The loop of \<open>PushOfflineMessages\<close> over at most \<open>n\<close> entries. \<open>nowSize\<close> is compared against the batch
  size but never incremented.
\<close>

fun pop_offline :: "'w ws_deps \<Rightarrow> 'w ws_wait \<Rightarrow> int64 \<Rightarrow> int64 \<Rightarrow> int64 \<Rightarrow> nat \<Rightarrow> nat \<Rightarrow> client_message list \<Rightarrow>
    ('w ws_proc, client_message list) proc" where
  "pop_offline d wait t0 t1 u 0 nowSize ms = returns ms"
| "pop_offline d wait t0 t1 u (Suc n) nowSize ms =
     then_do (if 50 \<le> nowSize then then_do (PushSingleMsg d wait t0 t1 u (batch_message ms)) (\<lambda>_. returns ([], 0))
              else returns (ms, nowSize))
       (\<lambda>(ms, nowSize).
         then_do (ws_redis (SendQueueLPopWithRetry (clients (wdSend d)) 2 (offline_key u)))
           (\<lambda>r. case r of
               Inl e \<Rightarrow>
                 if e = RedisNil then returns ms
                 else then_do (PushSingleMsg d wait t0 t1 u info_message)
                   (\<lambda>err s. Inr (ms, if err \<noteq> None \<and> err \<noteq> Some ErrNoConn then snd (RemoveConnection_ws u s) else s))
             | Inr msg \<Rightarrow>
                 (case client_unmarshal (wdFloat d) msg of
                    (Some e, _) \<Rightarrow> pop_offline d wait t0 t1 u n nowSize ms
                  | (None, m) \<Rightarrow> pop_offline d wait t0 t1 u n nowSize (ms @ [m]))))"

definition push_popped :: "'w ws_deps \<Rightarrow> 'w ws_wait \<Rightarrow> int64 \<Rightarrow> int64 \<Rightarrow> int64 \<Rightarrow> client_message list \<Rightarrow> ('w ws_proc, unit) proc" where
  "push_popped d wait t0 t1 u ms =
     (if ms = [] then returns ()
      else then_do (PushSingleMsg d wait t0 t1 u (batch_message ms))
        (\<lambda>err. case err of
            None \<Rightarrow> returns ()
          | Some e \<Rightarrow>
              then_do (ws_redis (SendQueueRPushWithRetry (clients (wdSend d)) 2 (offline_key u) (marshal_or_empty (batch_json ms))))
                (\<lambda>_. returns ())))"

definition PushOfflineMessages :: "'w ws_deps \<Rightarrow> 'w ws_wait \<Rightarrow> int64 \<Rightarrow> int64 \<Rightarrow> int64 \<Rightarrow> ('w ws_proc, unit) proc" where
  "PushOfflineMessages d wait t0 t1 u =
     (let len = ws_redis (SendQueueLLenWithRetry (clients (wdSend d)) 2 (offline_key u));
          push = (\<lambda>n. then_do (pop_offline d wait t0 t1 u n 0 []) (push_popped d wait t0 t1 u)) in
      then_do len
        (\<lambda>r. case r of
            Inr n \<Rightarrow> push n
          | Inl e \<Rightarrow>
              if e = RedisNil then returns ()
              else then_do len (\<lambda>r2. case r2 of Inl _ \<Rightarrow> returns () | Inr n \<Rightarrow> push n)))"

section \<open>Lemmas\<close>

lemma ws_redis_run:
  "ws_redis m s = Inr (fst (m (sp_world (wsSend s))), s\<lparr>wsSend := (wsSend s)\<lparr>sp_world := snd (m (sp_world (wsSend s)))\<rparr>\<rparr>)"
  by (simp add: ws_redis_def in_send_def redis_call_def in_world_def split: prod.split)

definition ws_lists :: "('w \<Rightarrow> string \<Rightarrow> wire list) \<Rightarrow> 'w ws_proc \<Rightarrow> string \<Rightarrow> wire list" where
  "ws_lists lst s = lst (sp_world (wsSend s))"

lemma queue_client:
  assumes "getSendRoleClient cs RoleQueue = Some rd"
  shows "SendQueueRPushWithRetry cs n k v = RPushWithRetry rd n k v" "SendQueueLPopWithRetry cs n k = LPopWithRetry rd n k"
    "SendQueueLLenWithRetry cs n k = retry_loop n on_nil (Inr 0) (cLLen rd k)"
  using assms
  by (simp_all add: fun_eq_iff SendQueueRPushWithRetry_def SendQueueLPopWithRetry_def SendQueueLLenWithRetry_def
      sendRPushWithRetry_def sendLPopWithRetry_def sendLLenWithRetry_def RPushWithRetry_def LPopWithRetry_def)

lemma llen_retried:
  assumes "list_laws rd lst" "0 < n"
  shows "reads lst (retry_loop n on_nil (Inr 0) (cLLen rd k)) (\<lambda>s. on_ok (\<lambda>l. l = length (s k)))"
proof (rule reads_retry)
  show "reads lst (cLLen rd k) (\<lambda>s. on_ok (\<lambda>l. l = length (s k)))"
    using assms(1) unfolding list_laws_def reads_def on_ok_def by (fastforce split: sum.splits)
qed (rule assms(2))

lemma ws_push:
  assumes "getSendRoleClient cs RoleQueue = Some rd" "list_laws rd lst"
    and "ws_redis (SendQueueRPushWithRetry cs 2 k v) s = Inr (r, s')"
  shows "\<exists>m \<le> 2. ws_lists lst s' = (ws_lists lst s)(k := ws_lists lst s k @ replicate m v) \<and> (r = Inr () \<longrightarrow> 1 \<le> m)"
proof -
  obtain r1 w1 where p: "RPushWithRetry rd 2 k v (sp_world (wsSend s)) = (r1, w1)" by force
  with assms(3) have "ws_lists lst s' = lst w1" "ws_lists lst s = lst (sp_world (wsSend s))" "r = r1"
    by (auto simp: queue_client [OF assms(1)] ws_redis_run ws_lists_def [abs_def])
  with rpush_retried [OF assms(2) _ p] show ?thesis by auto
qed

lemma ws_pop:
  assumes "getSendRoleClient cs RoleQueue = Some rd" "list_laws rd lst"
    and "ws_redis (SendQueueLPopWithRetry cs 2 k) s = Inr (r, s')"
  shows "\<exists>taken. ws_lists lst s k = taken @ ws_lists lst s' k \<and> (\<forall>j. j \<noteq> k \<longrightarrow> ws_lists lst s' j = ws_lists lst s j)
    \<and> (\<forall>v. r = Inr v \<longrightarrow> taken \<noteq> [])"
proof -
  obtain r1 w1 where p: "LPopWithRetry rd 2 k (sp_world (wsSend s)) = (r1, w1)" by force
  obtain lost where l: "\<forall>j. j \<noteq> k \<longrightarrow> lst w1 j = lst (sp_world (wsSend s)) j"
    "case r1 of Inr v \<Rightarrow> length lost < 2 \<and> lst (sp_world (wsSend s)) k = lost @ v # lst w1 k
       | Inl e \<Rightarrow> lst (sp_world (wsSend s)) k = lost @ lst w1 k \<and> (e = RedisNil \<longrightarrow> lst w1 k = [] \<and> length lost < 2)"
    using lpop_retried [OF assms(2) _ p] by auto
  from assms(3) p have r: "r = r1" "ws_lists lst s' = lst w1" "ws_lists lst s = lst (sp_world (wsSend s))"
    by (auto simp: queue_client [OF assms(1)] ws_redis_run ws_lists_def)
  show ?thesis
  proof (cases r1)
    case (Inl e)
    with l r show ?thesis by (intro exI[of _ lost]) simp
  next
    case (Inr v)
    with l r show ?thesis by (intro exI[of _ "lost @ [v]"]) simp
  qed
qed

text \<open>A decoded message can be printed again.\<close>

definition printable :: "client_message \<Rightarrow> bool" where
  "printable m \<longleftrightarrow> cPayload m \<noteq> GoUnsupported"

lemma client_setf_printable: "printable m \<Longrightarrow> printable (snd (client_setf f64 k v m))"
  by (auto simp: client_setf_def printable_def upd_def dec_iface_def split: option.split)

lemma decode_printable: "printable m \<Longrightarrow> printable (snd (decode_entries (client_setf f64) kvs m))"
proof (induction kvs arbitrary: m)
  case (Cons kv kvs)
  obtain k v where kv: "kv = (k, v)" by force
  from Cons.IH [OF client_setf_printable [OF Cons.prems]] show ?case
    by (simp add: kv Let_def split: prod.split) (metis snd_conv)
qed simp

lemma unmarshal_printable: "client_unmarshal f64 w = (None, m) \<Longrightarrow> printable m"
  using decode_printable [of zero_client f64]
  by (auto simp: client_unmarshal_def unmarshal_struct_def zero_client_def printable_def split: wire.splits json.splits)
     (metis snd_conv)

lemma batch_json_printable: "\<forall>m \<in> set ms. printable m \<Longrightarrow> \<exists>js. batch_json ms = Inr (JArr js)"
proof -
  have "\<forall>m \<in> set ms. printable m \<Longrightarrow> \<exists>js. clients_json ms = Inr js"
  proof (induction ms)
    case (Cons m ms)
    then have "\<exists>j. client_json m = Inr j"
      by (cases "cPayload m") (auto simp: client_json_def marshal_val_def printable_def)
    with Cons show ?case by auto
  qed simp
  moreover assume "\<forall>m \<in> set ms. printable m"
  ultimately show ?thesis by (auto simp: batch_json_def)
qed

lemma array_undecodable: "fst (client_unmarshal f64 (Doc (JArr js))) \<noteq> None"
  by (simp add: client_unmarshal_def unmarshal_struct_def)

section \<open>A user without a route\<close>

definition unroutable :: "'w ws_deps \<Rightarrow> int64 \<Rightarrow> bool" where
  "unroutable d u \<longleftrightarrow> (\<forall>w. \<exists>e. GetUserGateway (routing (wdSend d)) u w = Inr (Inl e, w))"

lemma push_unroutable:
  assumes "wdGateway d" "unroutable d u"
  shows "\<exists>e. PushSingleMsg d wait t0 t1 u m s = Inr (Some e, s)"
proof -
  obtain e where "GetUserGateway (routing (wdSend d)) u (sp_world (wsSend s)) = Inr (Inl e, sp_world (wsSend s))"
    using assms(2) by (auto simp: unroutable_def)
  then show ?thesis
    using assms(1) by (simp add: PushSingleMsg_def in_send_def PushSingleViaGateway_def then_do_def in_world_def)
qed

lemma lists_RemoveConnection [simp]: "ws_lists lst (snd (RemoveConnection_ws u s)) = ws_lists lst s"
  by (auto simp: ws_lists_def RemoveConnection_ws_def close_holder_def Let_def split: option.split)

lemma pop_offline_effect:
  assumes q: "getSendRoleClient (clients (wdSend d)) RoleQueue = Some rd" and laws: "list_laws rd lst"
    and gw: "wdGateway d" "unroutable d u"
  shows "pop_offline d wait t0 t1 u n 0 ms s = Inr (ms', s') \<Longrightarrow> \<forall>m \<in> set ms. printable m \<Longrightarrow>
    \<exists>taken. ws_lists lst s (offline_key u) = taken @ ws_lists lst s' (offline_key u)
      \<and> (\<forall>k. k \<noteq> offline_key u \<longrightarrow> ws_lists lst s' k = ws_lists lst s k)
      \<and> (\<forall>m \<in> set ms'. printable m) \<and> length ms' \<le> length ms + length taken"
proof (induction n arbitrary: ms s)
  case 0
  then show ?case by (intro exI[of _ "[]"]) simp
next
  case (Suc n)
  let ?pop = "ws_redis (SendQueueLPopWithRetry (clients (wdSend d)) 2 (offline_key u))"
  obtain r s1 where p: "?pop s = Inr (r, s1)" by (simp add: ws_redis_run)
  obtain taken where t: "ws_lists lst s (offline_key u) = taken @ ws_lists lst s1 (offline_key u)"
    "\<forall>j. j \<noteq> offline_key u \<longrightarrow> ws_lists lst s1 j = ws_lists lst s j" "\<forall>v. r = Inr v \<longrightarrow> taken \<noteq> []"
    using ws_pop [OF q laws p] by blast
  show ?case
  proof (cases r)
    case (Inl e)
    have "ws_lists lst s' = ws_lists lst s1 \<and> ms' = ms"
    proof (cases "e = RedisNil")
      case True
      with Suc.prems p Inl show ?thesis by (simp add: then_do_def)
    next
      case False
      obtain e2 where "PushSingleMsg d wait t0 t1 u info_message s1 = Inr (Some e2, s1)"
        using push_unroutable [OF gw] by blast
      with Suc.prems p Inl False show ?thesis by (auto simp: then_do_def split: if_splits)
    qed
    with t Suc.prems show ?thesis by (intro exI[of _ taken]) simp
  next
    case (Inr msg)
    obtain e m where dec: "client_unmarshal (wdFloat d) msg = (e, m)" by force
    let ?ms = "if e = None then ms @ [m] else ms"
    have run: "pop_offline d wait t0 t1 u n 0 ?ms s1 = Inr (ms', s')"
      using Suc.prems p Inr dec by (cases e) (simp_all add: then_do_def)
    have pr: "\<forall>m \<in> set ?ms. printable m" using Suc.prems(2) dec unmarshal_printable [of "wdFloat d" msg m] by auto
    obtain taken' where t': "ws_lists lst s1 (offline_key u) = taken' @ ws_lists lst s' (offline_key u)"
      "\<forall>k. k \<noteq> offline_key u \<longrightarrow> ws_lists lst s' k = ws_lists lst s1 k" "\<forall>m \<in> set ms'. printable m"
      "length ms' \<le> length ?ms + length taken'"
      using Suc.IH [OF run pr] by blast
    have "length ms' \<le> length ms + length (taken @ taken')"
      using t(3) Inr t'(4) by (cases taken) (simp_all split: if_splits)
    with t t'(1-3) show ?thesis by (intro exI[of _ "taken @ taken'"]) simp
  qed
qed


section \<open>Witnesses\<close>

definition demo_unroutable :: "mem ws_deps" where
  "demo_unroutable = \<lparr>wdSend = demo_deps\<lparr>routing := \<lparr>localCache = None, registryClient = None, floatRead = (\<lambda>n. n)\<rparr>\<rparr>,
     wdFloat = (\<lambda>n. n), wdGateway = True, wdBuffer = None\<rparr>"

definition demo_offline :: "mem ws_proc" where
  "demo_offline = ws_init (demo_proc\<lparr>sp_world := mem_empty\<lparr>m_lists := (\<lambda>k. if k = offline_key 7
     then [Doc (JObj [(''id'', JInt 1)])] else [])\<rparr>\<rparr>)"

lemma live_ws_redis [simp]: "live (ws_redis m)"
  by (simp add: live_def ws_redis_run)

lemma live_offline_push:
  assumes "wdGateway d" "unroutable d u"
  shows "live (PushOfflineMessages d wait t0 t1 u)"
proof -
  have single: "live (PushSingleMsg d wait t0 t1 u m)" for m
    using push_unroutable [OF assms] unfolding live_def by metis
  have popped: "live (push_popped d wait t0 t1 u ms)" for ms
    unfolding push_popped_def by (auto intro!: live_then simp: single split: option.split)
  have pop: "live (pop_offline d wait t0 t1 u n 0 ms)" for n ms
  proof (induction n arbitrary: ms)
    case (Suc n)
    have "live (then_do (ws_redis (SendQueueLPopWithRetry (clients (wdSend d)) 2 (offline_key u)))
      (\<lambda>r. case r of
               Inl e \<Rightarrow>
                 if e = RedisNil then returns ms
                 else then_do (PushSingleMsg d wait t0 t1 u info_message)
                   (\<lambda>err s. Inr (ms, if err \<noteq> None \<and> err \<noteq> Some ErrNoConn then snd (RemoveConnection_ws u s) else s))
             | Inr msg \<Rightarrow>
                 (case client_unmarshal (wdFloat d) msg of
                    (Some e, _) \<Rightarrow> pop_offline d wait t0 t1 u n 0 ms
                  | (None, m) \<Rightarrow> pop_offline d wait t0 t1 u n 0 (ms @ [m]))))"
      by (rule live_then) (auto intro!: live_then simp: single Suc split: sum.split prod.split option.split, auto simp: live_def)
    then show ?case by (auto simp: live_def then_do_def)
  qed simp
  show ?thesis
    unfolding PushOfflineMessages_def Let_def
    by (auto intro!: live_then simp: pop popped split: sum.split)
qed


end
