(* ===== verification/Standalone.thy ===== *)
theory Standalone
  imports Offline
begin

text \<open>
  \<open>internal/send/ws/ws.go\<close>, the handler of a user connected to the send service, and what the standalone
  dispatcher promises: no target of a message is forgotten.
\<close>

section \<open>The handler\<close>

definition ws_welcome :: client_message where
  "ws_welcome = \<lparr>cID = -1, cType = ''system'', cRoomID = -1, cSenderID = -1,
     cPayload = GoVal (JStr ''Connected to WebSocket server'')\<rparr>"

datatype ws_start_send = WsUpgradeFailed | WsUnauthorized | WsServing int64

text \<open>The handler up to its loops; unlike the gateway's it has no admission guard and pushes the offline messages.\<close>

definition WebSocketHandler_ws :: "'w ws_deps \<Rightarrow> nat option \<Rightarrow> int64 option \<Rightarrow> 'w ws_wait \<Rightarrow> int64 \<Rightarrow> int64 \<Rightarrow>
    ('w ws_proc, ws_start_send) proc" where
  "WebSocketHandler_ws d upgraded user wait t0 t1 s =
     (case upgraded of
        None \<Rightarrow> Inr (WsUpgradeFailed, s)
      | Some conn \<Rightarrow>
          (case user of
             None \<Rightarrow> Inr (WsUnauthorized, s\<lparr>wsClosed := wsClosed s @ [conn]\<rparr>)
           | Some u \<Rightarrow>
               then_do (PushViaWS_ws u ws_welcome wait t0 t1)
                 (\<lambda>_. then_do (PushOfflineMessages d wait t0 t1 u) (\<lambda>_. returns (WsServing u)))
                 (RegisterConnection_ws d u conn s)))"

text \<open>What \<open>ReadMessage\<close> returns, as the read loop classifies it, and whether the loop goes on.\<close>

datatype ws_read = WsGotMessage | WsPeerClosed | WsReadTimeout | WsTemporary | WsClosedOrEOF | WsOtherError

fun ws_keeps_reading :: "ws_read \<Rightarrow> bool" where
  "ws_keeps_reading WsGotMessage = True"
| "ws_keeps_reading WsTemporary = True"
| "ws_keeps_reading _ = False"

fun ws_read_loop :: "int64 \<Rightarrow> ws_read list \<Rightarrow> 'w ws_proc \<Rightarrow> 'w ws_proc option" where
  "ws_read_loop u [] s = None"
| "ws_read_loop u (r # rs) s = (if ws_keeps_reading r then ws_read_loop u rs s else Some (snd (RemoveConnection_ws u s)))"

text \<open>A tick of the heartbeat; the result is whether its goroutine goes on.\<close>

definition ws_heartbeat_tick :: "int64 \<Rightarrow> 'w ws_wait \<Rightarrow> 'w ws_wait \<Rightarrow> ('w ws_proc, bool) proc" where
  "ws_heartbeat_tick u wait1 wait2 s =
     (case GetConnectionHolder_ws u s of
        None \<Rightarrow> Inr (False, s)
      | Some a \<Rightarrow>
          then_do (WriteJSONSafe_ws (Some a) WsPing wait1)
            (\<lambda>err. if err = None then returns True
               else if err = Some ErrNoConn then returns False
               else then_do (WriteJSONSafe_ws (Some a) WsPing wait2)
                 (\<lambda>err2 s. if err2 = None then Inr (True, s) else Inr (False, snd (RemoveConnection_ws u s)))) s)"

section \<open>Where a target's message is\<close>

definition in_chan :: "(int64 \<rightharpoonup> wire list) \<Rightarrow> int64 \<Rightarrow> wire \<Rightarrow> bool" where
  "in_chan c u x \<longleftrightarrow> (\<exists>b. c u = Some b \<and> x \<in> set b)"

fun held :: "('w \<Rightarrow> string \<Rightarrow> wire list) \<Rightarrow> client_message \<Rightarrow> wire \<Rightarrow> int64 \<Rightarrow> ws_fate \<Rightarrow> 'w ws_proc \<Rightarrow> bool" where
  "held lst m x u WsQueued s \<longleftrightarrow> (\<exists>a. wsStore s u = Some a \<and> \<lparr>wrMsg = WsClient m, wrResp = False\<rparr> \<in> set (whSend (wsHolders s ! a)))"
| "held lst m x u WsOffline s \<longleftrightarrow> x \<in> set (ws_lists lst s (offline_key u)) \<or> in_chan (offlineMsg (wsSend s)) u x"
| "held lst m x u WsWaiting s \<longleftrightarrow> u \<in> set (wsWaitSet s) \<and> (x \<in> set (ws_lists lst s (ws_wait_key u)) \<or> in_chan (wsWaitMsg s) u x)"

text \<open>Later states of a dispatch hold at least what the earlier ones do.\<close>

definition ws_grows :: "('w \<Rightarrow> string \<Rightarrow> wire list) \<Rightarrow> 'w ws_proc \<Rightarrow> 'w ws_proc \<Rightarrow> bool" where
  "ws_grows lst s t \<longleftrightarrow> wsStore t = wsStore s \<and> length (wsHolders t) = length (wsHolders s)
     \<and> (\<forall>u a. wsStore s u = Some a \<longrightarrow> set (whSend (wsHolders s ! a)) \<subseteq> set (whSend (wsHolders t ! a)))
     \<and> (\<forall>k. set (ws_lists lst s k) \<subseteq> set (ws_lists lst t k)) \<and> set (wsWaitSet s) \<subseteq> set (wsWaitSet t)
     \<and> (\<forall>u x. in_chan (offlineMsg (wsSend s)) u x \<longrightarrow> in_chan (offlineMsg (wsSend t)) u x)
     \<and> (\<forall>u x. in_chan (wsWaitMsg s) u x \<longrightarrow> in_chan (wsWaitMsg t) u x)"

lemma ws_grows_refl [simp]: "ws_grows lst s s"
  by (simp add: ws_grows_def)

lemma ws_grows_trans: "ws_grows lst r s \<Longrightarrow> ws_grows lst s t \<Longrightarrow> ws_grows lst r t"
  unfolding ws_grows_def by (auto; blast)

lemma held_grows: "ws_grows lst s t \<Longrightarrow> held lst m x u f s \<Longrightarrow> held lst m x u f t"
  by (cases f) (auto simp: ws_grows_def)

lemma in_chan_append: "in_chan (c(u \<mapsto> (case c u of None \<Rightarrow> [] | Some b \<Rightarrow> b) @ [y])) v x \<longleftrightarrow> (v = u \<and> x = y) \<or> in_chan c v x"
  by (auto simp: in_chan_def split: option.splits)

lemma ws_push_grows:
  assumes "getSendRoleClient cs RoleQueue = Some rd" "list_laws rd lst"
    and run: "ws_redis (SendQueueRPushWithRetry cs 2 k v) s = Inr (r, s')"
  shows "ws_grows lst s s' \<and> (r = Inr () \<longrightarrow> v \<in> set (ws_lists lst s' k))"
proof -
  obtain m where m: "ws_lists lst s' = (ws_lists lst s)(k := ws_lists lst s k @ replicate m v)" "r = Inr () \<longrightarrow> 1 \<le> m"
    using ws_push [OF assms] by blast
  from run have "\<exists>w. s' = s\<lparr>wsSend := (wsSend s)\<lparr>sp_world := w\<rparr>\<rparr>" by (auto simp: ws_redis_run)
  with m show ?thesis by (auto simp: ws_grows_def)
qed

lemma InsertOffline_held:
  assumes q: "getSendRoleClient (clients (wdSend d)) RoleQueue = Some rd" and laws: "list_laws rd lst"
    and run: "in_send (InsertOfflineQueue (wdSend d) u x) s = Inr (v, s')"
  shows "ws_grows lst s s' \<and> held lst m x u WsOffline s'"
proof -
  let ?push = "ws_redis (SendQueueRPushWithRetry (clients (wdSend d)) 2 (offline_key u) x)"
  obtain r s1 where p: "?push s = Inr (r, s1)" by (simp add: ws_redis_run)
  note G = ws_push_grows [OF q laws p]
  show ?thesis
  proof (cases r)
    case (Inr y)
    with run p have "s' = s1" by (auto simp: in_send_def InsertOfflineQueue_def then_do_def ws_redis_def split: sum.splits prod.splits)
    with G Inr show ?thesis by simp
  next
    case (Inl e)
    with run p have "in_send (InsertOfflineMsg u x) s1 = Inr (v, s')"
      by (auto simp: in_send_def InsertOfflineQueue_def then_do_def ws_redis_def split: sum.splits prod.splits)
    then have "s' = s1\<lparr>wsSend := (wsSend s1)\<lparr>offlineMsg := (offlineMsg (wsSend s1))
        (u \<mapsto> (case offlineMsg (wsSend s1) u of None \<Rightarrow> [] | Some b \<Rightarrow> b) @ [x])\<rparr>\<rparr>"
      by (auto simp: in_send_def InsertOfflineMsg_def Let_def split: if_splits)
    then have "ws_grows lst s1 s'" "held lst m x u WsOffline s'"
      by (auto simp: ws_grows_def ws_lists_def in_chan_append)
    with G ws_grows_trans show ?thesis by blast
  qed
qed

lemma InsertWait_held:
  assumes q: "getSendRoleClient (clients (wdSend d)) RoleQueue = Some rd" and laws: "list_laws rd lst"
    and run: "InsertWaitQueue_ws d u x s = Inr (v, s')"
  shows "ws_grows lst s s' \<and> held lst m x u WsWaiting s'"
proof -
  let ?push = "ws_redis (SendQueueRPushWithRetry (clients (wdSend d)) 2 (ws_wait_key u) x)"
  let ?s0 = "InsertWaitSet_ws u s"
  have g0: "ws_grows lst s ?s0" "u \<in> set (wsWaitSet ?s0)" by (auto simp: InsertWaitSet_ws_def ws_grows_def ws_lists_def)
  obtain r s1 where p: "?push ?s0 = Inr (r, s1)" by (simp add: ws_redis_run)
  note G = ws_push_grows [OF q laws p]
  have w: "u \<in> set (wsWaitSet s1)" using G g0(2) by (auto simp: ws_grows_def)
  show ?thesis
  proof (cases r)
    case (Inr y)
    with run p have "s' = s1" by (simp add: InsertWaitQueue_ws_def then_do_def)
    with G g0 w Inr ws_grows_trans show ?thesis by auto
  next
    case (Inl e)
    with run p have "InsertWaitMsg_ws u x s1 = Inr (v, s')" by (simp add: InsertWaitQueue_ws_def then_do_def)
    then have "s' = s1\<lparr>wsWaitMsg := (wsWaitMsg s1)(u \<mapsto> (case wsWaitMsg s1 u of None \<Rightarrow> [] | Some b \<Rightarrow> b) @ [x])\<rparr>"
      by (auto simp: InsertWaitMsg_ws_def Let_def split: if_splits)
    then have "ws_grows lst s1 s'" "held lst m x u WsWaiting s'"
      using w by (auto simp: ws_grows_def ws_lists_def in_chan_append)
    with G g0 ws_grows_trans show ?thesis by blast
  qed
qed

definition ws_alloc :: "'w ws_proc \<Rightarrow> bool" where
  "ws_alloc s \<longleftrightarrow> (\<forall>u a. wsStore s u = Some a \<longrightarrow> a < length (wsHolders s))"

lemma ws_alloc_grows: "ws_grows lst s t \<Longrightarrow> ws_alloc s \<Longrightarrow> ws_alloc t"
  by (simp add: ws_grows_def ws_alloc_def)

lemma Enqueue_held:
  assumes al: "ws_alloc s" and run: "EnqueueMessage_ws u (WsClient m) s = Inr (e, s')"
  shows "ws_grows lst s s' \<and> (e = Some ErrNoConn \<longleftrightarrow> wsStore s u = None) \<and> (e = None \<longrightarrow> held lst m x u WsQueued s')"
proof (cases "wsStore s u")
  case None
  with run show ?thesis by (simp add: EnqueueMessage_ws_def) auto
next
  case (Some a)
  then have lt: "a < length (wsHolders s)" using al by (simp add: ws_alloc_def)
  let ?h = "wsHolders s ! a" and ?r = "\<lparr>wrMsg = WsClient m, wrResp = False\<rparr>"
  show ?thesis
  proof (cases "e = None")
    case True
    with run Some have s': "s' = s\<lparr>wsHolders := (wsHolders s)[a := ?h\<lparr>whSend := whSend ?h @ [?r]\<rparr>]\<rparr>"
      by (auto simp: EnqueueMessage_ws_def ws_send_to_def Let_def split: if_splits)
    have "set (whSend (wsHolders s ! b)) \<subseteq> set (whSend (wsHolders s' ! b))" for b
      using lt by (cases "b = a") (auto simp: s')
    with Some True lt show ?thesis by (auto simp: ws_grows_def s' ws_lists_def)
  next
    case False
    with run Some have "s' = s" "e = Some ws_timeout"
      by (auto simp: EnqueueMessage_ws_def ws_send_to_def Let_def split: if_splits)
    with Some show ?thesis by (simp add: ws_timeout_def)
  qed
qed

lemma standalone_target_held:
  assumes q: "getSendRoleClient (clients (wdSend d)) RoleQueue = Some rd" and laws: "list_laws rd lst"
    and al: "ws_alloc s" and run: "standalone_target d m x u s = Inr (f, s')"
  shows "ws_grows lst s s' \<and> held lst m x u f s' \<and> (f = WsOffline \<longleftrightarrow> wsStore s u = None)"
proof -
  obtain e s1 where e: "EnqueueMessage_ws u (WsClient m) s = Inr (e, s1)"
    and k: "(case e of
           None \<Rightarrow> returns WsQueued
         | Some err \<Rightarrow>
             if err = ErrNoConn then
               then_do (in_send (InsertOfflineQueue (wdSend d) u x)) (\<lambda>_. returns WsOffline)
             else then_do (InsertWaitQueue_ws d u x) (\<lambda>_. returns WsWaiting)) s1 = Inr (f, s')"
    using run unfolding standalone_target_def by (rule then_doE)
  note E = Enqueue_held [OF al e, of lst x]
  consider "e = None" | "e = Some ErrNoConn" | err where "e = Some err" "err \<noteq> ErrNoConn" by (cases e) auto
  then show ?thesis
  proof cases
    case 1
    with k E show ?thesis by simp
  next
    case 2
    with k obtain v where "in_send (InsertOfflineQueue (wdSend d) u x) s1 = Inr (v, s')" "f = WsOffline"
      by (auto elim!: then_doE)
    with InsertOffline_held [OF q laws this(1), of m] E 2 ws_grows_trans show ?thesis by blast
  next
    case 3
    with k obtain v where "InsertWaitQueue_ws d u x s1 = Inr (v, s')" "f = WsWaiting" by (auto elim!: then_doE)
    with InsertWait_held [OF q laws this(1), of m] E 3 ws_grows_trans show ?thesis by blast
  qed
qed

lemma standalone_targets_held:
  assumes q: "getSendRoleClient (clients (wdSend d)) RoleQueue = Some rd" and laws: "list_laws rd lst"
  shows "ws_alloc s \<Longrightarrow> standalone_targets d m x us s = Inr (fs, s') \<Longrightarrow> ws_grows lst s s' \<and> length fs = length us
    \<and> (\<forall>i < length us. held lst m x (us ! i) (fs ! i) s' \<and> (fs ! i = WsOffline \<longleftrightarrow> wsStore s (us ! i) = None))"
proof (induction us arbitrary: s fs)
  case Nil
  then show ?case by simp
next
  case (Cons u us)
  obtain f s1 gs where f: "standalone_target d m x u s = Inr (f, s1)"
    and g: "standalone_targets d m x us s1 = Inr (gs, s')" and fs: "fs = f # gs"
    using Cons.prems(2) by (auto elim!: then_doE)
  note F = standalone_target_held [OF q laws Cons.prems(1) f]
  note R = Cons.IH [OF ws_alloc_grows [OF F [THEN conjunct1] Cons.prems(1)] g]
  have store: "wsStore s1 = wsStore s" using F by (simp add: ws_grows_def)
  have "held lst m x ((u # us) ! i) (fs ! i) s' \<and> (fs ! i = WsOffline \<longleftrightarrow> wsStore s ((u # us) ! i) = None)"
    if "i < length (u # us)" for i
    using that F R store held_grows [of lst s1 s' m x u f] by (cases i) (simp_all add: fs)
  with F R ws_grows_trans fs show ?case by auto
qed

section \<open>Property\<close>

text \<open>
  C14: when the standalone dispatcher returns, every target's message is somewhere: in the channel of the
  user's connection, in the user's offline list (exactly the users without a connection), or in the user's
  wait list with the user in the wait set; when Redis refuses, in the process's own channel instead.
\<close>

theorem standalone_keeps_targets:
  assumes q: "getSendRoleClient (clients (wdSend d)) RoleQueue = Some rd" and laws: "list_laws rd lst"
    and inv: "ws_inv s" and run: "Dispatch_StandAlone d msg s = Inr ((None, fs), s')"
  shows "\<exists>j. client_json (client_of_push msg) = Inr j \<and> length fs = length (pTargetIDs msg)
    \<and> (\<forall>i < length fs. held lst (client_of_push msg) (Doc j) (pTargetIDs msg ! i) (fs ! i) s'
         \<and> (fs ! i = WsOffline \<longleftrightarrow> wsStore s (pTargetIDs msg ! i) = None))"
proof -
  obtain j where j: "client_json (client_of_push msg) = Inr j"
    and r: "standalone_targets d (client_of_push msg) (Doc j) (pTargetIDs msg) s = Inr (fs, s')"
    using run by (auto simp: Dispatch_StandAlone_def Let_def split: sum.splits elim!: then_doE)
  have "ws_alloc s" using inv by (auto simp: ws_alloc_def ws_inv_def)
  from standalone_targets_held [OF q laws this r] j show ?thesis by simp
qed

text \<open>User 8 has no connection, user 7 has one.\<close>

theorem standalone_keeps_targets_witness:
  "\<exists>fs s' j. Dispatch_StandAlone demo_wdeps demo_chat demo_ws = Inr ((None, fs), s')
     \<and> client_json (client_of_push demo_chat) = Inr j \<and> fs = [WsQueued, WsOffline]
     \<and> (Doc j \<in> set (m_lists (sp_world (wsSend s')) (offline_key 8)) \<or> in_chan (offlineMsg (wsSend s')) 8 (Doc j))"
proof -
  have q: "getSendRoleClient (clients (wdSend demo_wdeps)) RoleQueue = Some mem_redis"
    by (simp add: demo_wdeps_def demo_deps_def getSendRoleClient_def)
  have inv: "ws_inv demo_ws" by (auto simp: demo_ws_def ws_init_def ws_inv_def split: if_splits)
  have push: "SendQueueRPushWithRetry (clients demo_deps) 2 k v mem_empty = (Inr (), mem_empty\<lparr>m_lists := (m_lists mem_empty)(k := [v])\<rparr>)" for k v
    by (simp add: SendQueueRPushWithRetry_def sendRPushWithRetry_def getSendRoleClient_def demo_deps_def mem_ops
        mem_write_def mem_empty_def numeral_2_eq_2)
  obtain s' where run: "Dispatch_StandAlone demo_wdeps demo_chat demo_ws = Inr ((None, [WsQueued, WsOffline]), s')"
    by (simp add: Let_def Dispatch_StandAlone_def demo_chat_def client_of_push_def client_json_def marshal_val_def standalone_target_def
        then_do_def EnqueueMessage_ws_def demo_ws_def ws_init_def ws_send_to_def in_send_def InsertOfflineQueue_def
        demo_wdeps_def redis_call_def in_world_def demo_proc_def StartGatewayDispatcher_def push)
  from standalone_keeps_targets [OF q mem_list_laws inv run] obtain j where
    j: "client_json (client_of_push demo_chat) = Inr j"
    and h: "\<forall>i < 2. held m_lists (client_of_push demo_chat) (Doc j) (pTargetIDs demo_chat ! i) ([WsQueued, WsOffline] ! i) s'"
    by auto
  from h [rule_format, of 1] have "held m_lists (client_of_push demo_chat) (Doc j) 8 WsOffline s'" by (simp add: demo_chat_def)
  with run j show ?thesis by (auto simp: ws_lists_def)
qed

end
