(* ===== verification/Outcomes.thy ===== *)
theory Outcomes
  imports Store
begin

text \<open>
  A small logic for effectful code over a view of the world: \<open>post vw s m Q\<close> says that \<open>m\<close>, run
  in any world whose view is \<open>s\<close>, ends with a result and a view related by \<open>Q\<close>. The rules follow the
  code: a call of a service forks into its success and its failure, a failed write into
  \<open>applied\<close> and \<open>not applied\<close>.
\<close>

definition post :: "('w \<Rightarrow> 's) \<Rightarrow> 's \<Rightarrow> ('w, 'a) io \<Rightarrow> ('a \<Rightarrow> 's \<Rightarrow> bool) \<Rightarrow> bool" where
  "post vw s m Q \<longleftrightarrow> (\<forall>w r w'. vw w = s \<longrightarrow> m w = (r, w') \<longrightarrow> Q r (vw w'))"

text \<open>Going on whatever the result: a call whose error is dropped, the next round of a loop.\<close>

definition then_io :: "('w, 'a) io \<Rightarrow> ('a \<Rightarrow> ('w, 'b) io) \<Rightarrow> ('w, 'b) io" where
  "then_io m k w = (case m w of (v, w') \<Rightarrow> k v w')"

definition ignoring :: "('w, goerr + 'a) io \<Rightarrow> ('w, 'b) io \<Rightarrow> ('w, 'b) io" where
  "ignoring m k = on_call m (\<lambda>e. k) (\<lambda>v. k)"

text \<open>\<open>for _, x := range xs { body(x) }\<close> and the same loop with an early return on an error.\<close>

fun for_each :: "('a \<Rightarrow> ('w, unit) io) \<Rightarrow> 'a list \<Rightarrow> ('w, unit) io" where
  "for_each body [] = return ()"
| "for_each body (x # xs) = then_io (body x) (\<lambda>_. for_each body xs)"

fun for_each_err :: "('a \<Rightarrow> ('w, goerr option) io) \<Rightarrow> 'a list \<Rightarrow> ('w, goerr option) io" where
  "for_each_err body [] = return None"
| "for_each_err body (x # xs) =
     then_io (body x) (\<lambda>e. case e of Some err \<Rightarrow> return (Some err) | None \<Rightarrow> for_each_err body xs)"

named_theorems steps \<open>effects of service calls, for the rules of post\<close>

lemma postD: "post vw s m Q \<Longrightarrow> vw w = s \<Longrightarrow> m w = (r, w') \<Longrightarrow> Q r (vw w')"
  unfolding post_def by blast

lemma postI: "(\<And>w r w'. vw w = s \<Longrightarrow> m w = (r, w') \<Longrightarrow> Q r (vw w')) \<Longrightarrow> post vw s m Q"
  unfolding post_def by blast

lemma post_return [intro]: "Q v s \<Longrightarrow> post vw s (return v) Q"
  by (simp add: post_def)

lemma post_Pair [intro]: "Q v s \<Longrightarrow> post vw s (Pair v) Q"
  by (simp add: post_def)

lemma post_mono: "post vw s m Q \<Longrightarrow> (\<And>r t. Q r t \<Longrightarrow> R r t) \<Longrightarrow> post vw s m R"
  unfolding post_def by blast

lemma post_conj: "post vw s m Q \<Longrightarrow> post vw s m R \<Longrightarrow> post vw s m (\<lambda>r t. Q r t \<and> R r t)"
  unfolding post_def by blast

lemma post_then:
  assumes "post vw s m R" "\<And>v t. R v t \<Longrightarrow> post vw t (k v) Q"
  shows "post vw s (then_io m k) Q"
proof (rule postI)
  fix w r w' assume w: "vw w = s" "then_io m k w = (r, w')"
  obtain v w1 where m: "m w = (v, w1)" by (cases "m w")
  with w assms(1) have "R v (vw w1)" by (blast dest: postD)
  from postD [OF assms(2) [OF this] refl] m w(2) show "Q r (vw w')" by (simp add: then_io_def)
qed

lemma post_call:
  assumes "post vw s m R" "\<And>v t. R (Inr v) t \<Longrightarrow> post vw t (k v) Q" "\<And>e t. R (Inl e) t \<Longrightarrow> post vw t (h e) Q"
  shows "post vw s (on_call m h k) Q"
proof (rule postI)
  fix w r w' assume w: "vw w = s" "on_call m h k w = (r, w')"
  from w(2) show "Q r (vw w')"
  proof (cases rule: on_callE)
    case (err e w1)
    with w assms(1) have "R (Inl e) (vw w1)" by (blast dest: postD)
    from postD [OF assms(3) [OF this] refl err(2)] show ?thesis .
  next
    case (ok v w1)
    with w assms(1) have "R (Inr v) (vw w1)" by (blast dest: postD)
    from postD [OF assms(2) [OF this] refl ok(2)] show ?thesis .
  qed
qed

text \<open>The outcomes of a service call, from what the service promises.\<close>

lemma post_mutates:
  "mutates vw m f \<Longrightarrow> post vw s m (\<lambda>r t. t = f s \<or> (t = s \<and> (\<exists>e. r = Inl e)))"
proof (rule postI)
  fix w r w' assume "mutates vw m f" "vw w = s" "m w = (r, w')"
  then show "vw w' = f s \<or> vw w' = s \<and> (\<exists>e. r = Inl e)"
    by (cases r) (auto dest: mutatesD)
qed

lemma post_reads: "reads vw m P \<Longrightarrow> post vw s m (\<lambda>r t. t = s \<and> P s r)"
  by (rule postI) (auto simp: reads_def)

lemma call_mutates:
  assumes "mutates vw m f" "\<And>v. post vw (f s) (k v) Q" "\<And>e. post vw s (h e) Q" "\<And>e. post vw (f s) (h e) Q"
  shows "post vw s (on_call m h k) Q"
  by (rule post_call [OF post_mutates [OF assms(1)]]) (auto intro: assms(2-))

lemma call_reads:
  assumes "reads vw m P" "\<And>v. P s (Inr v) \<Longrightarrow> post vw s (k v) Q" "\<And>e. P s (Inl e) \<Longrightarrow> post vw s (h e) Q"
  shows "post vw s (on_call m h k) Q"
  by (rule post_call [OF post_reads [OF assms(1)]]) (auto intro: assms(2-))

lemma ignoring_reads:
  assumes "reads vw m P" "post vw s k Q"
  shows "post vw s (ignoring m k) Q"
  unfolding ignoring_def by (rule call_reads [OF assms(1)]) (rule assms(2))+

text \<open>Loops: an invariant over the views.\<close>

lemma post_for_each:
  assumes "\<And>x s. x \<in> set xs \<Longrightarrow> I s \<Longrightarrow> post vw s (body x) (\<lambda>_. I)" "I s"
  shows "post vw s (for_each body xs) (\<lambda>_. I)"
  using assms
proof (induction xs arbitrary: s)
  case Nil
  then show ?case by auto
next
  case (Cons x xs)
  show ?case unfolding for_each.simps
    by (rule post_then [OF Cons.prems(1)]) (use Cons in auto)
qed

lemma post_for_each_err:
  assumes "\<And>x s. x \<in> set xs \<Longrightarrow> I s \<Longrightarrow> post vw s (body x) (\<lambda>_. I)" "I s"
  shows "post vw s (for_each_err body xs) (\<lambda>_. I)"
  using assms
proof (induction xs arbitrary: s)
  case Nil
  then show ?case by auto
next
  case (Cons x xs)
  show ?case unfolding for_each_err.simps
    by (rule post_then [OF Cons.prems(1)]) (use Cons in \<open>auto split: option.split\<close>)
qed

text \<open>A read-only piece of code.\<close>

lemma reads_post: "reads vw m P \<longleftrightarrow> (\<forall>s. post vw s m (\<lambda>r t. t = s \<and> P s r))"
  unfolding reads_def post_def by auto

lemma reads_call:
  assumes "reads vw m P" "\<And>v. reads vw (k v) (\<lambda>s r. P s (Inr v) \<longrightarrow> Q s r)" "\<And>e. reads vw (h e) (\<lambda>s r. P s (Inl e) \<longrightarrow> Q s r)"
  shows "reads vw (on_call m h k) Q"
  unfolding reads_post
proof
  fix s
  show "post vw s (on_call m h k) (\<lambda>r t. t = s \<and> Q s r)"
  proof (rule call_reads [OF assms(1)])
    show "post vw s (k v) (\<lambda>r t. t = s \<and> Q s r)" if "P s (Inr v)" for v
      using assms(2) [of v] that by (auto simp: reads_post elim!: allE [of _ s] post_mono)
    show "post vw s (h e) (\<lambda>r t. t = s \<and> Q s r)" if "P s (Inl e)" for e
      using assms(3) [of e] that by (auto simp: reads_post elim!: allE [of _ s] post_mono)
  qed
qed

lemma reads_return [intro]: "(\<And>s. Q s v) \<Longrightarrow> reads vw (return v) Q"
  by (simp add: reads_def)

lemma reads_ignoring: "reads vw m P \<Longrightarrow> reads vw k Q \<Longrightarrow> reads vw (ignoring m k) Q"
  unfolding ignoring_def by (rule reads_call) (auto elim: reads_mono)

end
