(* ===== verification/Mysql.thy ===== *)
theory Mysql
  imports Outcomes
begin

text \<open>
  The database as the program uses it. The driver and the server are third-party code: each statement
  that \<open>internal/meta\<close> and \<open>internal/send\<close> issue through \<open>mysql.DB\<close> is a constructor of \<open>sql\<close>
  (statements that write) or a field of the record \<open>mysql\<close> (queries, with the type of the scanned row),
  and the definitions take such a record as an argument. A query for one row that finds none fails.

  \<open>mysql_laws\<close> states what the statements of the program do to the tables that its own \<open>CREATE TABLE\<close>
  texts and \<open>model/*.sql\<close> declare, again with the ambiguity of a failed write; a transaction works on a
  copy that \<open>COMMIT\<close> installs.
\<close>

section \<open>Rows and statements\<close>

type_synonym int16 = "16 word"

record room_info =
  rmID :: int64
  rmName :: string
  rmCreator :: int64
  rmCreatedAt :: string

record join_request =
  jrID :: int64
  jrRoom :: int64
  jrUser :: int64
  jrMessage :: string
  jrCreatedAt :: string

record cached_message =
  cmID :: int64
  cmRoom :: int64
  cmSender :: int64
  cmType :: string
  cmContent :: wire
  cmCreatedAt :: string

datatype sql =
    InsertRoomSql string bool int64 string
  | CreateMembersSql int64
  | DeleteMembersSql int64
  | InsertMembersSql int64 "int64 list"
  | UpdateNicknameSql int64 int64 string
  | UpdateRoleSql int64 int64 int16
  | UpdateMuteSql int64 int64 string
  | UpdateJoinedSql int64 string
  | CreateRequestsSql
  | InsertRequestSql int64 int64 string string
  | DeleteRequestSql int64
  | InsertUserSql string string string
  | InsertMessagesSql "cached_message list"

record 'w mysql =
  dbExec :: "sql \<Rightarrow> ('w, goerr + int64) io"
  dbBegin :: "('w, goerr + unit) io"
  dbTxExec :: "sql \<Rightarrow> ('w, goerr + int64) io"
  dbCommit :: "('w, goerr + unit) io"
  dbRollback :: "('w, goerr + unit) io"
  dbRole :: "int64 \<Rightarrow> int64 \<Rightarrow> ('w, goerr + int16) io"
  dbIsGroup :: "int64 \<Rightarrow> ('w, goerr + bool) io"
  dbCount :: "int64 \<Rightarrow> int64 \<Rightarrow> ('w, goerr + nat) io"
  dbMemberIDs :: "int64 \<Rightarrow> ('w, goerr + int64 list) io"
  dbJoined :: "int64 \<Rightarrow> ('w, goerr + string option) io"
  dbSearch :: "string \<Rightarrow> int \<Rightarrow> ('w, goerr + room_info list) io"
  dbRoom :: "int64 \<Rightarrow> ('w, goerr + room_info) io"
  dbRequests :: "int64 \<Rightarrow> ('w, goerr + join_request list) io"
  dbRequest :: "int64 \<Rightarrow> ('w, goerr + join_request) io"
  dbUser :: "string \<Rightarrow> ('w, goerr + int64 \<times> string) io"
  dbMessage :: "int64 \<Rightarrow> ('w, goerr + cached_message) io"

definition no_rows :: goerr where
  "no_rows = ErrText ''sql: no rows in result set''"

section \<open>Tables\<close>

text \<open>
  A row of \<open>chat_room_members_room_<id>\<close>; \<open>id\<close> and \<open>joined_at\<close> are never read. The defaults are
  those of \<open>CreateRoomMemberTable\<close>. \<open>dNameKey\<close> is the collation of \<open>users.username\<close>: names with the same
  key are the same name to the server, as \<open>Bob\<close> and \<open>bob\<close> are under utf8mb4's default collation.
\<close>

record member_row =
  mbUser :: int64
  mbNick :: "string option"
  mbRole :: int16
  mbMute :: string

record user_row =
  usID :: int64
  usName :: string
  usHash :: string
  usNick :: string
  usJoined :: "string option"

record db =
  dRooms :: "(room_info \<times> bool) list"
  dMembers :: "int64 \<Rightarrow> member_row list option"
  dUsers :: "user_row list"
  dRequests :: "join_request list"
  dMessages :: "cached_message list"
  dNameKey :: "string \<Rightarrow> string"

definition default_member :: "int64 \<Rightarrow> member_row" where
  "default_member u = \<lparr>mbUser = u, mbNick = None, mbRole = 0, mbMute = ''1970-01-01 08:00:00''\<rparr>"

definition update_members :: "int64 \<Rightarrow> (member_row list \<Rightarrow> member_row list) \<Rightarrow> db \<Rightarrow> db" where
  "update_members r f d = d\<lparr>dMembers := (dMembers d)(r := map_option f (dMembers d r))\<rparr>"

definition update_where :: "('a \<Rightarrow> bool) \<Rightarrow> ('a \<Rightarrow> 'a) \<Rightarrow> 'a list \<Rightarrow> 'a list" where
  "update_where p f = map (\<lambda>x. if p x then f x else x)"

text \<open>What a statement does; \<open>i\<close> is the number the server gives to an inserted row.\<close>

fun apply_sql :: "int64 \<Rightarrow> sql \<Rightarrow> db \<Rightarrow> db" where
  "apply_sql i (InsertRoomSql n g c t) d =
     d\<lparr>dRooms := dRooms d @ [(\<lparr>rmID = i, rmName = n, rmCreator = c, rmCreatedAt = t\<rparr>, g)]\<rparr>"
| "apply_sql i (CreateMembersSql r) d =
     d\<lparr>dMembers := (dMembers d)(r := (case dMembers d r of None \<Rightarrow> Some [] | Some m \<Rightarrow> Some m))\<rparr>"
| "apply_sql i (DeleteMembersSql r) d = update_members r (\<lambda>_. []) d"
| "apply_sql i (InsertMembersSql r us) d = update_members r (\<lambda>m. m @ map default_member us) d"
| "apply_sql i (UpdateNicknameSql r u n) d =
     update_members r (update_where (\<lambda>x. mbUser x = u) (mbNick_update (\<lambda>_. Some n))) d"
| "apply_sql i (UpdateRoleSql r u l) d =
     update_members r (update_where (\<lambda>x. mbUser x = u) (mbRole_update (\<lambda>_. l))) d"
| "apply_sql i (UpdateMuteSql r u t) d =
     update_members r (update_where (\<lambda>x. mbUser x = u) (mbMute_update (\<lambda>_. t))) d"
| "apply_sql i (UpdateJoinedSql u c) d =
     d\<lparr>dUsers := update_where (\<lambda>x. usID x = u) (usJoined_update (\<lambda>_. Some c)) (dUsers d)\<rparr>"
| "apply_sql i CreateRequestsSql d = d"
| "apply_sql i (InsertRequestSql r u m t) d =
     d\<lparr>dRequests := dRequests d @ [\<lparr>jrID = i, jrRoom = r, jrUser = u, jrMessage = m, jrCreatedAt = t\<rparr>]\<rparr>"
| "apply_sql i (DeleteRequestSql q) d = d\<lparr>dRequests := filter (\<lambda>x. jrID x \<noteq> q) (dRequests d)\<rparr>"
| "apply_sql i (InsertUserSql n h k) d =
     d\<lparr>dUsers := dUsers d @ [\<lparr>usID = i, usName = n, usHash = h, usNick = k, usJoined = None\<rparr>]\<rparr>"
| "apply_sql i (InsertMessagesSql ms) d = d\<lparr>dMessages := dMessages d @ ms\<rparr>"

text \<open>
  A statement succeeds only if the server can run it: its table exists, and the unique columns (the
  user's name, the message's id) stay unique.
\<close>

fun runs :: "sql \<Rightarrow> db \<Rightarrow> bool" where
  "runs (DeleteMembersSql r) d \<longleftrightarrow> dMembers d r \<noteq> None"
| "runs (InsertMembersSql r us) d \<longleftrightarrow> dMembers d r \<noteq> None \<and> us \<noteq> []"
| "runs (UpdateNicknameSql r u n) d \<longleftrightarrow> dMembers d r \<noteq> None"
| "runs (UpdateRoleSql r u l) d \<longleftrightarrow> dMembers d r \<noteq> None"
| "runs (UpdateMuteSql r u t) d \<longleftrightarrow> dMembers d r \<noteq> None"
| "runs (InsertUserSql n h k) d \<longleftrightarrow> dNameKey d n \<notin> (dNameKey d \<circ> usName) ` set (dUsers d)"
| "runs (InsertMessagesSql ms) d \<longleftrightarrow> ms \<noteq> [] \<and> distinct (map cmID (dMessages d @ ms))"
| "runs _ d \<longleftrightarrow> True"

fun fresh_row :: "sql \<Rightarrow> int64 \<Rightarrow> db \<Rightarrow> bool" where
  "fresh_row (InsertRoomSql n g c t) i d \<longleftrightarrow> i \<notin> rmID ` fst ` set (dRooms d)"
| "fresh_row (InsertRequestSql r u m t) i d \<longleftrightarrow> i \<notin> jrID ` set (dRequests d)"
| "fresh_row (InsertUserSql n h k) i d \<longleftrightarrow> i \<notin> usID ` set (dUsers d)"
| "fresh_row _ i d \<longleftrightarrow> True"

section \<open>Laws\<close>

text \<open>
  A view of the world as the committed tables and, inside a transaction, the copy it works on. The
  laws fix nothing about the worlds' other parts; which services leave which views alone is said where
  it is used.
\<close>

record tables =
  committed :: db
  working :: "db option"

definition writes_db :: "('w \<Rightarrow> tables) \<Rightarrow> sql \<Rightarrow> ('w, goerr + int64) io \<Rightarrow> bool" where
  "writes_db tv s m \<longleftrightarrow> (\<forall>w r w'. m w = (r, w') \<longrightarrow> working (tv w') = working (tv w) \<and>
     (case r of
        Inr i \<Rightarrow> runs s (committed (tv w)) \<and> fresh_row s i (committed (tv w))
                   \<and> committed (tv w') = apply_sql i s (committed (tv w))
      | Inl e \<Rightarrow> committed (tv w') = committed (tv w) \<or> (\<exists>i. runs s (committed (tv w)) \<and> fresh_row s i (committed (tv w))
                   \<and> committed (tv w') = apply_sql i s (committed (tv w)))))"

definition writes_tx :: "('w \<Rightarrow> tables) \<Rightarrow> sql \<Rightarrow> ('w, goerr + int64) io \<Rightarrow> bool" where
  "writes_tx tv s m \<longleftrightarrow> (\<forall>w r w'. m w = (r, w') \<longrightarrow> committed (tv w') = committed (tv w) \<and>
     (case r of
        Inr i \<Rightarrow> \<exists>d. working (tv w) = Some d \<and> runs s d \<and> fresh_row s i d \<and> working (tv w') = Some (apply_sql i s d)
      | Inl e \<Rightarrow> working (tv w') = None \<or> working (tv w') = working (tv w)
          \<or> (\<exists>d i. working (tv w) = Some d \<and> runs s d \<and> fresh_row s i d \<and> working (tv w') = Some (apply_sql i s d))))"

definition mysql_laws :: "'w mysql \<Rightarrow> ('w \<Rightarrow> tables) \<Rightarrow> bool" where
  "mysql_laws my tv \<longleftrightarrow>
     (\<forall>s. writes_db tv s (dbExec my s))
   \<and> (\<forall>s. writes_tx tv s (dbTxExec my s))
   \<and> mutates tv (dbBegin my) (\<lambda>s. s\<lparr>working := Some (committed s)\<rparr>)
   \<and> mutates tv (dbCommit my) (\<lambda>s. case working s of None \<Rightarrow> s | Some d \<Rightarrow> \<lparr>committed = d, working = None\<rparr>)
   \<and> mutates tv (dbRollback my) (\<lambda>s. s\<lparr>working := None\<rparr>)
   \<and> (\<forall>r u. reads tv (dbRole my r u) (\<lambda>s. on_ok (\<lambda>l. \<exists>rows. dMembers (committed s) r = Some rows
        \<and> (\<exists>x \<in> set rows. mbUser x = u \<and> mbRole x = l))))
   \<and> (\<forall>r. reads tv (dbIsGroup my r) (\<lambda>s. on_ok (\<lambda>g. \<exists>x \<in> set (dRooms (committed s)). rmID (fst x) = r \<and> snd x = g)))
   \<and> (\<forall>r u. reads tv (dbCount my r u) (\<lambda>s. on_ok (\<lambda>n. \<exists>rows. dMembers (committed s) r = Some rows
        \<and> n = length (filter (\<lambda>x. mbUser x = u) rows))))
   \<and> (\<forall>r. reads tv (dbMemberIDs my r) (\<lambda>s. on_ok (\<lambda>us. \<exists>rows. dMembers (committed s) r = Some rows
        \<and> us = map mbUser rows)))
   \<and> (\<forall>u. reads tv (dbJoined my u) (\<lambda>s. on_ok (\<lambda>c. \<exists>x \<in> set (dUsers (committed s)). usID x = u \<and> usJoined x = c)))
   \<and> (\<forall>q n. reads tv (dbSearch my q n) (\<lambda>s. on_ok (\<lambda>is. set is \<subseteq> fst ` set (dRooms (committed s)))))
   \<and> (\<forall>r. reads tv (dbRoom my r) (\<lambda>s. on_ok (\<lambda>i. rmID i = r \<and> i \<in> fst ` set (dRooms (committed s)))))
   \<and> (\<forall>r. reads tv (dbRequests my r) (\<lambda>s. on_ok (\<lambda>qs. set qs = {q \<in> set (dRequests (committed s)). jrRoom q = r})))
   \<and> (\<forall>q. reads tv (dbRequest my q) (\<lambda>s. on_ok (\<lambda>x. jrID x = q \<and> x \<in> set (dRequests (committed s)))))
   \<and> (\<forall>n. reads tv (dbUser my n) (\<lambda>s. on_ok (\<lambda>(i, h). \<exists>x \<in> set (dUsers (committed s)). dNameKey (committed s) (usName x) = dNameKey (committed s) n \<and> usID x = i \<and> usHash x = h)))
   \<and> (\<forall>q. reads tv (dbMessage my q) (\<lambda>s. on_ok (\<lambda>x. cmID x = q \<and> x \<in> set (dMessages (committed s)))))"

end
