(* ===== verification/GroupStore.thy ===== *)
theory GroupStore
  imports Mysql
begin

text \<open>
  \<open>internal/meta/chat/group/cache.go\<close>, \<open>repo.go\<close> and \<open>flusher.go\<close>: memberships live in Redis sets
  (\<open>groups:members:<room>\<close> and \<open>users:joined:<user>\<close>), every change marks the room and the user in
  a sorted set of dirty ids, and a background pass writes the dirty sets back to MySQL, replacing all
  rows of the room. The clock is an argument (\<open>now\<close>, unix seconds, and \<open>ts\<close>, a time stamp).
\<close>

section \<open>Environment\<close>

text \<open>
  The two services, the transaction \<open>ZREM key member; EXPIRE key' ttl\<close> that the flusher sends as one
  pipeline, and the three optional numbers of \<open>GroupCacheConfig\<close>.
\<close>

record 'w group_env =
  geRedis :: "'w redis"
  geDB :: "'w mysql"
  geZRemExpire :: "string \<Rightarrow> string \<Rightarrow> string \<Rightarrow> int \<Rightarrow> ('w, goerr + unit) io"
  geCacheTTL :: "int option"
  gePostTTL :: "int option"
  geRetention :: "int option"

definition groupsDirtyKey :: string where "groupsDirtyKey = ''groups:dirty''"

definition usersDirtyKey :: string where "usersDirtyKey = ''users:dirty''"

definition groupMembersKey :: "int64 \<Rightarrow> string" where
  "groupMembersKey r = ''groups:members:'' @ FormatInt r"

definition userJoinedKey :: "int64 \<Rightarrow> string" where
  "userJoinedKey u = ''users:joined:'' @ FormatInt u"

definition defaultCacheTTL :: int where "defaultCacheTTL = 86400"

definition getCacheTTL :: "'w group_env \<Rightarrow> int" where
  "getCacheTTL env = (case geCacheTTL env of Some t \<Rightarrow> if 0 < t then t else defaultCacheTTL | None \<Rightarrow> defaultCacheTTL)"

definition getPostFlushTTL :: "'w group_env \<Rightarrow> int" where
  "getPostFlushTTL env = (case gePostTTL env of Some t \<Rightarrow> if 0 < t then t else 5 | None \<Rightarrow> 5)"

text \<open>\<open>if err := m; err != nil { return err }\<close> and its variant that tolerates the nil reply.\<close>

definition try_call :: "('w, goerr + 'a) io \<Rightarrow> ('w, goerr option) io \<Rightarrow> ('w, goerr option) io" where
  "try_call m k = on_call m (\<lambda>e. return (Some e)) (\<lambda>_. k)"

definition try_unless_nil :: "('w, goerr + 'a) io \<Rightarrow> ('w, goerr option) io \<Rightarrow> ('w, goerr option) io" where
  "try_unless_nil m k = on_call m (\<lambda>e. if e = RedisNil then k else return (Some e)) (\<lambda>_. k)"

section \<open>The cache\<close>

definition AddRoomMemberCache :: "'w group_env \<Rightarrow> int \<Rightarrow> int64 \<Rightarrow> int64 \<Rightarrow> ('w, goerr option) io" where
  "AddRoomMemberCache env now r u =
     (let rd = geRedis env; gkey = groupMembersKey r; ukey = userJoinedKey u in
      try_call (SAddWithRetry rd 3 gkey [FormatInt u])
       (try_call (SAddWithRetry rd 3 ukey [FormatInt r])
         (try_call (cZAdd rd groupsDirtyKey (of_int now) (FormatInt r))
           (try_call (cZAdd rd usersDirtyKey (of_int now) (FormatInt u))
             (ignoring (cPersist rd gkey) (ignoring (cPersist rd ukey) (return None)))))))"

definition AddRoomMembersCache :: "'w group_env \<Rightarrow> int \<Rightarrow> int64 \<Rightarrow> int64 list \<Rightarrow> ('w, goerr option) io" where
  "AddRoomMembersCache env now r us =
     (let rd = geRedis env; gkey = groupMembersKey r;
          rest = then_io
            (for_each_err (\<lambda>u.
               try_call (SAddWithRetry rd 3 (userJoinedKey u) [FormatInt r])
                 (try_call (cZAdd rd usersDirtyKey (of_int now) (FormatInt u)) (return None))) us)
            (\<lambda>e. case e of Some err \<Rightarrow> return (Some err)
             | None \<Rightarrow>
                 try_call (cZAdd rd groupsDirtyKey (of_int now) (FormatInt r))
                   (ignoring (cPersist rd gkey)
                     (then_io (for_each (\<lambda>u. ignoring (cPersist rd (userJoinedKey u)) (return ())) us)
                       (\<lambda>_. return None))))
      in on_call (cSAdd rd gkey (map FormatInt us))
           (\<lambda>e. try_call (SAddWithRetry rd 3 gkey (map FormatInt us)) rest) (\<lambda>_. rest))"

definition RemoveRoomMemberCache :: "'w group_env \<Rightarrow> int \<Rightarrow> int64 \<Rightarrow> int64 \<Rightarrow> ('w, goerr option) io" where
  "RemoveRoomMemberCache env now r u =
     (let rd = geRedis env; gkey = groupMembersKey r in
      try_unless_nil (cSRem rd gkey [FormatInt u])
       (try_unless_nil (cSRem rd (userJoinedKey u) [FormatInt r])
         (try_call (cZAdd rd groupsDirtyKey (of_int now) (FormatInt r))
           (try_call (cZAdd rd usersDirtyKey (of_int now) (FormatInt u))
             (ignoring (cExpire rd gkey (getCacheTTL env)) (ignoring (cPersist rd gkey) (return None)))))))"

text \<open>Keep a dirty key, else let its lifetime slide.\<close>

definition touch :: "'w redis \<Rightarrow> string \<Rightarrow> string \<Rightarrow> string \<Rightarrow> int \<Rightarrow> ('w, 'a) io \<Rightarrow> ('w, 'a) io" where
  "touch rd dirtyKey member key ttl k =
     on_call (cZScore rd dirtyKey member) (\<lambda>e. ignoring (cExpire rd key ttl) k)
       (\<lambda>sc. if 0 < sc then ignoring (cPersist rd key) k else ignoring (cExpire rd key ttl) k)"

fun parse_ids :: "string list \<Rightarrow> int64 list" where
  "parse_ids [] = []"
| "parse_ids (s # ss) = (case ParseInt s of Inl e \<Rightarrow> parse_ids ss | Inr i \<Rightarrow> i # parse_ids ss)"

definition GetRoomMemberIDsCache :: "'w group_env \<Rightarrow> int64 \<Rightarrow> ('w, goerr + int64 list) io" where
  "GetRoomMemberIDsCache env r =
     (let rd = geRedis env; gkey = groupMembersKey r in
      on_call (SMembersWithRetry rd 3 gkey) (\<lambda>e. return (Inl e))
        (\<lambda>vals. touch rd groupsDirtyKey (FormatInt r) gkey (getCacheTTL env)
           (return (Inr (parse_ids (filter (\<lambda>s. s \<noteq> []) vals))))))"

definition IsRoomMemberCache :: "'w group_env \<Rightarrow> int64 \<Rightarrow> int64 \<Rightarrow> ('w, goerr + bool) io" where
  "IsRoomMemberCache env r u =
     (let rd = geRedis env; gkey = groupMembersKey r in
      on_call (cSIsMember rd gkey (FormatInt u)) (\<lambda>e. return (Inl e))
        (\<lambda>b. touch rd groupsDirtyKey (FormatInt r) gkey (getCacheTTL env) (return (Inr b))))"

definition GetUserJoinedRoomsCache :: "'w group_env \<Rightarrow> int64 \<Rightarrow> ('w, goerr + int64 list) io" where
  "GetUserJoinedRoomsCache env u =
     (let rd = geRedis env; ukey = userJoinedKey u in
      on_call (SMembersWithRetry rd 3 ukey) (\<lambda>e. return (Inl e))
        (\<lambda>vals. touch rd usersDirtyKey (FormatInt u) ukey defaultCacheTTL
           (return (Inr (parse_ids (filter (\<lambda>s. s \<noteq> []) vals))))))"

definition PopDirtyGroups :: "'w group_env \<Rightarrow> int \<Rightarrow> ('w, goerr + int64 list) io" where
  "PopDirtyGroups env n = on_call (cZRange (geRedis env) groupsDirtyKey 0 (n - 1))
     (\<lambda>e. return (Inl e)) (\<lambda>vals. return (Inr (parse_ids vals)))"

definition RemoveDirtyGroup :: "'w group_env \<Rightarrow> int64 \<Rightarrow> ('w, goerr option) io" where
  "RemoveDirtyGroup env r = try_call (cZRem (geRedis env) groupsDirtyKey [FormatInt r]) (return None)"

definition PopDirtyUsers :: "'w group_env \<Rightarrow> int \<Rightarrow> ('w, goerr + int64 list) io" where
  "PopDirtyUsers env n = on_call (cZRange (geRedis env) usersDirtyKey 0 (n - 1))
     (\<lambda>e. return (Inl e)) (\<lambda>vals. return (Inr (parse_ids vals)))"

definition RemoveDirtyUser :: "'w group_env \<Rightarrow> int64 \<Rightarrow> ('w, goerr option) io" where
  "RemoveDirtyUser env u = try_call (cZRem (geRedis env) usersDirtyKey [FormatInt u]) (return None)"

section \<open>The repository\<close>

definition exec :: "'w group_env \<Rightarrow> sql \<Rightarrow> ('w, goerr option) io" where
  "exec env s = try_call (dbExec (geDB env) s) (return None)"

definition InsertRoom :: "'w group_env \<Rightarrow> string \<Rightarrow> string \<Rightarrow> bool \<Rightarrow> int64 \<Rightarrow> ('w, goerr + int64) io" where
  "InsertRoom env ts name isGroup creator = dbExec (geDB env) (InsertRoomSql name isGroup creator ts)"

definition CreateRoomMemberTable :: "'w group_env \<Rightarrow> int64 \<Rightarrow> ('w, goerr option) io" where
  "CreateRoomMemberTable env r = exec env (CreateMembersSql r)"

definition InsertRoomMember :: "'w group_env \<Rightarrow> int \<Rightarrow> int64 \<Rightarrow> int64 \<Rightarrow> ('w, goerr option) io" where
  "InsertRoomMember env now r u = AddRoomMemberCache env now r u"

definition InsertRoomMembers :: "'w group_env \<Rightarrow> int \<Rightarrow> int64 \<Rightarrow> int64 list \<Rightarrow> ('w, goerr option) io" where
  "InsertRoomMembers env now r us = AddRoomMembersCache env now r us"

definition DeleteRoomMember :: "'w group_env \<Rightarrow> int \<Rightarrow> int64 \<Rightarrow> int64 \<Rightarrow> ('w, goerr option) io" where
  "DeleteRoomMember env now r u = RemoveRoomMemberCache env now r u"

definition UpdateMemberNickname :: "'w group_env \<Rightarrow> int64 \<Rightarrow> int64 \<Rightarrow> string \<Rightarrow> ('w, goerr option) io" where
  "UpdateMemberNickname env r u n = exec env (UpdateNicknameSql r u n)"

definition QueryMemberRole :: "'w group_env \<Rightarrow> int64 \<Rightarrow> int64 \<Rightarrow> ('w, goerr + int16) io" where
  "QueryMemberRole env r u = dbRole (geDB env) r u"

definition UpdateMemberRole :: "'w group_env \<Rightarrow> int64 \<Rightarrow> int64 \<Rightarrow> int16 \<Rightarrow> ('w, goerr option) io" where
  "UpdateMemberRole env r u l = exec env (UpdateRoleSql r u l)"

definition UpdateMuteUntil :: "'w group_env \<Rightarrow> int64 \<Rightarrow> int64 \<Rightarrow> string \<Rightarrow> ('w, goerr option) io" where
  "UpdateMuteUntil env r u t = exec env (UpdateMuteSql r u t)"

definition QueryIsGroupRoom :: "'w group_env \<Rightarrow> int64 \<Rightarrow> ('w, goerr + bool) io" where
  "QueryIsGroupRoom env r = dbIsGroup (geDB env) r"

definition IsRoomMember :: "'w group_env \<Rightarrow> int64 \<Rightarrow> int64 \<Rightarrow> ('w, goerr + bool) io" where
  "IsRoomMember env r u =
     on_call (IsRoomMemberCache env r u)
       (\<lambda>_. on_call (dbCount (geDB env) r u) (\<lambda>e. return (Inl e)) (\<lambda>n. return (Inr (0 < n))))
       (\<lambda>ok. return (Inr ok))"

text \<open>\<open>strings.Split(s, ",")\<close> and the loop that parses the pieces, skipping empty ones.\<close>

fun split_on :: "char \<Rightarrow> string \<Rightarrow> string list" where
  "split_on c [] = [[]]"
| "split_on c (x # xs) =
     (if x = c then [] # split_on c xs
      else case split_on c xs of [] \<Rightarrow> [[x]] | p # ps \<Rightarrow> (x # p) # ps)"

fun parse_all :: "string list \<Rightarrow> goerr + int64 list" where
  "parse_all [] = Inr []"
| "parse_all (s # ss) =
     (if s = [] then parse_all ss
      else case ParseInt s of
          Inl e \<Rightarrow> Inl e
        | Inr i \<Rightarrow> (case parse_all ss of Inl e \<Rightarrow> Inl e | Inr is \<Rightarrow> Inr (i # is)))"

definition QueryJoinedRooms :: "'w group_env \<Rightarrow> int64 \<Rightarrow> ('w, goerr + int64 list) io" where
  "QueryJoinedRooms env u =
     (let fallback = on_call (dbJoined (geDB env) u) (\<lambda>e. return (Inl e))
        (\<lambda>c. case c of
            None \<Rightarrow> return (Inr [])
          | Some csv \<Rightarrow>
              if csv = [] then return (Inr [])
              else (case parse_all (split_on CHR '','' csv) of
                  Inl e \<Rightarrow> return (Inl e)
                | Inr ids \<Rightarrow>
                    if ids = [] then return (Inr ids)
                    else ignoring (cSAdd (geRedis env) (userJoinedKey u) (map FormatInt ids)) (return (Inr ids))))
      in on_call (GetUserJoinedRoomsCache env u) (\<lambda>_. fallback)
           (\<lambda>rooms. if rooms \<noteq> [] then return (Inr rooms) else fallback))"

definition QueryRoomMemberIDs :: "'w group_env \<Rightarrow> int64 \<Rightarrow> ('w, goerr + int64 list) io" where
  "QueryRoomMemberIDs env r =
     (let fallback = on_call (dbMemberIDs (geDB env) r) (\<lambda>e. return (Inl e))
        (\<lambda>ids. if ids = [] then return (Inr ids)
          else ignoring (cSAdd (geRedis env) (groupMembersKey r) (map FormatInt ids)) (return (Inr ids)))
      in on_call (GetRoomMemberIDsCache env r) (\<lambda>_. fallback)
           (\<lambda>ms. if ms \<noteq> [] then return (Inr ms) else fallback))"

definition SearchRoomsByName :: "'w group_env \<Rightarrow> string \<Rightarrow> int \<Rightarrow> ('w, goerr + room_info list) io" where
  "SearchRoomsByName env q limit =
     dbSearch (geDB env) (''%'' @ q @ ''%'') (if limit \<le> 0 then 20 else limit)"

definition QueryRoomByID :: "'w group_env \<Rightarrow> int64 \<Rightarrow> ('w, goerr + room_info) io" where
  "QueryRoomByID env r = dbRoom (geDB env) r"

definition with_requests :: "'w group_env \<Rightarrow> ('w, goerr + 'a) io \<Rightarrow> ('w, goerr + 'a) io" where
  "with_requests env m = on_call (dbExec (geDB env) CreateRequestsSql) (\<lambda>e. return (Inl e)) (\<lambda>_. m)"

definition InsertJoinRequest :: "'w group_env \<Rightarrow> string \<Rightarrow> int64 \<Rightarrow> int64 \<Rightarrow> string \<Rightarrow> ('w, goerr + int64) io" where
  "InsertJoinRequest env ts r u m = with_requests env (dbExec (geDB env) (InsertRequestSql r u m ts))"

definition QueryPendingJoinRequestsByRoom :: "'w group_env \<Rightarrow> int64 \<Rightarrow> ('w, goerr + join_request list) io" where
  "QueryPendingJoinRequestsByRoom env r = with_requests env (dbRequests (geDB env) r)"

definition QueryJoinRequestByID :: "'w group_env \<Rightarrow> int64 \<Rightarrow> ('w, goerr + join_request) io" where
  "QueryJoinRequestByID env q = with_requests env (dbRequest (geDB env) q)"

definition DeleteJoinRequestByID :: "'w group_env \<Rightarrow> int64 \<Rightarrow> ('w, goerr option) io" where
  "DeleteJoinRequestByID env q =
     try_call (dbExec (geDB env) CreateRequestsSql) (exec env (DeleteRequestSql q))"

section \<open>The flusher\<close>

definition csv_of :: "int64 list \<Rightarrow> string" where
  "csv_of rooms = concat (map (\<lambda>r. FormatInt r @ '','') rooms)"

text \<open>Replacing the rows of a room in one transaction; a failed statement rolls it back.\<close>

definition replace_members :: "'w group_env \<Rightarrow> int64 \<Rightarrow> int64 list \<Rightarrow> ('w, goerr option) io" where
  "replace_members env r ms =
     (let my = geDB env; undo = (\<lambda>e. ignoring (dbRollback my) (return (Some e)));
          commit = try_call (dbCommit my) (return None) in
      then_io (CreateRoomMemberTable env r)
        (\<lambda>e. case e of Some err \<Rightarrow> return (Some err)
         | None \<Rightarrow> try_call (dbBegin my)
             (on_call (dbTxExec my (DeleteMembersSql r)) undo
               (\<lambda>_. if ms = [] then commit
                 else on_call (dbTxExec my (InsertMembersSql r ms)) undo (\<lambda>_. commit)))))"

definition writeBackGroup :: "'w group_env \<Rightarrow> int64 \<Rightarrow> ('w, goerr option) io" where
  "writeBackGroup env r =
     on_call (GetRoomMemberIDsCache env r) (\<lambda>_. return None) (\<lambda>ms. replace_members env r ms)"

definition writeBackUser :: "'w group_env \<Rightarrow> int64 \<Rightarrow> ('w, goerr option) io" where
  "writeBackUser env u =
     on_call (GetUserJoinedRoomsCache env u) (\<lambda>_. return None)
       (\<lambda>rooms. exec env (UpdateJoinedSql u (csv_of rooms)))"

text \<open>
  One room of \<open>processDirtyGroups\<close>: reading the set, then the rest; the two halves are apart because
  other requests run between them.
\<close>

definition flush_rest :: "'w group_env \<Rightarrow> int64 \<Rightarrow> int64 list \<Rightarrow> ('w, unit) io" where
  "flush_rest env r ms =
     then_io (replace_members env r ms)
       (\<lambda>e. case e of Some _ \<Rightarrow> return ()
        | None \<Rightarrow> ignoring (geZRemExpire env groupsDirtyKey (FormatInt r) (groupMembersKey r) (getPostFlushTTL env))
            (return ()))"

definition flush_group :: "'w group_env \<Rightarrow> int64 \<Rightarrow> ('w, unit) io" where
  "flush_group env r =
     on_call (GetRoomMemberIDsCache env r) (\<lambda>_. return ()) (\<lambda>ms. flush_rest env r ms)"

definition processDirtyGroups :: "'w group_env \<Rightarrow> int \<Rightarrow> ('w, unit) io" where
  "processDirtyGroups env batch =
     on_call (PopDirtyGroups env batch) (\<lambda>_. return ()) (\<lambda>ids. for_each (flush_group env) ids)"

definition flush_user :: "'w group_env \<Rightarrow> int64 \<Rightarrow> ('w, unit) io" where
  "flush_user env u =
     on_call (GetUserJoinedRoomsCache env u) (\<lambda>_. return ())
       (\<lambda>rooms. on_call (dbExec (geDB env) (UpdateJoinedSql u (csv_of rooms))) (\<lambda>_. return ())
         (\<lambda>_. ignoring (geZRemExpire env usersDirtyKey (FormatInt u) (userJoinedKey u) (getPostFlushTTL env))
            (return ())))"

definition processDirtyUsers :: "'w group_env \<Rightarrow> int \<Rightarrow> ('w, unit) io" where
  "processDirtyUsers env batch =
     on_call (PopDirtyUsers env batch) (\<lambda>_. return ()) (\<lambda>ids. for_each (flush_user env) ids)"

text \<open>\<open>CleanStaleDirty\<close>: the entries marked before \<open>now - retention\<close>, groups first.\<close>

definition clean_stale :: "'w group_env \<Rightarrow> string \<Rightarrow> (int64 \<Rightarrow> ('w, goerr option) io) \<Rightarrow> int \<Rightarrow> ('w, unit) io" where
  "clean_stale env dirtyKey write_back cutoff =
     on_call (cZRangeByScore (geRedis env) dirtyKey (of_int cutoff)) (\<lambda>_. return ())
       (\<lambda>vals. for_each (\<lambda>s. case ParseInt s of
            Inl _ \<Rightarrow> return ()
          | Inr i \<Rightarrow> then_io (write_back i) (\<lambda>e. case e of Some _ \<Rightarrow> return ()
              | None \<Rightarrow> ignoring (cZRem (geRedis env) dirtyKey [s]) (return ()))) vals)"

definition CleanStaleDirty :: "'w group_env \<Rightarrow> int \<Rightarrow> int \<Rightarrow> ('w, unit) io" where
  "CleanStaleDirty env now retention =
     then_io (clean_stale env groupsDirtyKey (writeBackGroup env) (now - retention))
       (\<lambda>_. clean_stale env usersDirtyKey (writeBackUser env) (now - retention))"

text \<open>
  One tick of \<open>RunGroupFlusher\<close>, whose loop ends only by its stop channel. The retention is the
  configured one, seven days by default.
\<close>

definition flusher_retention :: "'w group_env \<Rightarrow> int" where
  "flusher_retention env = (case geRetention env of Some t \<Rightarrow> if 0 < t then t else 604800 | None \<Rightarrow> 604800)"

definition flusher_tick :: "'w group_env \<Rightarrow> int \<Rightarrow> int \<Rightarrow> ('w, unit) io" where
  "flusher_tick env batch now =
     then_io (CleanStaleDirty env now (flusher_retention env))
       (\<lambda>_. then_io (processDirtyGroups env batch) (\<lambda>_. processDirtyUsers env batch))"

end
