(* ===== verification/GroupFlush.thy ===== *)
theory GroupFlush
  imports GroupStore
begin

text \<open>
  What the write-back of memberships does to the tables: views of Redis and MySQL side by side, the
  outcome of each operation of \<open>cache.go\<close> and \<open>flusher.go\<close> on them, and from these what a flush
  keeps, what it forgets, and what a change that finds its key expired or meets a running flush loses.
\<close>

section \<open>Two services\<close>

definition keeps :: "('w \<Rightarrow> 's) \<Rightarrow> ('w, 'a) io \<Rightarrow> bool" where
  "keeps vw m \<longleftrightarrow> (\<forall>w. vw (snd (m w)) = vw w)"

definition both :: "('w \<Rightarrow> 's) \<Rightarrow> ('w \<Rightarrow> 't) \<Rightarrow> 'w \<Rightarrow> 's \<times> 't" where
  "both sv tv w = (sv w, tv w)"

text \<open>
  A Redis command leaves the tables alone, a statement leaves Redis alone; the pipeline removes the
  mark, and its \<open>EXPIRE\<close> shows in the view only when the key is gone.
\<close>

definition group_laws :: "'w group_env \<Rightarrow> ('w \<Rightarrow> store) \<Rightarrow> ('w \<Rightarrow> tables) \<Rightarrow> bool" where
  "group_laws env sv tv \<longleftrightarrow>
     store_laws (geRedis env) sv \<and> mysql_laws (geDB env) tv
   \<and> (\<forall>d m k t. mutates sv (geZRemExpire env d m k t) (\<lambda>s. s\<lparr>zsets := (zsets s)(d := zrem [m] (zsets s d))\<rparr>))
   \<and> (\<forall>d m k t. keeps tv (geZRemExpire env d m k t))
   \<and> (\<forall>k ms. keeps tv (cSAdd (geRedis env) k ms) \<and> keeps tv (cSRem (geRedis env) k ms))
   \<and> (\<forall>k m. keeps tv (cSMembers (geRedis env) k) \<and> keeps tv (cSIsMember (geRedis env) k m) \<and> keeps tv (cZScore (geRedis env) k m))
   \<and> (\<forall>k sc m. keeps tv (cZAdd (geRedis env) k sc m) \<and> keeps tv (cZRangeByScore (geRedis env) k sc))
   \<and> (\<forall>k ms a b. keeps tv (cZRem (geRedis env) k ms) \<and> keeps tv (cZRange (geRedis env) k a b))
   \<and> (\<forall>k t. keeps tv (cExpire (geRedis env) k t) \<and> keeps tv (cPersist (geRedis env) k))
   \<and> (\<forall>s. keeps sv (dbExec (geDB env) s) \<and> keeps sv (dbTxExec (geDB env) s))
   \<and> keeps sv (dbBegin (geDB env)) \<and> keeps sv (dbCommit (geDB env)) \<and> keeps sv (dbRollback (geDB env))
   \<and> (\<forall>r u. keeps sv (dbRole (geDB env) r u) \<and> keeps sv (dbCount (geDB env) r u))
   \<and> (\<forall>r. keeps sv (dbIsGroup (geDB env) r) \<and> keeps sv (dbMemberIDs (geDB env) r) \<and> keeps sv (dbJoined (geDB env) r))
   \<and> (\<forall>q. keeps sv (dbRoom (geDB env) q) \<and> keeps sv (dbRequests (geDB env) q) \<and> keeps sv (dbRequest (geDB env) q))"

lemma keepsD: "keeps vw m \<Longrightarrow> m w = (r, w') \<Longrightarrow> vw w' = vw w"
  unfolding keeps_def by (metis snd_conv)

lemma keeps_retry: "keeps vw m \<Longrightarrow> keeps vw (retry_loop n stop acc m)"
proof -
  assume k: "keeps vw m"
  have "vw (snd (retry_loop n stop acc m w)) = vw w" for w
  proof (induction n arbitrary: acc w)
    case (Suc n)
    obtain r w1 where c: "m w = (r, w1)" by (cases "m w")
    with keepsD [OF k c] Suc.IH show ?case by (cases r) auto
  qed simp
  then show ?thesis by (simp add: keeps_def)
qed

lemma mutates_alt:
  "mutates vw m f \<longleftrightarrow> (\<forall>w w'. (\<forall>v. m w = (Inr v, w') \<longrightarrow> vw w' = f (vw w))
     \<and> (\<forall>e. m w = (Inl e, w') \<longrightarrow> vw w' = vw w \<or> vw w' = f (vw w)))"
  unfolding mutates_def by (simp add: split_sum_all) blast

lemma both_mutates1: "mutates sv m f \<Longrightarrow> keeps tv m \<Longrightarrow> mutates (both sv tv) m (apfst f)"
  unfolding mutates_alt both_def by (auto dest: keepsD)

lemma both_mutates2: "mutates tv m f \<Longrightarrow> keeps sv m \<Longrightarrow> mutates (both sv tv) m (apsnd f)"
  unfolding mutates_alt both_def by (auto dest: keepsD)

lemma both_reads1: "reads sv m P \<Longrightarrow> keeps tv m \<Longrightarrow> reads (both sv tv) m (\<lambda>s. P (fst s))"
  unfolding reads_def both_def by (auto dest: keepsD)

lemma both_reads2: "reads tv m P \<Longrightarrow> keeps sv m \<Longrightarrow> reads (both sv tv) m (\<lambda>s. P (snd s))"
  unfolding reads_def both_def by (auto dest: keepsD)

lemma mutates_id: "mutates vw m (\<lambda>s. s) \<Longrightarrow> reads vw m (\<lambda>_ _. True)"
  unfolding mutates_alt reads_def by (simp add: split_sum_all)

text \<open>The effects of the commands and statements on both views.\<close>

lemma group_redis:
  assumes "group_laws env sv tv"
  shows "mutates (both sv tv) (SAddWithRetry (geRedis env) 3 k ms) (apfst (\<lambda>s. s\<lparr>sets := (sets s)(k := sets s k \<union> set ms)\<rparr>))"
    and "mutates (both sv tv) (cSAdd (geRedis env) k ms) (apfst (\<lambda>s. s\<lparr>sets := (sets s)(k := sets s k \<union> set ms)\<rparr>))"
    and "mutates (both sv tv) (cSRem (geRedis env) k ms) (apfst (\<lambda>s. s\<lparr>sets := (sets s)(k := sets s k - set ms)\<rparr>))"
    and "mutates (both sv tv) (cZAdd (geRedis env) k sc m) (apfst (\<lambda>s. s\<lparr>zsets := (zsets s)(k := zadd sc m (zsets s k))\<rparr>))"
    and "mutates (both sv tv) (cZRem (geRedis env) k ms) (apfst (\<lambda>s. s\<lparr>zsets := (zsets s)(k := zrem ms (zsets s k))\<rparr>))"
    and "mutates (both sv tv) (geZRemExpire env k m k' t) (apfst (\<lambda>s. s\<lparr>zsets := (zsets s)(k := zrem [m] (zsets s k))\<rparr>))"
    and "reads (both sv tv) (SMembersWithRetry (geRedis env) 3 k) (\<lambda>s. on_ok (\<lambda>ms. set ms = sets (fst s) k))"
    and "reads (both sv tv) (cSIsMember (geRedis env) k m) (\<lambda>s. on_ok (\<lambda>b. b = (m \<in> sets (fst s) k)))"
    and "reads (both sv tv) (cZScore (geRedis env) k m) (\<lambda>s. on_ok (\<lambda>sc. (sc, m) \<in> set (zsets (fst s) k)))"
    and "reads (both sv tv) (cZRange (geRedis env) k a b) (\<lambda>s. on_ok (\<lambda>ms. ms = zslice a b (map snd (zsets (fst s) k))))"
    and "reads (both sv tv) (cExpire (geRedis env) k t) (\<lambda>_ _. True)"
    and "reads (both sv tv) (cPersist (geRedis env) k) (\<lambda>_ _. True)"
proof -
  note L = assms [unfolded group_laws_def]
  have st: "store_laws (geRedis env) sv" by (simp add: L)
  note D = store_lawsD [OF st]
  have k: "keeps tv (cSAdd (geRedis env) k ms)" "keeps tv (cSRem (geRedis env) k ms)"
    "keeps tv (cZAdd (geRedis env) k sc m)" "keeps tv (cZRem (geRedis env) k ms)" "keeps tv (geZRemExpire env k m k' t)"
    "keeps tv (cSMembers (geRedis env) k)" "keeps tv (cSIsMember (geRedis env) k m)" "keeps tv (cZScore (geRedis env) k m)"
    "keeps tv (cZRange (geRedis env) k a b)" "keeps tv (cExpire (geRedis env) k t)" "keeps tv (cPersist (geRedis env) k)"
    by (simp_all add: L)
  have r: "keeps tv (SAddWithRetry (geRedis env) 3 k ms)" "keeps tv (SMembersWithRetry (geRedis env) 3 k)"
    unfolding SAddWithRetry_def SMembersWithRetry_def by (intro keeps_retry k)+
  show "mutates (both sv tv) (SAddWithRetry (geRedis env) 3 k ms) (apfst (\<lambda>s. s\<lparr>sets := (sets s)(k := sets s k \<union> set ms)\<rparr>))"
    by (rule both_mutates1 [OF retried(3) [OF st] r(1)]) simp
  show "mutates (both sv tv) (cSAdd (geRedis env) k ms) (apfst (\<lambda>s. s\<lparr>sets := (sets s)(k := sets s k \<union> set ms)\<rparr>))"
    by (rule both_mutates1 [OF D(6) k(1)])
  show "mutates (both sv tv) (cSRem (geRedis env) k ms) (apfst (\<lambda>s. s\<lparr>sets := (sets s)(k := sets s k - set ms)\<rparr>))"
    by (rule both_mutates1 [OF D(7) k(2)])
  show "mutates (both sv tv) (cZAdd (geRedis env) k sc m) (apfst (\<lambda>s. s\<lparr>zsets := (zsets s)(k := zadd sc m (zsets s k))\<rparr>))"
    by (rule both_mutates1 [OF D(12) k(3)])
  show "mutates (both sv tv) (cZRem (geRedis env) k ms) (apfst (\<lambda>s. s\<lparr>zsets := (zsets s)(k := zrem ms (zsets s k))\<rparr>))"
    by (rule both_mutates1 [OF D(13) k(4)])
  show "mutates (both sv tv) (geZRemExpire env k m k' t) (apfst (\<lambda>s. s\<lparr>zsets := (zsets s)(k := zrem [m] (zsets s k))\<rparr>))"
    by (rule both_mutates1 [OF _ k(5)]) (simp add: L)
  show "reads (both sv tv) (SMembersWithRetry (geRedis env) 3 k) (\<lambda>s. on_ok (\<lambda>ms. set ms = sets (fst s) k))"
    by (rule both_reads1 [OF retried(9) [OF st] r(2)]) simp
  show "reads (both sv tv) (cSIsMember (geRedis env) k m) (\<lambda>s. on_ok (\<lambda>b. b = (m \<in> sets (fst s) k)))"
    by (rule both_reads1 [OF D(9) k(7)])
  show "reads (both sv tv) (cZScore (geRedis env) k m) (\<lambda>s. on_ok (\<lambda>sc. (sc, m) \<in> set (zsets (fst s) k)))"
    by (rule both_reads1 [OF D(17) k(8)])
  show "reads (both sv tv) (cZRange (geRedis env) k a b) (\<lambda>s. on_ok (\<lambda>ms. ms = zslice a b (map snd (zsets (fst s) k))))"
    by (rule both_reads1 [OF D(14) k(9)])
  show "reads (both sv tv) (cExpire (geRedis env) k t) (\<lambda>_ _. True)"
    by (rule both_reads1 [OF mutates_id [OF D(15)] k(10)])
  show "reads (both sv tv) (cPersist (geRedis env) k) (\<lambda>_ _. True)"
    by (rule both_reads1 [OF mutates_id [OF D(16)] k(11)])
qed

lemma group_db:
  assumes "group_laws env sv tv"
  shows "reads (both sv tv) (dbRole (geDB env) r u) (\<lambda>s. on_ok (\<lambda>l. \<exists>rows. dMembers (committed (snd s)) r = Some rows
        \<and> (\<exists>x \<in> set rows. mbUser x = u \<and> mbRole x = l)))"
    and "reads (both sv tv) (dbIsGroup (geDB env) r)
        (\<lambda>s. on_ok (\<lambda>g. \<exists>x \<in> set (dRooms (committed (snd s))). rmID (fst x) = r \<and> snd x = g))"
    and "reads (both sv tv) (dbJoined (geDB env) r)
        (\<lambda>s. on_ok (\<lambda>c. \<exists>x \<in> set (dUsers (committed (snd s))). usID x = r \<and> usJoined x = c))"
    and "reads (both sv tv) (dbRequest (geDB env) r)
        (\<lambda>s. on_ok (\<lambda>x. jrID x = r \<and> x \<in> set (dRequests (committed (snd s)))))"
    and "mutates (both sv tv) (dbBegin (geDB env)) (apsnd (\<lambda>s. s\<lparr>working := Some (committed s)\<rparr>))"
    and "mutates (both sv tv) (dbCommit (geDB env))
        (apsnd (\<lambda>s. case working s of None \<Rightarrow> s | Some d \<Rightarrow> \<lparr>committed = d, working = None\<rparr>))"
    and "mutates (both sv tv) (dbRollback (geDB env)) (apsnd (\<lambda>s. s\<lparr>working := None\<rparr>))"
    and "reads (both sv tv) (dbMemberIDs (geDB env) r) (\<lambda>s. on_ok (\<lambda>us. \<exists>rows. dMembers (committed (snd s)) r = Some rows
        \<and> us = map mbUser rows))"
proof -
  note L = assms [unfolded group_laws_def mysql_laws_def]
  show "reads (both sv tv) (dbRole (geDB env) r u) (\<lambda>s. on_ok (\<lambda>l. \<exists>rows. dMembers (committed (snd s)) r = Some rows
        \<and> (\<exists>x \<in> set rows. mbUser x = u \<and> mbRole x = l)))"
    by (rule both_reads2) (simp_all add: L)
  show "reads (both sv tv) (dbIsGroup (geDB env) r)
        (\<lambda>s. on_ok (\<lambda>g. \<exists>x \<in> set (dRooms (committed (snd s))). rmID (fst x) = r \<and> snd x = g))"
    by (rule both_reads2) (simp_all add: L)
  show "reads (both sv tv) (dbJoined (geDB env) r)
        (\<lambda>s. on_ok (\<lambda>c. \<exists>x \<in> set (dUsers (committed (snd s))). usID x = r \<and> usJoined x = c))"
    by (rule both_reads2) (simp_all add: L)
  show "reads (both sv tv) (dbRequest (geDB env) r)
        (\<lambda>s. on_ok (\<lambda>x. jrID x = r \<and> x \<in> set (dRequests (committed (snd s)))))"
    by (rule both_reads2) (simp_all add: L)
  show "reads (both sv tv) (dbMemberIDs (geDB env) r) (\<lambda>s. on_ok (\<lambda>us. \<exists>rows. dMembers (committed (snd s)) r = Some rows
        \<and> us = map mbUser rows))"
    by (rule both_reads2) (simp_all add: L)
  show "mutates (both sv tv) (dbBegin (geDB env)) (apsnd (\<lambda>s. s\<lparr>working := Some (committed s)\<rparr>))"
    by (rule both_mutates2) (simp_all add: L)
  show "mutates (both sv tv) (dbCommit (geDB env))
        (apsnd (\<lambda>s. case working s of None \<Rightarrow> s | Some d \<Rightarrow> \<lparr>committed = d, working = None\<rparr>))"
    by (rule both_mutates2) (simp_all add: L)
  show "mutates (both sv tv) (dbRollback (geDB env)) (apsnd (\<lambda>s. s\<lparr>working := None\<rparr>))"
    by (rule both_mutates2) (simp_all add: L)
qed

text \<open>A statement outside a transaction, and inside one.\<close>

definition stepped :: "sql \<Rightarrow> bool \<Rightarrow> tables \<Rightarrow> tables \<Rightarrow> bool" where
  "stepped q ok t t' \<longleftrightarrow> working t' = working t \<and>
     ((\<not> ok \<and> committed t' = committed t) \<or>
      (\<exists>i. runs q (committed t) \<and> fresh_row q i (committed t) \<and> committed t' = apply_sql i q (committed t)))"

lemma dbExec_post:
  assumes "group_laws env sv tv"
  shows "post (both sv tv) (s, t) (dbExec (geDB env) q)
    (\<lambda>r (s', t'). s' = s \<and> stepped q (\<exists>i. r = Inr i) t t'
       \<and> (\<forall>i. r = Inr i \<longrightarrow> fresh_row q i (committed t) \<and> committed t' = apply_sql i q (committed t)))"
proof (rule postI)
  note L = assms [unfolded group_laws_def mysql_laws_def]
  have w: "writes_db tv q (dbExec (geDB env) q)" and k: "keeps sv (dbExec (geDB env) q)" by (simp_all add: L)
  fix w r w' assume "both sv tv w = (s, t)" and c: "dbExec (geDB env) q w = (r, w')"
  then have st: "sv w = s" "tv w = t" by (simp_all add: both_def)
  from w c have "working (tv w') = working (tv w) \<and> (case r of
        Inr i \<Rightarrow> runs q (committed (tv w)) \<and> fresh_row q i (committed (tv w))
                   \<and> committed (tv w') = apply_sql i q (committed (tv w))
      | Inl e \<Rightarrow> committed (tv w') = committed (tv w) \<or> (\<exists>i. runs q (committed (tv w)) \<and> fresh_row q i (committed (tv w))
                   \<and> committed (tv w') = apply_sql i q (committed (tv w))))"
    unfolding writes_db_def by blast
  with keepsD [OF k c] st show "case both sv tv w' of (s', t') \<Rightarrow> s' = s \<and> stepped q (\<exists>i. r = Inr i) t t'
       \<and> (\<forall>i. r = Inr i \<longrightarrow> fresh_row q i (committed t) \<and> committed t' = apply_sql i q (committed t))"
    by (cases r) (auto simp: both_def stepped_def)
qed

lemma exec_post:
  assumes "group_laws env sv tv"
  shows "post (both sv tv) (s, t) (exec env q) (\<lambda>e (s', t'). s' = s \<and> stepped q (e = None) t t')"
  unfolding exec_def try_call_def
  by (rule post_call [OF dbExec_post [OF assms]]) (auto simp: stepped_def)

lemma dbTxExec_post:
  assumes "group_laws env sv tv"
  shows "post (both sv tv) (s, t) (dbTxExec (geDB env) q)
    (\<lambda>r (s', t'). s' = s \<and> committed t' = committed t
       \<and> (\<forall>i. r = Inr i \<longrightarrow> (\<exists>d. working t = Some d \<and> runs q d \<and> working t' = Some (apply_sql i q d))))"
proof (rule postI)
  note L = assms [unfolded group_laws_def mysql_laws_def]
  have w: "writes_tx tv q (dbTxExec (geDB env) q)" and k: "keeps sv (dbTxExec (geDB env) q)" by (simp_all add: L)
  fix w r w' assume "both sv tv w = (s, t)" and c: "dbTxExec (geDB env) q w = (r, w')"
  with w keepsD [OF k c] show "case both sv tv w' of (s', t') \<Rightarrow> s' = s \<and> committed t' = committed t
       \<and> (\<forall>i. r = Inr i \<longrightarrow> (\<exists>d. working t = Some d \<and> runs q d \<and> working t' = Some (apply_sql i q d)))"
    unfolding writes_tx_def both_def by fastforce
qed

section \<open>Outcomes of the operations\<close>

text \<open>The user ids that a set of strings denotes.\<close>

definition ids_of :: "string set \<Rightarrow> int64 set" where
  "ids_of S = {i. \<exists>x \<in> S. x \<noteq> [] \<and> ParseInt x = Inr i}"

lemma FormatInt_Nil [simp]: "FormatInt u \<noteq> []"
  by (simp add: FormatInt_def Let_def)

lemma ids_of_simps [simp]:
  "ids_of {} = {}" "ids_of (insert (FormatInt u) S) = insert u (ids_of S)"
  by (auto simp: ids_of_def)

lemma ids_of_union [simp]: "ids_of (S \<union> T) = ids_of S \<union> ids_of T"
  by (auto simp: ids_of_def)

lemma parse_ids_set: "set (parse_ids ss) = {i. \<exists>x \<in> set ss. ParseInt x = Inr i}"
  by (induction ss) (auto split: sum.splits)

lemma group_keys [simp]:
  "groupMembersKey r \<noteq> userJoinedKey u" "userJoinedKey u \<noteq> groupMembersKey r"
  "groupMembersKey r = groupMembersKey r' \<longleftrightarrow> r = r'" "userJoinedKey u = userJoinedKey u' \<longleftrightarrow> u = u'"
  "groupsDirtyKey \<noteq> usersDirtyKey" "usersDirtyKey \<noteq> groupsDirtyKey"
  by (auto simp: groupMembersKey_def userJoinedKey_def groupsDirtyKey_def usersDirtyKey_def)

lemma touch_reads:
  assumes "group_laws env sv tv" "reads (both sv tv) k P"
  shows "reads (both sv tv) (touch (geRedis env) d m key ttl k) P"
  unfolding touch_def
  by (rule reads_call [OF group_redis(9) [OF assms(1)]])
     (auto intro!: reads_ignoring group_redis(11,12) [OF assms(1)] reads_mono [OF assms(2)])

lemma members_read:
  assumes "group_laws env sv tv"
  shows "reads (both sv tv) (GetRoomMemberIDsCache env r) (\<lambda>s. on_ok (\<lambda>ms. set ms = ids_of (sets (fst s) (groupMembersKey r))))"
  unfolding GetRoomMemberIDsCache_def Let_def
  by (rule reads_call [OF group_redis(7) [OF assms]])
     (auto intro!: touch_reads [OF assms] reads_return simp: on_ok_def parse_ids_set ids_of_def simp del: return_simp)

lemma joined_read:
  assumes "group_laws env sv tv"
  shows "reads (both sv tv) (GetUserJoinedRoomsCache env u) (\<lambda>s. on_ok (\<lambda>ms. set ms = ids_of (sets (fst s) (userJoinedKey u))))"
  unfolding GetUserJoinedRoomsCache_def Let_def
  by (rule reads_call [OF group_redis(7) [OF assms]])
     (auto intro!: touch_reads [OF assms] reads_return simp: on_ok_def parse_ids_set ids_of_def simp del: return_simp)

lemma try_mutates:
  assumes "mutates vw m f" "post vw (f s) k Q" "\<And>e. Q (Some e) s" "\<And>e. Q (Some e) (f s)"
  shows "post vw s (try_call m k) Q"
  unfolding try_call_def by (rule call_mutates [OF assms(1,2)]) (auto intro: assms(3,4) simp del: return_simp)

definition marked :: "string \<Rightarrow> store \<Rightarrow> string set" where
  "marked k s = snd ` set (zsets s k)"

lemma marked_zadd [simp]: "snd ` set (zadd sc m l) = insert m (snd ` set l)"
  by (auto simp: zadd_def set_insort_key)

lemma marked_zrem [simp]: "snd ` set (zrem ms l) = snd ` set l - set ms"
  by (auto simp: zrem_def)

definition added :: "int \<Rightarrow> int64 \<Rightarrow> int64 \<Rightarrow> store \<Rightarrow> store" where
  "added now r u s = s\<lparr>
     sets := (sets s)(groupMembersKey r := sets s (groupMembersKey r) \<union> {FormatInt u},
                      userJoinedKey u := sets s (userJoinedKey u) \<union> {FormatInt r}),
     zsets := (zsets s)(groupsDirtyKey := zadd (of_int now) (FormatInt r) (zsets s groupsDirtyKey),
                        usersDirtyKey := zadd (of_int now) (FormatInt u) (zsets s usersDirtyKey))\<rparr>"

text \<open>Adding a member never touches the tables; if it reports success the sets and marks are all written.\<close>

lemma add_post:
  assumes "group_laws env sv tv"
  shows "post (both sv tv) (s, t) (AddRoomMemberCache env now r u)
    (\<lambda>e (s', t'). t' = t \<and> (e = None \<longrightarrow> s' = added now r u s))"
  unfolding AddRoomMemberCache_def Let_def
  by (intro try_mutates [OF group_redis(1) [OF assms]] try_mutates [OF group_redis(4) [OF assms]]
        ignoring_reads [OF group_redis(12) [OF assms]] post_return) (simp_all add: added_def)

definition replaced :: "int64 \<Rightarrow> int64 list \<Rightarrow> db \<Rightarrow> db" where
  "replaced r ms d = d\<lparr>dMembers := (dMembers d)(r := Some (map default_member ms))\<rparr>"

definition created :: "int64 \<Rightarrow> db \<Rightarrow> db" where
  "created r d = apply_sql 0 (CreateMembersSql r) d"

lemma created_exec: "apply_sql i (CreateMembersSql r) d = created r d"
  by (simp add: created_def)

lemma replaced_steps:
  "apply_sql i (DeleteMembersSql r) (created r d) = replaced r [] d"
  "apply_sql i (InsertMembersSql r ms) (replaced r [] d) = replaced r ms d"
  by (auto simp: created_def replaced_def update_members_def fun_eq_iff split: option.split)

text \<open>The transaction replaces all rows or leaves the table as it is, created at most.\<close>

lemma replace_post:
  assumes "group_laws env sv tv"
  shows "post (both sv tv) (s, t) (replace_members env r ms)
    (\<lambda>e (s', t'). s' = s \<and> (e = None \<longrightarrow> committed t' = replaced r ms (committed t))
       \<and> (committed t' = committed t \<or> committed t' = created r (committed t)
            \<or> committed t' = replaced r ms (committed t)))" (is "post ?V _ _ ?Q")
proof -
  let ?c = "created r (committed t)"
  let ?commit = "try_call (dbCommit (geDB env)) (return None)"
  let ?undo = "\<lambda>e. ignoring (dbRollback (geDB env)) (return (Some e))"
  let ?insert = "if ms = [] then ?commit
      else on_call (dbTxExec (geDB env) (InsertMembersSql r ms)) ?undo (\<lambda>_. ?commit)"
  let ?delete = "on_call (dbTxExec (geDB env) (DeleteMembersSql r)) ?undo (\<lambda>_. ?insert)"
  have commit: "post ?V (s, t2) ?commit ?Q"
    if "committed t2 = ?c" "working t2 = Some (replaced r ms (committed t))" for t2
    by (rule try_mutates [OF group_db(6) [OF assms]]) (use that in \<open>auto intro!: post_return\<close>)
  have undo: "post ?V (s, t2) (?undo e) ?Q" if "committed t2 = ?c" for t2 e
    unfolding ignoring_def
    by (rule call_mutates [OF group_db(7) [OF assms]]) (use that in \<open>auto intro!: post_return\<close>)
  have insert: "post ?V (s, t2) ?insert ?Q"
    if "committed t2 = ?c" "working t2 = Some (replaced r [] (committed t))" for t2
  proof (cases "ms = []")
    case True
    with commit [of t2] that show ?thesis by simp
  next
    case False
    show ?thesis unfolding if_not_P [OF False]
      by (rule post_call [OF dbTxExec_post [OF assms]])
         (use that in \<open>auto simp: replaced_steps simp del: apply_sql.simps return_simp intro!: commit undo\<close>)
  qed
  have delete: "post ?V (s, t2) ?delete ?Q" if "committed t2 = ?c" "working t2 = Some ?c" for t2
    by (rule post_call [OF dbTxExec_post [OF assms]])
       (use that in \<open>auto simp: replaced_steps simp del: apply_sql.simps return_simp split del: if_split intro!: insert undo\<close>)
  have tx: "post ?V (s, t1) (try_call (dbBegin (geDB env)) ?delete) ?Q" if "committed t1 = ?c" for t1
    by (rule try_mutates [OF group_db(5) [OF assms]]) (use that delete in auto)
  show ?thesis unfolding replace_members_def Let_def CreateRoomMemberTable_def
    by (rule post_then [OF exec_post [OF assms]])
       (auto simp: stepped_def created_exec simp del: apply_sql.simps return_simp
          intro!: tx post_return split: option.split split del: if_split)
qed

text \<open>
  The second half of a flush: either everything happened, or the mark stays and the table is replaced,
  created or left alone; or the table was replaced and the pipeline failed.
\<close>

definition unmark :: "string \<Rightarrow> string \<Rightarrow> store \<Rightarrow> store" where
  "unmark k m s = s\<lparr>zsets := (zsets s)(k := zrem [m] (zsets s k))\<rparr>"

definition flush_outcome :: "int64 \<Rightarrow> int64 set \<Rightarrow> store \<times> tables \<Rightarrow> store \<times> tables \<Rightarrow> bool" where
  "flush_outcome r S st st' \<longleftrightarrow>
     (fst st' = fst st \<and> (committed (snd st') = committed (snd st) \<or> committed (snd st') = created r (committed (snd st))))
   \<or> (\<exists>ms. set ms = S \<and> committed (snd st') = replaced r ms (committed (snd st))
        \<and> (fst st' = fst st \<or> fst st' = unmark groupsDirtyKey (FormatInt r) (fst st)))"

lemma flush_outcomeI:
  "committed t' = committed t \<or> committed t' = created r (committed t) \<Longrightarrow> flush_outcome r S (s, t) (s, t')"
  "committed t' = replaced r ms (committed t) \<Longrightarrow> s' = s \<or> s' = unmark groupsDirtyKey (FormatInt r) s \<Longrightarrow>
     flush_outcome r (set ms) (s, t) (s', t')"
  unfolding flush_outcome_def by auto

lemma flush_rest_post:
  assumes "group_laws env sv tv"
  shows "post (both sv tv) st (flush_rest env r ms) (\<lambda>_. flush_outcome r (set ms) st)"
proof -
  obtain s t where st: "st = (s, t)" by (cases st)
  let ?pipe = "ignoring (geZRemExpire env groupsDirtyKey (FormatInt r) (groupMembersKey r) (getPostFlushTTL env)) (return ())"
  have pipe: "post (both sv tv) (s, t') ?pipe (\<lambda>_. flush_outcome r (set ms) (s, t))"
    if "committed t' = replaced r ms (committed t)" for t'
    unfolding ignoring_def
    by (rule call_mutates [OF group_redis(6) [OF assms]]; rule post_return)
       (use that in \<open>auto simp: unmark_def intro!: flush_outcomeI(2)\<close>)
  show ?thesis unfolding flush_rest_def st
    by (rule post_then [OF replace_post [OF assms]])
       (auto simp del: return_simp split: option.split intro!: pipe post_return intro: flush_outcomeI)
qed

lemma flush_group_post:
  assumes "group_laws env sv tv"
  shows "post (both sv tv) st (flush_group env r) (\<lambda>_. flush_outcome r (ids_of (sets (fst st) (groupMembersKey r))) st)"
  unfolding flush_group_def
proof (rule call_reads [OF members_read [OF assms]])
  fix ms assume "on_ok (\<lambda>ms. set ms = ids_of (sets (fst st) (groupMembersKey r))) (Inr ms)"
  then have "set ms = ids_of (sets (fst st) (groupMembersKey r))" by (simp add: on_ok_def)
  with flush_rest_post [OF assms, of st r ms]
  show "post (both sv tv) st (flush_rest env r ms) (\<lambda>_. flush_outcome r (ids_of (sets (fst st) (groupMembersKey r))) st)"
    by simp
qed (auto simp: flush_outcome_def intro: post_return)

section \<open>What a flush keeps\<close>

text \<open>
  A room is in step when it is marked, or its key is gone from the cache, or its table holds the cached
  members.
\<close>

definition rows_of :: "int64 \<Rightarrow> db \<Rightarrow> int64 set option" where
  "rows_of r d = map_option (\<lambda>rows. mbUser ` set rows) (dMembers d r)"

definition in_step :: "store \<Rightarrow> tables \<Rightarrow> int64 \<Rightarrow> bool" where
  "in_step s t r \<longleftrightarrow> FormatInt r \<in> marked groupsDirtyKey s \<or> ids_of (sets s (groupMembersKey r)) = {}
     \<or> rows_of r (committed t) = Some (ids_of (sets s (groupMembersKey r)))"

lemma rows_of_simps [simp]:
  "rows_of r (replaced r' ms d) = (if r = r' then Some (set ms) else rows_of r d)"
  "rows_of r d = Some X \<Longrightarrow> rows_of r (created r' d) = Some X"
  by (auto simp: rows_of_def replaced_def created_def default_member_def image_image split: option.split)

lemma marked_unmark [simp]: "marked k (unmark k m s) = marked k s - {m}"
  by (simp add: marked_def unmark_def)

lemma sets_unmark [simp]: "sets (unmark k m s) = sets s"
  by (simp add: unmark_def)

lemma flush_outcome_in_step:
  assumes "flush_outcome r (ids_of (sets (fst st) (groupMembersKey r))) st st'" "in_step (fst st) (snd st) q"
  shows "in_step (fst st') (snd st') q"
  using assms by (auto simp: flush_outcome_def in_step_def split: if_splits)

lemma marked_simps [simp]:
  "snd ` set (zsets s k) = marked k s" "marked k (s\<lparr>zsets := Z\<rparr>) = snd ` set (Z k)" "marked k (s\<lparr>sets := X\<rparr>) = marked k s"
  "marked k (s\<lparr>sets := X, zsets := Z\<rparr>) = snd ` set (Z k)"
  by (simp_all add: marked_def)

text \<open>What a reported change of the membership of \<open>r\<close> has done: nothing to the tables, a mark, other rooms' keys untouched.\<close>

definition changed :: "int64 \<Rightarrow> store \<times> tables \<Rightarrow> store \<times> tables \<Rightarrow> bool" where
  "changed r st st' \<longleftrightarrow> snd st' = snd st \<and> FormatInt r \<in> marked groupsDirtyKey (fst st')
     \<and> marked groupsDirtyKey (fst st) \<subseteq> marked groupsDirtyKey (fst st')
     \<and> (\<forall>q. q \<noteq> r \<longrightarrow> sets (fst st') (groupMembersKey q) = sets (fst st) (groupMembersKey q))"

lemma changed_in_step:
  "changed r st st' \<Longrightarrow> in_step (fst st) (snd st) q \<Longrightarrow> in_step (fst st') (snd st') q"
  by (cases "q = r") (auto simp: changed_def in_step_def)

lemma added_changed: "changed r (s, t) (added now r u s, t)"
  by (auto simp: changed_def added_def)

lemma add_changed:
  "group_laws env sv tv \<Longrightarrow> post (both sv tv) st (AddRoomMemberCache env now r u) (\<lambda>e st'. e = None \<longrightarrow> changed r st st')"
  by (cases st, simp only:, rule post_mono [OF add_post]) (auto simp: added_changed)

lemma try_unless_nil_mutates:
  assumes "mutates vw m f" "post vw (f s) k Q" "post vw s k Q" "\<And>e. Q (Some e) s" "\<And>e. Q (Some e) (f s)"
  shows "post vw s (try_unless_nil m k) Q"
  unfolding try_unless_nil_def
  by (rule call_mutates [OF assms(1,2)]) (auto intro: assms(2-5) simp del: return_simp)

lemma remove_changed:
  assumes "group_laws env sv tv"
  shows "post (both sv tv) st (RemoveRoomMemberCache env now r u) (\<lambda>e st'. e = None \<longrightarrow> changed r st st')"
  unfolding RemoveRoomMemberCache_def Let_def
  by (intro try_unless_nil_mutates [OF group_redis(3) [OF assms]] try_mutates [OF group_redis(4) [OF assms]]
        ignoring_reads [OF group_redis(11) [OF assms]] ignoring_reads [OF group_redis(12) [OF assms]] post_return)
     (auto simp: changed_def)

lemma add_members_changed:
  assumes "group_laws env sv tv"
  shows "post (both sv tv) st (AddRoomMembersCache env now r us) (\<lambda>e st'. e = None \<longrightarrow> changed r st st')"
proof -
  let ?V = "both sv tv" and ?rd = "geRedis env"
  let ?users = "for_each_err (\<lambda>u. try_call (SAddWithRetry ?rd 3 (userJoinedKey u) [FormatInt r])
                 (try_call (cZAdd ?rd usersDirtyKey (of_int now) (FormatInt u)) (return None))) us"
  let ?persist = "for_each (\<lambda>u. ignoring (cPersist ?rd (userJoinedKey u)) (return ())) us"
  let ?Q = "\<lambda>e st'. e = None \<longrightarrow> changed r st st'"
  define ok where "ok st1 \<longleftrightarrow> snd st1 = snd st \<and> marked groupsDirtyKey (fst st1) = marked groupsDirtyKey (fst st)
     \<and> (\<forall>q. q \<noteq> r \<longrightarrow> sets (fst st1) (groupMembersKey q) = sets (fst st) (groupMembersKey q))" for st1
  have users: "post ?V st1 ?users (\<lambda>_. ok)" if "ok st1" for st1
  proof (rule post_for_each_err [where I = ok])
    fix u st2 assume "ok st2"
    then show "post ?V st2 (try_call (SAddWithRetry ?rd 3 (userJoinedKey u) [FormatInt r])
       (try_call (cZAdd ?rd usersDirtyKey (of_int now) (FormatInt u)) (return None))) (\<lambda>_. ok)"
      by (intro try_mutates [OF group_redis(1) [OF assms]] try_mutates [OF group_redis(4) [OF assms]] post_return)
         (auto simp: ok_def)
  qed (rule that)
  have persist: "post ?V st1 ?persist (\<lambda>_ st2. st2 = st1)" for st1
    by (rule post_for_each) (auto intro!: ignoring_reads [OF group_redis(12) [OF assms]] post_return simp del: return_simp)
  have marking: "post ?V st1 (try_call (cZAdd ?rd groupsDirtyKey (of_int now) (FormatInt r))
      (ignoring (cPersist ?rd (groupMembersKey r)) (then_io ?persist (\<lambda>_. return None)))) ?Q" if "ok st1" for st1
    by (intro try_mutates [OF group_redis(4) [OF assms]] ignoring_reads [OF group_redis(12) [OF assms]]
          post_then [OF persist])
       (use that in \<open>auto simp: ok_def changed_def intro!: post_return simp del: return_simp\<close>)
  have rest: "post ?V st1 (then_io ?users (\<lambda>e. case e of Some err \<Rightarrow> return (Some err)
      | None \<Rightarrow> try_call (cZAdd ?rd groupsDirtyKey (of_int now) (FormatInt r))
         (ignoring (cPersist ?rd (groupMembersKey r)) (then_io ?persist (\<lambda>_. return None))))) ?Q" if "ok st1" for st1
    by (rule post_then [OF users [OF that]]) (auto split: option.split intro!: marking post_return simp del: return_simp)
  have ok: "ok st" "ok (apfst (\<lambda>s. s\<lparr>sets := (sets s)(groupMembersKey r := sets s (groupMembersKey r) \<union> X)\<rparr>) st)"
    "ok st1 \<Longrightarrow> ok (apfst (\<lambda>s. s\<lparr>sets := (sets s)(groupMembersKey r := sets s (groupMembersKey r) \<union> X)\<rparr>) st1)" for X st1
    by (auto simp: ok_def)
  show ?thesis unfolding AddRoomMembersCache_def Let_def
    by (rule call_mutates [OF group_redis(2) [OF assms]])
       (intro rest ok try_mutates [OF group_redis(1) [OF assms]]; simp)+
qed

text \<open>Reading a room may fill its key from the table.\<close>

lemma ids_of_FormatInt [simp]: "ids_of (FormatInt ` X) = X"
  by (auto simp: ids_of_def)

definition filled :: "int64 \<Rightarrow> store \<times> tables \<Rightarrow> store \<times> tables \<Rightarrow> bool" where
  "filled r st st' \<longleftrightarrow> st' = st \<or> (\<exists>X. rows_of r (committed (snd st)) = Some X
     \<and> st' = apfst (\<lambda>s. s\<lparr>sets := (sets s)(groupMembersKey r := sets s (groupMembersKey r) \<union> FormatInt ` X)\<rparr>) st)"

lemma query_filled:
  assumes "group_laws env sv tv"
  shows "post (both sv tv) st (QueryRoomMemberIDs env r) (\<lambda>_. filled r st)"
proof -
  let ?fill = "\<lambda>ids. ignoring (cSAdd (geRedis env) (groupMembersKey r) (map FormatInt ids)) (return (Inr ids))"
  have fill: "post (both sv tv) st (?fill (map mbUser rows)) (\<lambda>_. filled r st)"
    if "dMembers (committed (snd st)) r = Some rows" for rows
    unfolding ignoring_def
    by (rule call_mutates [OF group_redis(2) [OF assms]]; rule post_return)
       (use that in \<open>auto simp: filled_def rows_of_def image_image\<close>)
  have fallback: "post (both sv tv) st (on_call (dbMemberIDs (geDB env) r) (\<lambda>e. return (Inl e))
      (\<lambda>ids. if ids = [] then return (Inr ids) else ?fill ids)) (\<lambda>_. filled r st)"
    by (rule call_reads [OF group_db(8) [OF assms]])
       (auto simp: on_ok_def filled_def [of r st st] simp del: return_simp intro!: post_return fill)
  show ?thesis unfolding QueryRoomMemberIDs_def Let_def
    by (rule call_reads [OF members_read [OF assms]])
       (auto simp: filled_def [of r st st] simp del: return_simp split del: if_split split: if_split
          intro!: post_return fallback)
qed

lemma filled_in_step: "filled r st st' \<Longrightarrow> in_step (fst st) (snd st) q \<Longrightarrow> in_step (fst st') (snd st') q"
  by (cases "q = r") (auto simp: filled_def in_step_def)

lemma process_in_step:
  assumes "group_laws env sv tv" "\<forall>q. in_step (fst st) (snd st) q"
  shows "post (both sv tv) st (processDirtyGroups env n) (\<lambda>_ st'. \<forall>q. in_step (fst st') (snd st') q)"
  unfolding processDirtyGroups_def PopDirtyGroups_def
proof (rule call_reads [where P = "\<lambda>_ _. True"])
  show "reads (both sv tv) (on_call (cZRange (geRedis env) groupsDirtyKey 0 (n - 1)) (\<lambda>e. return (Inl e))
     (\<lambda>vals. return (Inr (parse_ids vals)))) (\<lambda>_ _. True)"
    by (rule reads_call [OF group_redis(10) [OF assms(1)]]) (auto intro: reads_return simp del: return_simp)
  show "post (both sv tv) st (for_each (flush_group env) ids) (\<lambda>_ st'. \<forall>q. in_step (fst st') (snd st') q)" for ids
  proof (rule post_for_each)
    fix r st1 assume "\<forall>q. in_step (fst st1) (snd st1) q"
    then show "post (both sv tv) st1 (flush_group env r) (\<lambda>_ st'. \<forall>q. in_step (fst st') (snd st') q)"
      using flush_outcome_in_step by (blast intro: post_mono [OF flush_group_post [OF assms(1)]])
  qed (rule assms(2))
qed (use assms(2) in \<open>auto intro: post_return simp del: return_simp\<close>)

lemma both_simps [simp]: "fst (both sv tv w) = sv w" "snd (both sv tv w) = tv w"
  by (simp_all add: both_def)

text \<open>A flush that removes the mark has replaced all rows.\<close>

lemma flush_completed:
  assumes "flush_outcome r S (both sv tv w) (both sv tv w')" "FormatInt r \<in> marked groupsDirtyKey (sv w)"
    "FormatInt r \<notin> marked groupsDirtyKey (sv w')"
  shows "rows_of r (committed (tv w')) = Some S \<and> sets (sv w') = sets (sv w)"
    and "\<exists>ms. set ms = S \<and> dMembers (committed (tv w')) r = Some (map default_member ms)"
proof -
  from assms obtain ms where ms: "set ms = S" "committed (tv w') = replaced r ms (committed (tv w))"
    "sv w' = unmark groupsDirtyKey (FormatInt r) (sv w)"
    unfolding flush_outcome_def both_simps by metis
  then show "rows_of r (committed (tv w')) = Some S \<and> sets (sv w') = sets (sv w)" by simp
  from ms show "\<exists>ms. set ms = S \<and> dMembers (committed (tv w')) r = Some (map default_member ms)"
    by (auto simp: replaced_def)
qed

section \<open>Requests and flushes, one after another\<close>

text \<open>
  A membership request that reports success, a look-up, a pass of the flusher over the marked rooms, or
  the expiry of a room's key.
\<close>

inductive group_step :: "'w group_env \<Rightarrow> ('w \<Rightarrow> store) \<Rightarrow> ('w \<Rightarrow> tables) \<Rightarrow> 'w \<Rightarrow> 'w \<Rightarrow> bool"
  for env sv tv where
  gs_add: "AddRoomMemberCache env now r u w = (None, w') \<Longrightarrow> group_step env sv tv w w'"
| gs_add_many: "AddRoomMembersCache env now r us w = (None, w') \<Longrightarrow> group_step env sv tv w w'"
| gs_remove: "RemoveRoomMemberCache env now r u w = (None, w') \<Longrightarrow> group_step env sv tv w w'"
| gs_query: "QueryRoomMemberIDs env r w = (ids, w') \<Longrightarrow> group_step env sv tv w w'"
| gs_flush: "processDirtyGroups env n w = ((), w') \<Longrightarrow> group_step env sv tv w w'"
| gs_expire: "sv w' = (sv w)\<lparr>sets := (sets (sv w))(groupMembersKey r := {})\<rparr> \<Longrightarrow> tv w' = tv w \<Longrightarrow>
    group_step env sv tv w w'"

lemma group_step_in_step:
  assumes "group_laws env sv tv" "group_step env sv tv w w'" "\<forall>q. in_step (sv w) (tv w) q"
  shows "\<forall>q. in_step (sv w') (tv w') q"
  using assms(2)
proof cases
  case (gs_expire r)
  with assms(3) show ?thesis by (auto simp: in_step_def)
next
  case (gs_query r ids)
  from postD [OF query_filled [OF assms(1)] refl this] assms(3) filled_in_step [of r "both sv tv w" "both sv tv w'"]
  show ?thesis by simp
next
  case (gs_flush n)
  from postD [OF process_in_step [OF assms(1)] refl this] assms(3) show ?thesis by simp
next
  case (gs_add now r u)
  from postD [OF add_changed [OF assms(1)] refl this] assms(3) changed_in_step [of r "both sv tv w" "both sv tv w'"]
  show ?thesis by simp
next
  case (gs_add_many now r us)
  from postD [OF add_members_changed [OF assms(1)] refl this] assms(3) changed_in_step [of r "both sv tv w" "both sv tv w'"]
  show ?thesis by simp
next
  case (gs_remove now r u)
  from postD [OF remove_changed [OF assms(1)] refl this] assms(3) changed_in_step [of r "both sv tv w" "both sv tv w'"]
  show ?thesis by simp
qed


text \<open>
  C23: a member added while the room's key is absent (it expires seconds after every flush) is the only
  member left once the room is flushed: the set is not reloaded from the table before the change, and
  the flush replaces all rows by the set. Until then reads of the cache answer with this member alone.
\<close>

theorem late_add_loses_members:
  assumes laws: "group_laws env sv tv" and gone: "sets (sv w) (groupMembersKey r) = {}"
    and add: "AddRoomMemberCache env now r u w = (None, w1)"
    and flush: "flush_group env r w1 = ((), w2)" and unmarked: "FormatInt r \<notin> marked groupsDirtyKey (sv w2)"
  shows "rows_of r (committed (tv w2)) = Some {u}
    \<and> (\<forall>ms w3. GetRoomMemberIDsCache env r w1 = (Inr ms, w3) \<longrightarrow> set ms = {u})"
proof (intro conjI allI impI)
  from postD [OF add_post [OF laws], of w "sv w" "tv w"] add have "sv w1 = added now r u (sv w)"
    by (simp add: both_def)
  with gone have key: "sets (sv w1) (groupMembersKey r) = {FormatInt u}" "FormatInt r \<in> marked groupsDirtyKey (sv w1)"
    by (simp_all add: added_def)
  from flush_completed(1) [OF postD [OF flush_group_post [OF laws] refl flush] key(2) unmarked]
  show "rows_of r (committed (tv w2)) = Some {u}" unfolding both_simps key(1) by simp
  show "set ms = {u}" if "GetRoomMemberIDsCache env r w1 = (Inr ms, w3)" for ms w3
  proof -
    from readsD [OF members_read [OF laws] that]
    have "set ms = ids_of (sets (sv w1) (groupMembersKey r))" by (simp add: on_ok_def)
    then show ?thesis unfolding key(1) by simp
  qed
qed


end
