(* ===== verification/WriteBack.thy ===== *)
theory WriteBack
  imports GroupFlush
begin

text \<open>
  The write-back that rooms and users share, as an interface: an item is marked in a sorted set, its
  cached ids are read, stored, and the mark is removed. The locale states what one flush of one item
  promises and derives what a pass over all marked items does; the rooms and the users of
  \<open>flusher.go\<close> are its two instances. A user's rooms are stored as comma-separated text.
\<close>

section \<open>The interface\<close>

text \<open>What a pass promises: the cache is untouched, and whatever lost its mark is stored.\<close>

definition pass_kept :: "string \<Rightarrow> (int64 \<Rightarrow> string) \<Rightarrow> (int64 \<Rightarrow> db \<Rightarrow> int64 set option) \<Rightarrow> (int64 \<Rightarrow> db \<Rightarrow> bool) \<Rightarrow>
    store \<times> tables \<Rightarrow> store \<times> tables \<Rightarrow> bool" where
  "pass_kept mark key saved storable st st' \<longleftrightarrow> sets (fst st') = sets (fst st)
     \<and> (\<forall>i. storable i (committed (snd st)) \<longrightarrow> storable i (committed (snd st'))
          \<and> (FormatInt i \<in> marked mark (fst st) \<longrightarrow> FormatInt i \<notin> marked mark (fst st') \<longrightarrow>
               saved i (committed (snd st')) = Some (ids_of (sets (fst st) (key i)))))"

locale write_back =
  fixes flush :: "'e \<Rightarrow> int64 \<Rightarrow> ('w, unit) io"
    and lawful :: "'e \<Rightarrow> ('w \<Rightarrow> store \<times> tables) \<Rightarrow> bool"
    and mark :: string
    and key :: "int64 \<Rightarrow> string"
    and saved :: "int64 \<Rightarrow> db \<Rightarrow> int64 set option"
    and storable :: "int64 \<Rightarrow> db \<Rightarrow> bool"
  assumes flush_others: "lawful e vw \<Longrightarrow> post vw st (flush e i) (\<lambda>_ st'. sets (fst st') = sets (fst st)
        \<and> (\<forall>j. storable j (committed (snd st)) \<longrightarrow> storable j (committed (snd st')))
        \<and> (\<forall>j. j \<noteq> i \<longrightarrow> saved j (committed (snd st')) = saved j (committed (snd st))
             \<and> (FormatInt j \<in> marked mark (fst st') \<longleftrightarrow> FormatInt j \<in> marked mark (fst st))))"
    and flush_completes: "lawful e vw \<Longrightarrow> storable i (committed (snd st)) \<Longrightarrow>
      post vw st (flush e i) (\<lambda>_ st'.
        FormatInt i \<in> marked mark (fst st) \<and> FormatInt i \<notin> marked mark (fst st')
          \<or> saved i (committed (snd st)) = Some (ids_of (sets (fst st) (key i))) \<longrightarrow>
        saved i (committed (snd st')) = Some (ids_of (sets (fst st) (key i))))"
begin

abbreviation kept :: "store \<times> tables \<Rightarrow> store \<times> tables \<Rightarrow> bool" where
  "kept \<equiv> pass_kept mark key saved storable"

lemma flush_kept:
  assumes law: "lawful e vw" and k: "kept st st1"
  shows "post vw st1 (flush e i) (\<lambda>_. kept st)"
proof -
  let ?c = "\<lambda>j. Some (ids_of (sets (fst st) (key j)))"
  from k have k': "sets (fst st1) = sets (fst st)"
    "\<And>j. storable j (committed (snd st)) \<Longrightarrow> storable j (committed (snd st1))"
    "\<And>j. storable j (committed (snd st)) \<Longrightarrow> FormatInt j \<in> marked mark (fst st) \<Longrightarrow>
       FormatInt j \<notin> marked mark (fst st1) \<Longrightarrow> saved j (committed (snd st1)) = ?c j"
    by (auto simp: pass_kept_def)
  have "post vw st1 (flush e i) (\<lambda>_ t. storable i (committed (snd st1)) \<longrightarrow>
      FormatInt i \<in> marked mark (fst st1) \<and> FormatInt i \<notin> marked mark (fst t)
        \<or> saved i (committed (snd st1)) = ?c i \<longrightarrow> saved i (committed (snd t)) = ?c i)"
  proof (cases "storable i (committed (snd st1))")
    case True
    from flush_completes [OF law True] show ?thesis by (rule post_mono) (simp add: k'(1))
  next
    case False
    from flush_others [OF law] show ?thesis by (rule post_mono) (simp add: False)
  qed
  from post_conj [OF flush_others [OF law] this] show ?thesis
  proof (rule post_mono)
    fix t :: "store \<times> tables" assume t: "(sets (fst t) = sets (fst st1) \<and> (\<forall>j. storable j (committed (snd st1)) \<longrightarrow> storable j (committed (snd t)))
       \<and> (\<forall>j. j \<noteq> i \<longrightarrow> saved j (committed (snd t)) = saved j (committed (snd st1))
             \<and> (FormatInt j \<in> marked mark (fst t) \<longleftrightarrow> FormatInt j \<in> marked mark (fst st1))))
       \<and> (storable i (committed (snd st1)) \<longrightarrow>
      FormatInt i \<in> marked mark (fst st1) \<and> FormatInt i \<notin> marked mark (fst t)
        \<or> saved i (committed (snd st1)) = ?c i \<longrightarrow> saved i (committed (snd t)) = ?c i)"
    have "saved j (committed (snd t)) = ?c j"
      if "storable j (committed (snd st))" "FormatInt j \<in> marked mark (fst st)" "FormatInt j \<notin> marked mark (fst t)" for j
      using that t k'(2,3) [of j] by (cases "j = i") auto
    with t k' show "kept st t" by (simp add: pass_kept_def)
  qed
qed

lemma pass_kept:
  assumes "lawful e vw"
  shows "post vw st (for_each (flush e) is) (\<lambda>_. kept st)"
  by (rule post_for_each) (auto intro: flush_kept [OF assms] simp: pass_kept_def)

end

section \<open>Rooms\<close>

definition both_lawful :: "'w group_env \<Rightarrow> ('w \<Rightarrow> store \<times> tables) \<Rightarrow> bool" where
  "both_lawful env vw \<longleftrightarrow> (\<exists>sv tv. vw = both sv tv \<and> group_laws env sv tv)"

lemma both_lawfulI: "group_laws env sv tv \<Longrightarrow> both_lawful env (both sv tv)"
  unfolding both_lawful_def by blast

interpretation rooms: write_back flush_group both_lawful groupsDirtyKey groupMembersKey rows_of "\<lambda>r d. dMembers d r \<noteq> None"
proof
  fix env :: "'a group_env" and vw st i
  assume "both_lawful env vw"
  then obtain sv tv where L: "group_laws env sv tv" "vw = both sv tv" unfolding both_lawful_def by blast
  note P = flush_group_post [OF L(1), of st i, folded L(2)]
  show "post vw st (flush_group env i) (\<lambda>_ st'. sets (fst st') = sets (fst st)
        \<and> (\<forall>j. dMembers (committed (snd st)) j \<noteq> None \<longrightarrow> dMembers (committed (snd st')) j \<noteq> None)
        \<and> (\<forall>j. j \<noteq> i \<longrightarrow> rows_of j (committed (snd st')) = rows_of j (committed (snd st))
             \<and> (FormatInt j \<in> marked groupsDirtyKey (fst st') \<longleftrightarrow> FormatInt j \<in> marked groupsDirtyKey (fst st))))"
    by (rule post_mono [OF P]) (auto simp: flush_outcome_def replaced_def created_def rows_of_def)
  assume "dMembers (committed (snd st)) i \<noteq> None"
  then obtain X where X: "rows_of i (committed (snd st)) = Some X" by (auto simp: rows_of_def)
  show "post vw st (flush_group env i) (\<lambda>_ st'.
        FormatInt i \<in> marked groupsDirtyKey (fst st) \<and> FormatInt i \<notin> marked groupsDirtyKey (fst st')
          \<or> rows_of i (committed (snd st)) = Some (ids_of (sets (fst st) (groupMembersKey i))) \<longrightarrow>
        rows_of i (committed (snd st')) = Some (ids_of (sets (fst st) (groupMembersKey i))))"
    by (rule post_mono [OF P]) (use X in \<open>auto simp: flush_outcome_def\<close>)
qed

section \<open>Users\<close>

text \<open>Splitting what was joined.\<close>

lemma split_on_fresh: "c \<notin> set xs \<Longrightarrow> split_on c (xs @ c # ys) = xs # split_on c ys"
  by (induction xs) auto

lemma format_nat_chars: "x \<in> set (format_nat n) \<Longrightarrow> \<exists>d < 10. x = digit_char d"
proof (induction n rule: format_nat.induct)
  case (1 n)
  from 1(2) have "x \<in> set (if n < 10 then [digit_char n] else format_nat (n div 10) @ [digit_char (n mod 10)])"
    by (subst (asm) format_nat.simps)
  moreover have "\<exists>d < 10. digit_char (n mod 10) = digit_char d" by (intro exI [of _ "n mod 10"]) simp
  ultimately show ?case using 1(1) by (cases "n < 10") auto
qed

lemma digit_char_not_comma: "d < 10 \<Longrightarrow> digit_char d \<noteq> CHR '',''"
proof
  assume "d < 10" "digit_char d = CHR '',''"
  then have "char_digit CHR '','' = Some d" using char_digit_digit by metis
  then show False by (simp add: char_digit_def)
qed

lemma FormatInt_no_comma: "CHR '','' \<notin> set (FormatInt u)"
proof -
  have "CHR '','' \<notin> set (format_nat n)" for n
    using digit_char_not_comma format_nat_chars [of "CHR '',''" n] by metis
  then show ?thesis by (simp add: FormatInt_def Let_def)
qed

lemma csv_roundtrip: "parse_all (split_on CHR '','' (csv_of rooms)) = Inr rooms"
  by (induction rooms) (simp_all add: csv_of_def split_on_fresh [OF FormatInt_no_comma])

text \<open>The rooms in a user's row, as \<open>QueryJoinedRooms\<close> reads them.\<close>

definition joined_text :: "string option \<Rightarrow> int64 set option" where
  "joined_text c = (case c of None \<Rightarrow> Some {} | Some csv \<Rightarrow>
     if csv = [] then Some {} else (case parse_all (split_on CHR '','' csv) of Inl e \<Rightarrow> None | Inr is \<Rightarrow> Some (set is)))"

definition joined_of :: "int64 \<Rightarrow> db \<Rightarrow> int64 set option" where
  "joined_of u d = (case find (\<lambda>x. usID x = u) (dUsers d) of None \<Rightarrow> None | Some x \<Rightarrow> joined_text (usJoined x))"

lemma joined_text_csv [simp]: "joined_text (Some (csv_of rooms)) = Some (set rooms)"
proof (cases rooms)
  case (Cons r rs)
  then have "csv_of rooms \<noteq> []" by (simp add: csv_of_def)
  then show ?thesis by (simp add: joined_text_def csv_roundtrip)
qed (simp add: joined_text_def csv_of_def)

lemma find_update_where:
  "(\<And>x. p (f x) = p x) \<Longrightarrow> (\<And>x. q (f x) = q x) \<Longrightarrow>
     find p (update_where q f xs) = map_option (\<lambda>x. if q x then f x else x) (find p xs)"
  by (induction xs) (auto simp: update_where_def)

lemma joined_of_update:
  "joined_of u (apply_sql i (UpdateJoinedSql v c) d) =
     (if u = v then (if u \<in> usID ` set (dUsers d) then joined_text (Some c) else None) else joined_of u d)"
proof (cases "find (\<lambda>x. usID x = u) (dUsers d)")
  case None
  then have "u \<notin> usID ` set (dUsers d)" by (auto simp: find_None_iff)
  with None show ?thesis by (auto simp: joined_of_def find_update_where)
next
  case (Some x)
  then have "usID x = u" "u \<in> usID ` set (dUsers d)" by (auto dest: find_SomeD)
  with Some show ?thesis by (auto simp: joined_of_def find_update_where)
qed

lemma users_update: "usID ` set (dUsers (apply_sql i (UpdateJoinedSql v c) d)) = usID ` set (dUsers d)"
proof -
  have "map usID (update_where (\<lambda>x. usID x = v) (usJoined_update (\<lambda>_. Some c)) xs) = map usID xs" for xs
    by (induction xs) (auto simp: update_where_def)
  then have "map usID (dUsers (apply_sql i (UpdateJoinedSql v c) d)) = map usID (dUsers d)" by simp
  then show ?thesis by (metis set_map)
qed

definition user_outcome :: "int64 \<Rightarrow> int64 set \<Rightarrow> store \<times> tables \<Rightarrow> store \<times> tables \<Rightarrow> bool" where
  "user_outcome u S st st' \<longleftrightarrow> (fst st' = fst st \<and> committed (snd st') = committed (snd st))
   \<or> (\<exists>rooms i. set rooms = S \<and> committed (snd st') = apply_sql i (UpdateJoinedSql u (csv_of rooms)) (committed (snd st))
        \<and> (fst st' = fst st \<or> fst st' = unmark usersDirtyKey (FormatInt u) (fst st)))"

lemma flush_user_post:
  assumes "group_laws env sv tv"
  shows "post (both sv tv) st (flush_user env u) (\<lambda>_. user_outcome u (ids_of (sets (fst st) (userJoinedKey u))) st)"
  unfolding flush_user_def
proof (rule call_reads [OF joined_read [OF assms]])
  fix rooms assume "on_ok (\<lambda>ms. set ms = ids_of (sets (fst st) (userJoinedKey u))) (Inr rooms)"
  then have rooms: "set rooms = ids_of (sets (fst st) (userJoinedKey u))" by (simp add: on_ok_def)
  obtain s t where st: "st = (s, t)" by (cases st)
  let ?Q = "\<lambda>_. user_outcome u (ids_of (sets (fst st) (userJoinedKey u))) st"
  let ?pipe = "ignoring (geZRemExpire env usersDirtyKey (FormatInt u) (userJoinedKey u) (getPostFlushTTL env)) (return ())"
  have pipe: "post (both sv tv) (s, t') ?pipe ?Q"
    if "committed t' = apply_sql i (UpdateJoinedSql u (csv_of rooms)) (committed t)" for t' i
    unfolding ignoring_def
    by (rule call_mutates [OF group_redis(6) [OF assms]]; rule post_return)
       (use that rooms in \<open>auto simp: user_outcome_def unmark_def st simp del: apply_sql.simps\<close>)
  show "post (both sv tv) st (on_call (dbExec (geDB env) (UpdateJoinedSql u (csv_of rooms))) (\<lambda>_. return ()) (\<lambda>_. ?pipe)) ?Q"
    unfolding st
  proof (rule post_call [OF dbExec_post [OF assms]])
    fix v and st' :: "store \<times> tables"
    assume "case st' of (s', t') \<Rightarrow> s' = s \<and> stepped (UpdateJoinedSql u (csv_of rooms)) (\<exists>i. Inr v = Inr i) t t' \<and>
      (\<forall>i. Inr v = Inr i \<longrightarrow> fresh_row (UpdateJoinedSql u (csv_of rooms)) i (committed t)
         \<and> committed t' = apply_sql i (UpdateJoinedSql u (csv_of rooms)) (committed t))"
    with pipe [of "snd st'" v] show "post (both sv tv) st' ?pipe (\<lambda>_. user_outcome u (ids_of (sets (fst (s, t)) (userJoinedKey u))) (s, t))"
      by (cases st') (simp add: st del: apply_sql.simps)
  next
    fix e and st' :: "store \<times> tables"
    assume "case st' of (s', t') \<Rightarrow> s' = s \<and> stepped (UpdateJoinedSql u (csv_of rooms)) (\<exists>i. Inl e = Inr i) t t' \<and>
      (\<forall>i. Inl e = Inr i \<longrightarrow> fresh_row (UpdateJoinedSql u (csv_of rooms)) i (committed t)
         \<and> committed t' = apply_sql i (UpdateJoinedSql u (csv_of rooms)) (committed t))"
    then show "post (both sv tv) st' (return ()) (\<lambda>_. user_outcome u (ids_of (sets (fst (s, t)) (userJoinedKey u))) (s, t))"
      using rooms by (intro post_return) (force simp: stepped_def st user_outcome_def simp del: apply_sql.simps)
  qed
qed (auto simp: user_outcome_def intro: post_return)

interpretation users: write_back flush_user both_lawful usersDirtyKey userJoinedKey joined_of "\<lambda>u d. u \<in> usID ` set (dUsers d)"
proof
  fix env :: "'a group_env" and vw st i
  assume "both_lawful env vw"
  then obtain sv tv where L: "group_laws env sv tv" "vw = both sv tv" unfolding both_lawful_def by blast
  note P = flush_user_post [OF L(1), of st i, folded L(2)]
  show "post vw st (flush_user env i) (\<lambda>_ st'. sets (fst st') = sets (fst st)
        \<and> (\<forall>j. j \<in> usID ` set (dUsers (committed (snd st))) \<longrightarrow> j \<in> usID ` set (dUsers (committed (snd st'))))
        \<and> (\<forall>j. j \<noteq> i \<longrightarrow> joined_of j (committed (snd st')) = joined_of j (committed (snd st))
             \<and> (FormatInt j \<in> marked usersDirtyKey (fst st') \<longleftrightarrow> FormatInt j \<in> marked usersDirtyKey (fst st))))"
    by (rule post_mono [OF P]) (auto simp: user_outcome_def joined_of_update users_update simp del: apply_sql.simps)
  assume "i \<in> usID ` set (dUsers (committed (snd st)))"
  then show "post vw st (flush_user env i) (\<lambda>_ st'.
        FormatInt i \<in> marked usersDirtyKey (fst st) \<and> FormatInt i \<notin> marked usersDirtyKey (fst st')
          \<or> joined_of i (committed (snd st)) = Some (ids_of (sets (fst st) (userJoinedKey i))) \<longrightarrow>
        joined_of i (committed (snd st')) = Some (ids_of (sets (fst st) (userJoinedKey i))))"
    by (intro post_mono [OF P]) (auto simp: user_outcome_def joined_of_update simp del: apply_sql.simps)
qed

text \<open>Both passes: what the flusher's loops over the marked items promise.\<close>

lemma pop_reads:
  assumes "group_laws env sv tv"
  shows "reads (both sv tv) (PopDirtyGroups env n) (\<lambda>_ _. True)" "reads (both sv tv) (PopDirtyUsers env n) (\<lambda>_ _. True)"
  unfolding PopDirtyGroups_def PopDirtyUsers_def
  by (rule reads_call [OF group_redis(10) [OF assms]]; auto intro: reads_return simp del: return_simp)+

lemma passes_kept:
  assumes "group_laws env sv tv"
  shows "post (both sv tv) st (processDirtyGroups env n) (\<lambda>_. rooms.kept st)"
    and "post (both sv tv) st (processDirtyUsers env n) (\<lambda>_. users.kept st)"
  unfolding processDirtyGroups_def processDirtyUsers_def
  by (rule call_reads [OF pop_reads(1) [OF assms]] call_reads [OF pop_reads(2) [OF assms]],
      rule rooms.pass_kept [OF both_lawfulI [OF assms]] users.pass_kept [OF both_lawfulI [OF assms]],
      auto simp: pass_kept_def intro: post_return)+


section \<open>A world with both services\<close>

text \<open>The in-memory Redis beside tables that execute the statements, for the witnesses.\<close>

record gworld =
  gwMem :: mem
  gwTabs :: tables

definition at_mem :: "(mem, 'a) io \<Rightarrow> (gworld, 'a) io" where
  "at_mem m w = (case m (gwMem w) of (r, x) \<Rightarrow> (r, w\<lparr>gwMem := x\<rparr>))"

definition at_tabs :: "(tables \<Rightarrow> 'a \<times> tables) \<Rightarrow> (gworld, 'a) io" where
  "at_tabs f w = (case f (gwTabs w) of (r, x) \<Rightarrow> (r, w\<lparr>gwTabs := x\<rparr>))"

definition g_redis :: "gworld redis" where
  "g_redis = \<lparr>
     cRPush = (\<lambda>k v. at_mem (cRPush mem_redis k v)), cLPop = (\<lambda>k. at_mem (cLPop mem_redis k)),
     cLLen = (\<lambda>k. at_mem (cLLen mem_redis k)), cSetEx = (\<lambda>k v t. at_mem (cSetEx mem_redis k v t)),
     cGet = (\<lambda>k. at_mem (cGet mem_redis k)), cMGet = (\<lambda>ks. at_mem (cMGet mem_redis ks)),
     cDel = (\<lambda>k. at_mem (cDel mem_redis k)), cExists = (\<lambda>k. at_mem (cExists mem_redis k)),
     cExpire = (\<lambda>k t. at_mem (cExpire mem_redis k t)), cPersist = (\<lambda>k. at_mem (cPersist mem_redis k)),
     cSAdd = (\<lambda>k ms. at_mem (cSAdd mem_redis k ms)), cSRem = (\<lambda>k ms. at_mem (cSRem mem_redis k ms)),
     cSMembers = (\<lambda>k. at_mem (cSMembers mem_redis k)), cSIsMember = (\<lambda>k m. at_mem (cSIsMember mem_redis k m)),
     cSCard = (\<lambda>k. at_mem (cSCard mem_redis k)), cSRandMember = (\<lambda>k. at_mem (cSRandMember mem_redis k)),
     cZAdd = (\<lambda>k sc m. at_mem (cZAdd mem_redis k sc m)), cZRem = (\<lambda>k ms. at_mem (cZRem mem_redis k ms)),
     cZRange = (\<lambda>k a b. at_mem (cZRange mem_redis k a b)),
     cZRangeByScore = (\<lambda>k sc. at_mem (cZRangeByScore mem_redis k sc)),
     cZScore = (\<lambda>k m. at_mem (cZScore mem_redis k m)),
     cXAdd = (\<lambda>k v. at_mem (cXAdd mem_redis k v)), cXAck = (\<lambda>k g is. at_mem (cXAck mem_redis k g is)),
     cXGroupCreate = (\<lambda>k g f. at_mem (cXGroupCreate mem_redis k g f)),
     cXReadGroup = (\<lambda>k g c n i. at_mem (cXReadGroup mem_redis k g c n i)),
     cXAutoClaim = (\<lambda>k g c t i n. at_mem (cXAutoClaim mem_redis k g c t i n)),
     cPing = at_mem (cPing mem_redis)\<rparr>"

definition sql_error :: goerr where
  "sql_error = ErrText ''Error 1146: table does not exist''"

definition run_sql :: "sql \<Rightarrow> db \<Rightarrow> (goerr + int64) \<times> db" where
  "run_sql q d =
     (let i = word_of_nat (length (dRooms d) + length (dUsers d) + length (dRequests d) + 1) in
      if runs q d \<and> fresh_row q i d then (Inr i, apply_sql i q d) else (Inl sql_error, d))"

definition first_row :: "('a \<Rightarrow> bool) \<Rightarrow> 'a list \<Rightarrow> goerr + 'a" where
  "first_row p xs = (case find p xs of None \<Rightarrow> Inl no_rows | Some x \<Rightarrow> Inr x)"

definition map_ok :: "('a \<Rightarrow> 'b) \<Rightarrow> goerr + 'a \<Rightarrow> goerr + 'b" where
  "map_ok f r = (case r of Inl e \<Rightarrow> Inl e | Inr x \<Rightarrow> Inr (f x))"

definition table_of :: "db \<Rightarrow> int64 \<Rightarrow> goerr + member_row list" where
  "table_of d r = (case dMembers d r of None \<Rightarrow> Inl sql_error | Some rows \<Rightarrow> Inr rows)"

definition query :: "(db \<Rightarrow> goerr + 'a) \<Rightarrow> (gworld, goerr + 'a) io" where
  "query f = at_tabs (\<lambda>t. (f (committed t), t))"

definition g_mysql :: "gworld mysql" where
  "g_mysql = \<lparr>
     dbExec = (\<lambda>q. at_tabs (\<lambda>t. case run_sql q (committed t) of (r, d) \<Rightarrow> (r, t\<lparr>committed := d\<rparr>))),
     dbBegin = at_tabs (\<lambda>t. (Inr (), t\<lparr>working := Some (committed t)\<rparr>)),
     dbTxExec = (\<lambda>q. at_tabs (\<lambda>t. case working t of None \<Rightarrow> (Inl sql_error, t)
        | Some d \<Rightarrow> (case run_sql q d of (r, d') \<Rightarrow> (r, t\<lparr>working := Some d'\<rparr>)))),
     dbCommit = at_tabs (\<lambda>t. (Inr (), case working t of None \<Rightarrow> t | Some d \<Rightarrow> \<lparr>committed = d, working = None\<rparr>)),
     dbRollback = at_tabs (\<lambda>t. (Inr (), t\<lparr>working := None\<rparr>)),
     dbRole = (\<lambda>r u. query (\<lambda>d. case table_of d r of Inl e \<Rightarrow> Inl e
        | Inr rows \<Rightarrow> map_ok mbRole (first_row (\<lambda>x. mbUser x = u) rows))),
     dbIsGroup = (\<lambda>r. query (\<lambda>d. map_ok snd (first_row (\<lambda>x. rmID (fst x) = r) (dRooms d)))),
     dbCount = (\<lambda>r u. query (\<lambda>d. map_ok (\<lambda>rows. length (filter (\<lambda>x. mbUser x = u) rows)) (table_of d r))),
     dbMemberIDs = (\<lambda>r. query (\<lambda>d. map_ok (map mbUser) (table_of d r))),
     dbJoined = (\<lambda>u. query (\<lambda>d. map_ok usJoined (first_row (\<lambda>x. usID x = u) (dUsers d)))),
     dbSearch = (\<lambda>q n. query (\<lambda>d. Inr [])),
     dbRoom = (\<lambda>r. query (\<lambda>d. map_ok fst (first_row (\<lambda>x. rmID (fst x) = r) (dRooms d)))),
     dbRequests = (\<lambda>r. query (\<lambda>d. Inr (filter (\<lambda>q. jrRoom q = r) (dRequests d)))),
     dbRequest = (\<lambda>q. query (\<lambda>d. first_row (\<lambda>x. jrID x = q) (dRequests d))),
     dbUser = (\<lambda>n. query (\<lambda>d. map_ok (\<lambda>x. (usID x, usHash x)) (first_row (\<lambda>x. dNameKey d (usName x) = dNameKey d n) (dUsers d)))),
     dbMessage = (\<lambda>q. query (\<lambda>d. first_row (\<lambda>x. cmID x = q) (dMessages d)))\<rparr>"

definition g_env :: "gworld group_env" where
  "g_env = \<lparr>geRedis = g_redis, geDB = g_mysql,
     geZRemExpire = (\<lambda>d m k t. at_mem (cZRem mem_redis d [m])),
     geCacheTTL = None, gePostTTL = None, geRetention = None\<rparr>"

definition g_store :: "gworld \<Rightarrow> store" where
  "g_store w = mem_store (gwMem w)"

lemma first_rowD: "first_row p xs = Inr x \<Longrightarrow> x \<in> set xs \<and> p x"
  by (auto simp: first_row_def split: option.splits dest: find_SomeD)

lemma at_mem_laws:
  "mutates mem_store m f \<Longrightarrow> mutates g_store (at_mem m) f" "reads mem_store m P \<Longrightarrow> reads g_store (at_mem m) P"
proof -
  have at: "at_mem m w = (r, w') \<longleftrightarrow> (\<exists>x. m (gwMem w) = (r, x) \<and> w' = w\<lparr>gwMem := x\<rparr>)" for m :: "(mem, 'c) io" and w r w'
    by (auto simp: at_mem_def split: prod.split)
  show "mutates mem_store m f \<Longrightarrow> mutates g_store (at_mem m) f"
    unfolding mutates_alt at g_store_def by force
  show "reads mem_store m P \<Longrightarrow> reads g_store (at_mem m) P"
    unfolding reads_def at g_store_def by force
qed

lemma keeps_at: "keeps gwTabs (at_mem m)" "keeps g_store (at_tabs f)" "keeps g_store (query h)"
  by (auto simp: keeps_def at_mem_def at_tabs_def query_def g_store_def split: prod.split)

lemma query_reads: "(\<And>s. Q s (f (committed s))) \<Longrightarrow> reads gwTabs (query f) Q"
  by (simp add: reads_def query_def at_tabs_def)

lemma tabs_mutates: "(\<And>t. f t = (Inr v, g t)) \<Longrightarrow> mutates gwTabs (at_tabs f) g"
  by (simp add: mutates_def at_tabs_def)

lemma g_ops:
  "cExpire g_redis k t = at_mem (cExpire mem_redis k t)" "cPersist g_redis k = at_mem (cPersist mem_redis k)"
  "cSAdd g_redis k ms = at_mem (cSAdd mem_redis k ms)" "cSRem g_redis k ms = at_mem (cSRem mem_redis k ms)"
  "cSMembers g_redis k = at_mem (cSMembers mem_redis k)" "cSIsMember g_redis k m = at_mem (cSIsMember mem_redis k m)"
  "cZAdd g_redis k sc m = at_mem (cZAdd mem_redis k sc m)" "cZRem g_redis k ms = at_mem (cZRem mem_redis k ms)"
  "cZRange g_redis k a b = at_mem (cZRange mem_redis k a b)"
  "cZRangeByScore g_redis k sc = at_mem (cZRangeByScore mem_redis k sc)"
  "cZScore g_redis k m = at_mem (cZScore mem_redis k m)"
  by (simp_all add: g_redis_def)

lemma g_store_laws: "store_laws g_redis g_store"
  unfolding store_laws_def g_redis_def redis.simps
  by (intro conjI allI at_mem_laws store_lawsD [OF mem_store_laws])

lemma g_mysql_laws: "mysql_laws g_mysql gwTabs"
  unfolding mysql_laws_def g_mysql_def mysql.simps
proof (intro conjI allI)
  fix q
  show "writes_db gwTabs q (at_tabs (\<lambda>t. case run_sql q (committed t) of (r, d) \<Rightarrow> (r, t\<lparr>committed := d\<rparr>)))"
    by (auto simp: writes_db_def at_tabs_def run_sql_def Let_def simp del: apply_sql.simps split: if_splits)
  show "writes_tx gwTabs q (at_tabs (\<lambda>t. case working t of None \<Rightarrow> (Inl sql_error, t)
        | Some d \<Rightarrow> (case run_sql q d of (r, d') \<Rightarrow> (r, t\<lparr>working := Some d'\<rparr>))))"
    by (auto simp: writes_tx_def at_tabs_def run_sql_def Let_def simp del: apply_sql.simps split: option.splits if_splits)
qed (auto intro!: tabs_mutates query_reads
      simp: on_ok_def map_ok_def table_of_def split: sum.splits option.splits dest!: first_rowD, force+)

lemma g_keeps:
  "keeps g_store (dbExec g_mysql q)" "keeps g_store (dbTxExec g_mysql q)" "keeps g_store (dbBegin g_mysql)"
  "keeps g_store (dbCommit g_mysql)" "keeps g_store (dbRollback g_mysql)" "keeps g_store (dbRole g_mysql r u)"
  "keeps g_store (dbCount g_mysql r u)" "keeps g_store (dbIsGroup g_mysql r)" "keeps g_store (dbMemberIDs g_mysql r)"
  "keeps g_store (dbJoined g_mysql r)" "keeps g_store (dbRoom g_mysql r)" "keeps g_store (dbRequests g_mysql r)"
  "keeps g_store (dbRequest g_mysql r)"
  by (simp_all add: g_mysql_def keeps_at)

lemma g_laws: "group_laws g_env g_store gwTabs"
  unfolding group_laws_def g_env_def group_env.simps
  by (simp add: g_store_laws g_mysql_laws at_mem_laws(1) store_lawsD(13) [OF mem_store_laws] keeps_at g_keeps g_ops)

text \<open>Room 7 with the members 1 and 2 in its table, nothing cached, and user 3 in the users' table.\<close>

definition g_start :: gworld where
  "g_start = \<lparr>gwMem = mem_empty,
     gwTabs = \<lparr>committed = \<lparr>dRooms = [(\<lparr>rmID = 7, rmName = ''r'', rmCreator = 1, rmCreatedAt = []\<rparr>, True)],
        dMembers = (\<lambda>r. if r = 7 then Some [default_member 1, default_member 2] else None),
        dUsers = [\<lparr>usID = 3, usName = ''u'', usHash = [], usNick = [], usJoined = None\<rparr>],
        dRequests = [], dMessages = [], dNameKey = fold_name\<rparr>, working = None\<rparr>\<rparr>"

definition g_added :: gworld where
  "g_added = snd (AddRoomMemberCache g_env 100 7 3 g_start)"

definition g_flushed :: gworld where
  "g_flushed = snd (flush_group g_env 7 g_added)"

lemma g_command:
  "m_faults (gwMem w) = [] \<Longrightarrow> at_mem (mem_write f) w = (Inr (), w\<lparr>gwMem := f (gwMem w)\<rparr>)"
  "m_faults (gwMem w) = [] \<Longrightarrow> at_mem (mem_read h) w = (h (gwMem w), w)"
  by (simp_all add: at_mem_def mem_write_def mem_read_def)

lemma mem_set_ops:
  "cSAdd mem_redis k ms = mem_write (\<lambda>w. w\<lparr>m_sets := (m_sets w)(k := remdups (m_sets w k @ ms))\<rparr>)"
  "cSMembers mem_redis k = mem_read (\<lambda>w. Inr (m_sets w k))"
  "cZAdd mem_redis k sc m = mem_write (\<lambda>w. w\<lparr>m_zsets := (m_zsets w)(k := zadd sc m (m_zsets w k))\<rparr>)"
  "cZRem mem_redis k ms = mem_write (\<lambda>w. w\<lparr>m_zsets := (m_zsets w)(k := zrem ms (m_zsets w k))\<rparr>)"
  "cZScore mem_redis k m = mem_read (\<lambda>w. case find (\<lambda>x. snd x = m) (m_zsets w k) of None \<Rightarrow> Inl RedisNil | Some x \<Rightarrow> Inr (fst x))"
  "cExpire mem_redis k t = mem_write id" "cPersist mem_redis k = mem_write id"
  by (simp_all add: mem_redis_def)

lemma g_env_simps [simp]: "geRedis g_env = g_redis" "geDB g_env = g_mysql"
  "geZRemExpire g_env d m k t = at_mem (cZRem mem_redis d [m])"
  by (simp_all add: g_env_def)

lemmas g_eval = on_call_def try_call_def ignoring_def then_io_def SAddWithRetry_def SMembersWithRetry_def
  numeral_3_eq_3 g_ops g_command mem_set_ops Let_def

lemma g_added:
  "AddRoomMemberCache g_env 100 7 3 g_start = (None, g_added)"
  "g_added = g_start\<lparr>gwMem := mem_empty\<lparr>m_sets := (m_sets mem_empty)(groupMembersKey 7 := [FormatInt 3], userJoinedKey 3 := [FormatInt 7]),
     m_zsets := (m_zsets mem_empty)(groupsDirtyKey := [(100, FormatInt 7)], usersDirtyKey := [(100, FormatInt 3)])\<rparr>\<rparr>"
  by (simp_all add: g_added_def AddRoomMemberCache_def g_eval g_start_def mem_empty_def zadd_def)

lemma g_db_ops:
  "dbExec g_mysql q = at_tabs (\<lambda>t. case run_sql q (committed t) of (r, d) \<Rightarrow> (r, t\<lparr>committed := d\<rparr>))"
  "dbBegin g_mysql = at_tabs (\<lambda>t. (Inr (), t\<lparr>working := Some (committed t)\<rparr>))"
  "dbTxExec g_mysql q = at_tabs (\<lambda>t. case working t of None \<Rightarrow> (Inl sql_error, t)
        | Some d \<Rightarrow> (case run_sql q d of (r, d') \<Rightarrow> (r, t\<lparr>working := Some d'\<rparr>)))"
  "dbCommit g_mysql = at_tabs (\<lambda>t. (Inr (), case working t of None \<Rightarrow> t | Some d \<Rightarrow> \<lparr>committed = d, working = None\<rparr>))"
  "dbRole g_mysql r u = query (\<lambda>d. case table_of d r of Inl e \<Rightarrow> Inl e
        | Inr rows \<Rightarrow> map_ok mbRole (first_row (\<lambda>x. mbUser x = u) rows))"
  by (simp_all add: g_mysql_def)

lemmas g_eval_db = g_eval g_db_ops at_tabs_def run_sql_def update_members_def table_of_def map_ok_def first_row_def
  query_def exec_def

lemma g_read:
  "GetRoomMemberIDsCache g_env 7 g_added = (Inr [3], g_added)"
  by (simp add: g_added(2) g_start_def mem_empty_def GetRoomMemberIDsCache_def touch_def g_eval)

lemma g_flushed:
  "flush_group g_env 7 g_added = ((), g_flushed)" "FormatInt 7 \<notin> marked groupsDirtyKey (g_store g_flushed)"
  "dMembers (committed (gwTabs g_flushed)) 7 = Some [default_member 3]"
proof -
  have "flush_group g_env 7 g_added = flush_rest g_env 7 [3] g_added"
    unfolding flush_group_def on_call_def g_read by simp
  then have f: "g_flushed = snd (flush_rest g_env 7 [3] g_added)" by (simp add: g_flushed_def)
  show "flush_group g_env 7 g_added = ((), g_flushed)" by (simp add: g_flushed_def prod_eq_iff)
  show "FormatInt 7 \<notin> marked groupsDirtyKey (g_store g_flushed)"
    "dMembers (committed (gwTabs g_flushed)) 7 = Some [default_member 3]"
    unfolding f
    by (simp_all add: g_added(2) g_start_def mem_empty_def flush_rest_def replace_members_def CreateRoomMemberTable_def
        g_eval_db marked_def g_store_def mem_store_def zrem_def)
qed

theorem late_add_loses_members_witness:
  "rows_of 7 (committed (gwTabs g_start)) = Some {1, 2} \<and> rows_of 7 (committed (gwTabs g_flushed)) = Some {3}"
proof -
  have "sets (g_store g_start) (groupMembersKey 7) = {}" by (simp add: g_store_def mem_store_def g_start_def mem_empty_def)
  from late_add_loses_members [OF g_laws this g_added(1) g_flushed(1,2)]
  have "rows_of 7 (committed (gwTabs g_flushed)) = Some {3}" ..
  then show ?thesis by (auto simp: g_start_def rows_of_def default_member_def)
qed

text \<open>User 4 is added while a flush that has read user 3 is under way.\<close>

definition g_late :: gworld where
  "g_late = snd (AddRoomMemberCache g_env 101 7 4 g_added)"

lemma g_late:
  "AddRoomMemberCache g_env 101 7 4 g_added = (None, g_late)"
  "FormatInt 7 \<notin> marked groupsDirtyKey (g_store (snd (flush_rest g_env 7 [3] g_late)))"
  by (simp_all add: g_late_def AddRoomMemberCache_def g_eval_db g_added(2) g_start_def mem_empty_def zadd_def
      flush_rest_def replace_members_def CreateRoomMemberTable_def marked_def g_store_def mem_store_def zrem_def)




end
