(* ===== verification/Group.thy ===== *)
theory Group
  imports WriteBack Offline
begin

text \<open>
  \<open>internal/meta/chat/group/service.go\<close>: creating rooms, changing their members under a role check
  against the member table, joining, and join requests with their notifications. Roles are read from
  MySQL, memberships are written to Redis, so a role exists only once the room was flushed.
\<close>

section \<open>Service\<close>

definition RoleOwner :: int16 where "RoleOwner = 0"

definition RoleAdmin :: int16 where "RoleAdmin = 1"

definition RoleMember :: int16 where "RoleMember = 2"

definition denied :: goerr where "denied = ErrText ''permission denied''"

definition CreateRoom :: "'w group_env \<Rightarrow> int \<Rightarrow> string \<Rightarrow> string \<Rightarrow> bool \<Rightarrow> int64 \<Rightarrow> int64 list \<Rightarrow> ('w, goerr + int64) io" where
  "CreateRoom env now ts name isGroup creator ms =
     on_call (InsertRoom env ts name isGroup creator) (\<lambda>e. return (Inl e))
       (\<lambda>r. then_io (CreateRoomMemberTable env r)
         (\<lambda>e. case e of Some err \<Rightarrow> return (Inl err)
          | None \<Rightarrow> then_io (InsertRoomMembers env now r ms)
              (\<lambda>e. case e of Some err \<Rightarrow> return (Inl err)
               | None \<Rightarrow> then_io (InsertRoomMember env now r creator)
                   (\<lambda>e. case e of Some err \<Rightarrow> return (Inl err) | None \<Rightarrow> return (Inr r)))))"

definition AddRoomMembers :: "'w group_env \<Rightarrow> int \<Rightarrow> int64 \<Rightarrow> int64 list \<Rightarrow> int64 \<Rightarrow> ('w, goerr option) io" where
  "AddRoomMembers env now r us requester =
     on_call (QueryIsGroupRoom env r) (\<lambda>e. return (Some e))
       (\<lambda>g. if \<not> g then return (Some (ErrText ''cannot add members to a private chat''))
         else on_call (QueryMemberRole env r requester) (\<lambda>e. return (Some e))
           (\<lambda>l. if l \<noteq> RoleAdmin \<and> l \<noteq> RoleOwner then return (Some denied) else InsertRoomMembers env now r us))"

definition AddRoomMember :: "'w group_env \<Rightarrow> int \<Rightarrow> int64 \<Rightarrow> int64 \<Rightarrow> int64 \<Rightarrow> ('w, goerr option) io" where
  "AddRoomMember env now r u requester =
     on_call (QueryIsGroupRoom env r) (\<lambda>e. return (Some e))
       (\<lambda>g. if \<not> g then return (Some (ErrText ''cannot add members to a private chat''))
         else on_call (QueryMemberRole env r requester) (\<lambda>e. return (Some e))
           (\<lambda>l. if l \<noteq> RoleAdmin \<and> l \<noteq> RoleOwner then return (Some denied) else InsertRoomMember env now r u))"

definition ChangeMemberNickname :: "'w group_env \<Rightarrow> int64 \<Rightarrow> int64 \<Rightarrow> string \<Rightarrow> ('w, goerr option) io" where
  "ChangeMemberNickname env r u n = UpdateMemberNickname env r u n"

definition ChangeMemberRole :: "'w group_env \<Rightarrow> int64 \<Rightarrow> int64 \<Rightarrow> int16 \<Rightarrow> int64 \<Rightarrow> ('w, goerr option) io" where
  "ChangeMemberRole env r target newRole requester =
     on_call (QueryMemberRole env r requester) (\<lambda>e. return (Some e))
       (\<lambda>l. if l \<noteq> RoleOwner then return (Some denied) else UpdateMemberRole env r target newRole)"

definition RemoveRoomMember :: "'w group_env \<Rightarrow> int \<Rightarrow> int64 \<Rightarrow> int64 \<Rightarrow> int64 \<Rightarrow> ('w, goerr option) io" where
  "RemoveRoomMember env now r target requester =
     on_call (QueryMemberRole env r requester) (\<lambda>e. return (Some e))
       (\<lambda>l. if l \<noteq> RoleAdmin \<and> l \<noteq> RoleOwner then return (Some denied) else DeleteRoomMember env now r target)"

definition MuteMember :: "'w group_env \<Rightarrow> int64 \<Rightarrow> int64 \<Rightarrow> string \<Rightarrow> int64 \<Rightarrow> ('w, goerr option) io" where
  "MuteMember env r target until requester =
     on_call (QueryIsGroupRoom env r) (\<lambda>e. return (Some e))
       (\<lambda>g. if \<not> g then return (Some (ErrText ''cannot mute members in a private chat''))
         else on_call (QueryMemberRole env r requester) (\<lambda>e. return (Some e))
           (\<lambda>l. on_call (QueryMemberRole env r target) (\<lambda>e. return (Some e))
             (\<lambda>lt. if sint lt \<le> sint l then return (Some denied) else UpdateMuteUntil env r target until)))"

definition GetJoinedChatRooms :: "'w group_env \<Rightarrow> int64 \<Rightarrow> ('w, goerr + int64 list) io" where
  "GetJoinedChatRooms env u = QueryJoinedRooms env u"

definition JoinRoom :: "'w group_env \<Rightarrow> int \<Rightarrow> int64 \<Rightarrow> int64 \<Rightarrow> ('w, goerr option) io" where
  "JoinRoom env now u r =
     on_call (QueryIsGroupRoom env r) (\<lambda>e. return (Some e))
       (\<lambda>g. if \<not> g then return (Some (ErrText ''cannot join a private chat''))
         else on_call (IsRoomMember env r u) (\<lambda>_. InsertRoomMember env now r u)
           (\<lambda>ok. if ok then return None else InsertRoomMember env now r u))"

definition SearchRooms :: "'w group_env \<Rightarrow> string \<Rightarrow> int \<Rightarrow> ('w, goerr + room_info list) io" where
  "SearchRooms env q limit = SearchRoomsByName env q limit"

definition GetPendingJoinRequests :: "'w group_env \<Rightarrow> int64 \<Rightarrow> int64 \<Rightarrow> ('w, goerr + join_request list) io" where
  "GetPendingJoinRequests env requester r =
     on_call (QueryMemberRole env r requester) (\<lambda>e. return (Inl e))
       (\<lambda>l. if l \<noteq> RoleOwner \<and> l \<noteq> RoleAdmin then return (Inl denied) else QueryPendingJoinRequestsByRoom env r)"

definition RespondJoinRequest :: "'w group_env \<Rightarrow> int \<Rightarrow> int64 \<Rightarrow> int64 \<Rightarrow> bool \<Rightarrow> ('w, goerr option) io" where
  "RespondJoinRequest env now requester q approve =
     on_call (QueryJoinRequestByID env q) (\<lambda>e. return (Some e))
       (\<lambda>target. on_call (QueryMemberRole env (jrRoom target) requester) (\<lambda>e. return (Some e))
         (\<lambda>l. if l \<noteq> RoleOwner \<and> l \<noteq> RoleAdmin then return (Some denied)
           else if approve then then_io (InsertRoomMember env now (jrRoom target) (jrUser target))
             (\<lambda>e. case e of Some err \<Rightarrow> return (Some err) | None \<Rightarrow> DeleteJoinRequestByID env q)
           else DeleteJoinRequestByID env q))"

text \<open>
  \<open>RequestJoin\<close> also notifies, through the connections of its own process: the room's creator, then
  every member whose role is owner or admin.
\<close>

definition join_note :: "int64 \<Rightarrow> int64 \<Rightarrow> ws_msg" where
  "join_note r q = WsClient \<lparr>cID = 0, cType = ''group_join_request'', cRoomID = r, cSenderID = 0,
     cPayload = GoVal (JObj [(''request_id'', json_of_int64 q)])\<rparr>"

fun notify_admins :: "'w group_env \<Rightarrow> int64 \<Rightarrow> int64 \<Rightarrow> int64 list \<Rightarrow> ('w ws_proc, unit) proc" where
  "notify_admins env r q [] = returns ()"
| "notify_admins env r q (m # ms) =
     then_do (ws_redis (QueryMemberRole env r m))
       (\<lambda>l. case l of
           Inl e \<Rightarrow> notify_admins env r q ms
         | Inr role \<Rightarrow>
             if role = RoleOwner \<or> role = RoleAdmin then
               then_do (EnqueueMessage_ws m (join_note r q)) (\<lambda>_. notify_admins env r q ms)
             else notify_admins env r q ms)"

definition RequestJoin :: "'w group_env \<Rightarrow> string \<Rightarrow> int64 \<Rightarrow> int64 \<Rightarrow> string \<Rightarrow> ('w ws_proc, goerr + int64) proc" where
  "RequestJoin env ts u r message =
     then_do (ws_redis (QueryIsGroupRoom env r))
       (\<lambda>g. case g of
           Inl e \<Rightarrow> returns (Inl e)
         | Inr grp \<Rightarrow>
             if \<not> grp then returns (Inl (ErrText ''cannot request to join a private chat''))
             else then_do (ws_redis (InsertJoinRequest env ts r u message))
               (\<lambda>q. case q of
                   Inl e \<Rightarrow> returns (Inl e)
                 | Inr reqID \<Rightarrow>
                     then_do (ws_redis (QueryRoomByID env r))
                       (\<lambda>i. then_do
                          (case i of Inl e \<Rightarrow> returns None | Inr info \<Rightarrow> EnqueueMessage_ws (rmCreator info) (join_note r reqID))
                          (\<lambda>_. then_do (ws_redis (QueryRoomMemberIDs env r))
                             (\<lambda>ms. then_do (case ms of Inl e \<Rightarrow> returns () | Inr ids \<Rightarrow> notify_admins env r reqID ids)
                                (\<lambda>_. returns (Inr reqID)))))))"

section \<open>Permissions\<close>

text \<open>What the member table says of a user's role.\<close>

definition has_role :: "int64 \<Rightarrow> int64 \<Rightarrow> (int16 \<Rightarrow> bool) \<Rightarrow> store \<times> tables \<Rightarrow> bool" where
  "has_role r u P st \<longleftrightarrow> (\<exists>rows. dMembers (committed (snd st)) r = Some rows \<and> (\<exists>x \<in> set rows. mbUser x = u \<and> P (mbRole x)))"

definition changes_only_if :: "('w \<Rightarrow> 's) \<Rightarrow> ('s \<Rightarrow> bool) \<Rightarrow> ('w, 'a) io \<Rightarrow> bool" where
  "changes_only_if vw P m \<longleftrightarrow> (\<forall>w. vw (snd (m w)) \<noteq> vw w \<longrightarrow> P (vw w))"

lemma changes_only_ifI:
  assumes "\<And>s. post vw s m (\<lambda>_ s'. s' \<noteq> s \<longrightarrow> P s)"
  shows "changes_only_if vw P m"
  unfolding changes_only_if_def using postD [OF assms refl] by (metis prod.collapse)

lemma role_read:
  assumes "group_laws env sv tv"
  shows "reads (both sv tv) (QueryMemberRole env r u) (\<lambda>st. on_ok (\<lambda>l. has_role r u (\<lambda>x. x = l) st))"
  unfolding QueryMemberRole_def has_role_def using group_db(1) [OF assms] .

lemma group_read:
  assumes "group_laws env sv tv"
  shows "reads (both sv tv) (QueryIsGroupRoom env r) (\<lambda>_ _. True)"
  unfolding QueryIsGroupRoom_def using group_db(2) [OF assms] by (rule reads_mono) simp

lemma has_role_mono: "has_role r u P st \<Longrightarrow> (\<And>l. P l \<Longrightarrow> Q l) \<Longrightarrow> has_role r u Q st"
  unfolding has_role_def by blast

text \<open>A check that leads to an error or to an unrestricted action.\<close>

lemma post_trivial: "(\<And>s'. Q s') \<Longrightarrow> post vw s m (\<lambda>_. Q)"
  by (simp add: post_def)

lemma post_if: "(b \<Longrightarrow> post vw s m Q) \<Longrightarrow> (\<not> b \<Longrightarrow> post vw s m' Q) \<Longrightarrow> post vw s (if b then m else m') Q"
  by simp

lemma create_requests_reads:
  assumes "group_laws env sv tv"
  shows "reads (both sv tv) (dbExec (geDB env) CreateRequestsSql) (\<lambda>_ _. True)"
  unfolding reads_post
proof
  fix st :: "store \<times> tables"
  show "post (both sv tv) st (dbExec (geDB env) CreateRequestsSql) (\<lambda>r st'. st' = st \<and> True)"
    by (cases st, simp only:, rule post_mono [OF dbExec_post [OF assms]]) (auto simp: stepped_def)
qed

lemma with_requests_reads:
  assumes "group_laws env sv tv" "reads (both sv tv) m P"
  shows "reads (both sv tv) (with_requests env m) (\<lambda>s. on_ok (\<lambda>v. P s (Inr v)))"
  unfolding with_requests_def
  by (rule reads_call [OF create_requests_reads [OF assms(1)]])
     (auto intro!: reads_return reads_mono [OF assms(2)] simp: on_ok_def simp del: return_simp split: sum.splits)



text \<open>
  C27: once a flush has taken the mark off a room, the member table holds the cached members with the
  role 0, no nickname and no mute, whatever they had before: the rows are inserted with the column
  defaults, and 0 is \<open>RoleOwner\<close>. So every member's role reads as owner.
\<close>

theorem flushed_members_are_owners:
  assumes laws: "group_laws env sv tv" and marked: "FormatInt r \<in> marked groupsDirtyKey (sv w)"
    and flush: "flush_group env r w = ((), w1)" and unmarked: "FormatInt r \<notin> marked groupsDirtyKey (sv w1)"
  shows "(\<exists>ms. set ms = ids_of (sets (sv w) (groupMembersKey r)) \<and> dMembers (committed (tv w1)) r = Some (map default_member ms))
    \<and> (\<forall>u l w2. QueryMemberRole env r u w1 = (Inr l, w2) \<longrightarrow> l = RoleOwner)"
proof -
  from flush_completed(2) [OF postD [OF flush_group_post [OF laws] refl flush] marked unmarked] obtain ms where
    ms: "set ms = ids_of (sets (sv w) (groupMembersKey r))" "dMembers (committed (tv w1)) r = Some (map default_member ms)"
    by (auto simp: both_def)
  have "l = RoleOwner" if "QueryMemberRole env r u w1 = (Inr l, w2)" for u l w2
    using readsD [OF role_read [OF laws] that] ms(2)
    by (auto simp: on_ok_def has_role_def both_def default_member_def RoleOwner_def)
  with ms show ?thesis by blast
qed

theorem flushed_members_are_owners_witness:
  "QueryMemberRole g_env 7 3 g_flushed = (Inr RoleOwner, g_flushed)"
proof -
  have marked: "FormatInt 7 \<in> marked groupsDirtyKey (g_store g_added)"
    by (simp add: marked_def g_store_def mem_store_def g_added(2))
  have run: "QueryMemberRole g_env 7 3 g_flushed = (Inr 0, g_flushed)"
    by (simp add: QueryMemberRole_def g_eval_db g_flushed(3) default_member_def)
  from flushed_members_are_owners [OF g_laws marked g_flushed(1,2)] run have "0 = RoleOwner" by blast
  with run show ?thesis by simp
qed

end
