(* ===== verification/GroupApi.thy ===== *)
theory GroupApi
  imports Group Http
begin

text \<open>
  \<open>internal/meta/chat/group/handler.go\<close>: the group requests. Each handler binds its body, takes the user
  that the authentication middleware left in the context (\<open>uid\<close>, absent when it did not run), calls the
  service and replies.
\<close>

section \<open>Requests\<close>

definition dec_int16 :: "json \<Rightarrow> int16 \<Rightarrow> goerr option \<times> int16" where
  "dec_int16 j old = (case j of
      JNull \<Rightarrow> (None, old)
    | JInt n \<Rightarrow> if - (2 ^ 15) \<le> n \<and> n < 2 ^ 15 then (None, word_of_int n) else (Some type_error, old)
    | _ \<Rightarrow> (Some type_error, old))"

definition dec_slice :: "json \<Rightarrow> int64 list option \<Rightarrow> goerr option \<times> int64 list option" where
  "dec_slice v old = (if v = JNull then (None, None)
     else (case dec_int64s v [] of (None, xs) \<Rightarrow> (None, Some xs) | (Some e, xs) \<Rightarrow> (Some e, old)))"

record create_request =
  crName :: string
  crIsGroup :: bool
  crMembers :: "int64 list option"

definition create_setf :: "string \<Rightarrow> json \<Rightarrow> create_request \<Rightarrow> goerr option \<times> create_request" where
  "create_setf k v r =
     (case match_field [''name'', ''is_group'', ''member_ids''] k of
        None \<Rightarrow> (None, r)
      | Some f \<Rightarrow>
          if f = ''name'' then upd (\<lambda>r x. r\<lparr>crName := x\<rparr>) r (dec_string v (crName r))
          else if f = ''is_group'' then upd (\<lambda>r x. r\<lparr>crIsGroup := x\<rparr>) r (dec_bool v (crIsGroup r))
          else upd (\<lambda>r x. r\<lparr>crMembers := x\<rparr>) r (dec_slice v (crMembers r)))"

definition bind_create :: "wire \<Rightarrow> goerr + create_request" where
  "bind_create = bind_json create_setf
     (\<lambda>r. crName r \<noteq> [] \<and> rune_count (crName r) \<le> 100 \<and> crMembers r \<noteq> None)
     \<lparr>crName = [], crIsGroup = False, crMembers = None\<rparr>"

text \<open>Requests with two ids, required, and with a room and ids, a text or a role.\<close>

definition ids_setf :: "string \<Rightarrow> string \<Rightarrow> string \<Rightarrow> json \<Rightarrow> int64 \<times> int64 \<Rightarrow> goerr option \<times> int64 \<times> int64" where
  "ids_setf a b k v r =
     (case match_field [a, b] k of
        None \<Rightarrow> (None, r)
      | Some f \<Rightarrow>
          if f = a then upd (\<lambda>r x. (x, snd r)) r (dec_int64 v (fst r))
          else upd (\<lambda>r x. (fst r, x)) r (dec_int64 v (snd r)))"

definition bind_ids :: "string \<Rightarrow> string \<Rightarrow> wire \<Rightarrow> goerr + int64 \<times> int64" where
  "bind_ids a b = bind_json (ids_setf a b) (\<lambda>(x, y). x \<noteq> 0 \<and> y \<noteq> 0) (0, 0)"

definition members_setf :: "string \<Rightarrow> json \<Rightarrow> int64 \<times> int64 list option \<Rightarrow> goerr option \<times> int64 \<times> int64 list option" where
  "members_setf k v r =
     (case match_field [''room_id'', ''member_ids''] k of
        None \<Rightarrow> (None, r)
      | Some f \<Rightarrow>
          if f = ''room_id'' then upd (\<lambda>r x. (x, snd r)) r (dec_int64 v (fst r))
          else upd (\<lambda>r x. (fst r, x)) r (dec_slice v (snd r)))"

definition bind_members :: "wire \<Rightarrow> goerr + int64 \<times> int64 list option" where
  "bind_members = bind_json members_setf (\<lambda>(r, ms). r \<noteq> 0 \<and> ms \<noteq> None) (0, None)"

definition text_request_setf :: "string \<Rightarrow> string \<Rightarrow> json \<Rightarrow> int64 \<times> string \<Rightarrow> goerr option \<times> int64 \<times> string" where
  "text_request_setf b k v r =
     (case match_field [''room_id'', b] k of
        None \<Rightarrow> (None, r)
      | Some f \<Rightarrow>
          if f = ''room_id'' then upd (\<lambda>r x. (x, snd r)) r (dec_int64 v (fst r))
          else upd (\<lambda>r x. (fst r, x)) r (dec_string v (snd r)))"

definition bind_nickname :: "wire \<Rightarrow> goerr + int64 \<times> string" where
  "bind_nickname = bind_json (text_request_setf ''nickname'') (\<lambda>(r, n). r \<noteq> 0 \<and> n \<noteq> [] \<and> rune_count n \<le> 100) (0, [])"

definition bind_join_request :: "wire \<Rightarrow> goerr + int64 \<times> string" where
  "bind_join_request = bind_json (text_request_setf ''message'') (\<lambda>(r, _). r \<noteq> 0) (0, [])"

record role_request =
  rrRoom :: int64
  rrTarget :: int64
  rrRole :: int16

definition role_setf :: "string \<Rightarrow> json \<Rightarrow> role_request \<Rightarrow> goerr option \<times> role_request" where
  "role_setf k v r =
     (case match_field [''room_id'', ''target_user_id'', ''new_role''] k of
        None \<Rightarrow> (None, r)
      | Some f \<Rightarrow>
          if f = ''room_id'' then upd (\<lambda>r x. r\<lparr>rrRoom := x\<rparr>) r (dec_int64 v (rrRoom r))
          else if f = ''target_user_id'' then upd (\<lambda>r x. r\<lparr>rrTarget := x\<rparr>) r (dec_int64 v (rrTarget r))
          else upd (\<lambda>r x. r\<lparr>rrRole := x\<rparr>) r (dec_int16 v (rrRole r)))"

definition bind_role :: "wire \<Rightarrow> goerr + role_request" where
  "bind_role = bind_json role_setf (\<lambda>r. rrRoom r \<noteq> 0 \<and> rrTarget r \<noteq> 0 \<and> rrRole r \<noteq> 0)
     \<lparr>rrRoom = 0, rrTarget = 0, rrRole = 0\<rparr>"

definition room_setf :: "string \<Rightarrow> json \<Rightarrow> int64 \<Rightarrow> goerr option \<times> int64" where
  "room_setf k v r = (case match_field [''room_id''] k of None \<Rightarrow> (None, r) | Some _ \<Rightarrow> dec_int64 v r)"

definition bind_room :: "wire \<Rightarrow> goerr + int64" where
  "bind_room = bind_json room_setf (\<lambda>r. r \<noteq> 0) 0"

definition respond_setf :: "string \<Rightarrow> json \<Rightarrow> int64 \<times> bool \<Rightarrow> goerr option \<times> int64 \<times> bool" where
  "respond_setf k v r =
     (case match_field [''request_id'', ''approve''] k of
        None \<Rightarrow> (None, r)
      | Some f \<Rightarrow>
          if f = ''request_id'' then upd (\<lambda>r x. (x, snd r)) r (dec_int64 v (fst r))
          else upd (\<lambda>r x. (fst r, x)) r (dec_bool v (snd r)))"

definition bind_respond :: "wire \<Rightarrow> goerr + int64 \<times> bool" where
  "bind_respond = bind_json respond_setf (\<lambda>(q, _). q \<noteq> 0) (0, False)"

section \<open>Handlers\<close>

definition unauthorized :: reply where
  "unauthorized = ReplyUnauthorized ''Unauthorized''"

definition authed :: "goerr + 'r \<Rightarrow> int64 option \<Rightarrow> ('r \<Rightarrow> int64 \<Rightarrow> ('w, reply) io) \<Rightarrow> ('w, reply) io" where
  "authed b uid k =
     (case b of
        Inl _ \<Rightarrow> return (ReplyBadRequest ''Invalid request'')
      | Inr req \<Rightarrow> (case uid of None \<Rightarrow> return unauthorized | Some u \<Rightarrow> k req u))"

definition replying :: "string \<Rightarrow> ('w, goerr option) io \<Rightarrow> ('w, reply) io" where
  "replying msg m = then_io m
     (\<lambda>e. return (case e of Some err \<Rightarrow> ReplyError500 (err_text err) | None \<Rightarrow> ReplySuccess msg))"

definition replying_with :: "string \<Rightarrow> ('a \<Rightarrow> json) \<Rightarrow> ('w, goerr + 'a) io \<Rightarrow> ('w, reply) io" where
  "replying_with msg f m = on_call m (\<lambda>e. return (ReplyError500 (err_text e)))
     (\<lambda>v. return (ReplySuccessWithData msg (f v)))"

definition CreateRoomHandler :: "'w group_env \<Rightarrow> int \<Rightarrow> string \<Rightarrow> wire \<Rightarrow> int64 option \<Rightarrow> ('w, reply) io" where
  "CreateRoomHandler env now ts body uid = authed (bind_create body) uid
     (\<lambda>req u. replying_with ''Chat room created successfully'' (\<lambda>r. JObj [(''room_id'', json_of_int64 r)])
        (CreateRoom env now ts (crName req) (crIsGroup req) u (the (crMembers req) @ [u])))"

definition AddRoomMemberHandler :: "'w group_env \<Rightarrow> int \<Rightarrow> wire \<Rightarrow> int64 option \<Rightarrow> ('w, reply) io" where
  "AddRoomMemberHandler env now body uid = authed (bind_ids ''room_id'' ''member_id'' body) uid
     (\<lambda>(r, m) u. replying ''Member added successfully'' (AddRoomMember env now r m u))"

definition AddRoomMembersHandler :: "'w group_env \<Rightarrow> int \<Rightarrow> wire \<Rightarrow> int64 option \<Rightarrow> ('w, reply) io" where
  "AddRoomMembersHandler env now body uid = authed (bind_members body) uid
     (\<lambda>(r, ms) u. replying ''Members added successfully'' (AddRoomMembers env now r (the ms) u))"

definition ChangeNicknameHandler :: "'w group_env \<Rightarrow> wire \<Rightarrow> int64 option \<Rightarrow> ('w, reply) io" where
  "ChangeNicknameHandler env body uid = authed (bind_nickname body) uid
     (\<lambda>(r, n) u. replying ''Nickname changed successfully'' (ChangeMemberNickname env r u n))"

definition ChangeMemberRoleHandler :: "'w group_env \<Rightarrow> wire \<Rightarrow> int64 option \<Rightarrow> ('w, reply) io" where
  "ChangeMemberRoleHandler env body uid = authed (bind_role body) uid
     (\<lambda>req u. replying ''Member role changed successfully''
        (ChangeMemberRole env (rrRoom req) (rrTarget req) (rrRole req) u))"

definition RemoveMemberHandler :: "'w group_env \<Rightarrow> int \<Rightarrow> wire \<Rightarrow> int64 option \<Rightarrow> ('w, reply) io" where
  "RemoveMemberHandler env now body uid = authed (bind_ids ''room_id'' ''target_user_id'' body) uid
     (\<lambda>(r, t) u. replying ''Member removed successfully'' (DeleteRoomMember env now r t))"

definition JoinRoomHandler :: "'w group_env \<Rightarrow> int \<Rightarrow> wire \<Rightarrow> int64 option \<Rightarrow> ('w, reply) io" where
  "JoinRoomHandler env now body uid = authed (bind_room body) uid
     (\<lambda>r u. replying ''Joined room successfully'' (JoinRoom env now u r))"

definition room_json :: "room_info \<Rightarrow> json" where
  "room_json r = JObj [(''id'', json_of_int64 (rmID r)), (''name'', JStr (rmName r)),
     (''creator_id'', json_of_int64 (rmCreator r)), (''created_at'', JStr (rmCreatedAt r))]"

definition SearchRoomsHandler :: "'w group_env \<Rightarrow> string \<Rightarrow> string \<Rightarrow> ('w, reply) io" where
  "SearchRoomsHandler env q limitStr =
     (let limit = (if limitStr = [] then 20
            else (case ParseInt limitStr of Inr v \<Rightarrow> if 0 < sint v then sint v else 20 | Inl _ \<Rightarrow> 20))
      in replying_with ''ok'' (\<lambda>rs. JObj [(''rooms'', JArr (map room_json rs))]) (SearchRooms env q limit))"

definition RequestJoinHandler :: "'w group_env \<Rightarrow> string \<Rightarrow> wire \<Rightarrow> int64 option \<Rightarrow> ('w ws_proc, reply) proc" where
  "RequestJoinHandler env ts body uid =
     (case bind_join_request body of
        Inl _ \<Rightarrow> returns (ReplyBadRequest ''Invalid request'')
      | Inr (r, message) \<Rightarrow>
          (case uid of
             None \<Rightarrow> returns unauthorized
           | Some u \<Rightarrow> then_do (RequestJoin env ts u r message)
               (\<lambda>q. returns (case q of Inl e \<Rightarrow> ReplyError500 (err_text e)
                  | Inr i \<Rightarrow> ReplySuccessWithData ''request created'' (JObj [(''request_id'', json_of_int64 i)])))))"

definition request_json :: "join_request \<Rightarrow> json" where
  "request_json q = JObj [(''id'', json_of_int64 (jrID q)), (''room_id'', json_of_int64 (jrRoom q)),
     (''user_id'', json_of_int64 (jrUser q)), (''message'', JStr (jrMessage q)), (''created_at'', JStr (jrCreatedAt q))]"

definition GetPendingJoinRequestsHandler :: "'w group_env \<Rightarrow> string \<Rightarrow> int64 option \<Rightarrow> ('w, reply) io" where
  "GetPendingJoinRequestsHandler env roomIDStr uid =
     (if roomIDStr = [] then return (ReplyBadRequest ''room_id required'')
      else (case ParseInt roomIDStr of
          Inl _ \<Rightarrow> return (ReplyBadRequest ''invalid room_id'')
        | Inr r \<Rightarrow> (case uid of
            None \<Rightarrow> return unauthorized
          | Some u \<Rightarrow> replying_with ''ok'' (\<lambda>qs. JObj [(''requests'', JArr (map request_json qs))])
              (GetPendingJoinRequests env u r))))"

definition RespondJoinRequestHandler :: "'w group_env \<Rightarrow> int \<Rightarrow> wire \<Rightarrow> int64 option \<Rightarrow> ('w, reply) io" where
  "RespondJoinRequestHandler env now body uid = authed (bind_respond body) uid
     (\<lambda>(q, ok) u. replying ''ok'' (RespondJoinRequest env now u q ok))"

definition GetJoinedRoomsHandler :: "'w group_env \<Rightarrow> int64 option \<Rightarrow> ('w, reply) io" where
  "GetJoinedRoomsHandler env uid =
     (case uid of
        None \<Rightarrow> return unauthorized
      | Some u \<Rightarrow> replying_with ''ok'' (\<lambda>rs. JObj [(''room_ids'', JArr (map json_of_int64 rs))]) (GetJoinedChatRooms env u))"

section \<open>What the handlers leave unchecked\<close>

text \<open>\<open>SREM\<close> answers with a number, never with the nil reply.\<close>

definition srem_answers :: "'w redis \<Rightarrow> bool" where
  "srem_answers rd \<longleftrightarrow> (\<forall>k ms w. fst (cSRem rd k ms w) \<noteq> Inl RedisNil)"

lemma srem_call:
  assumes "group_laws env sv tv" "srem_answers (geRedis env)"
    "post (both sv tv) (apfst (\<lambda>s. s\<lparr>sets := (sets s)(k := sets s k - set ms)\<rparr>) st) m Q" "\<And>e st'. Q (Some e) st'"
  shows "post (both sv tv) st (try_unless_nil (cSRem (geRedis env) k ms) m) Q"
proof -
  have nn: "post (both sv tv) st (cSRem (geRedis env) k ms) (\<lambda>r _. r \<noteq> Inl RedisNil)"
    using assms(2) by (auto simp: post_def srem_answers_def dest: arg_cong [of _ _ fst])
  show ?thesis unfolding try_unless_nil_def
    by (rule post_call [OF post_conj [OF nn post_mutates [OF group_redis(3) [OF assms(1)]]]])
       (use assms(3,4) in \<open>auto intro: post_return simp del: return_simp\<close>)
qed

lemma remove_done:
  assumes "group_laws env sv tv" "srem_answers (geRedis env)"
  shows "post (both sv tv) st (DeleteRoomMember env now r u)
    (\<lambda>e st'. e = None \<longrightarrow> FormatInt u \<notin> sets (fst st') (groupMembersKey r))"
  unfolding DeleteRoomMember_def RemoveRoomMemberCache_def Let_def
  by (intro srem_call [OF assms] try_mutates [OF group_redis(4) [OF assms(1)]]
        ignoring_reads [OF group_redis(11) [OF assms(1)]] ignoring_reads [OF group_redis(12) [OF assms(1)]] post_return)
     auto

text \<open>
  C29: the removal request checks no role: whoever is logged in, the handler does the same thing, and
  when it replies with success the member is gone from the room. The service's \<open>RemoveRoomMember\<close>, which
  does check, is never called.
\<close>

theorem removal_unchecked:
  assumes laws: "group_laws env sv tv" and srem: "srem_answers (geRedis env)"
    and req: "bind_ids ''room_id'' ''target_user_id'' body = Inr (r, t)"
    and run: "RemoveMemberHandler env now body (Some u) w = (rep, w')" and ok: "status rep = 200"
  shows "FormatInt t \<notin> sets (sv w') (groupMembersKey r)
    \<and> RemoveMemberHandler env now body (Some v) w = (rep, w')"
proof -
  obtain e where e: "DeleteRoomMember env now r t w = (e, w')"
    "rep = (case e of Some err \<Rightarrow> ReplyError500 (err_text err) | None \<Rightarrow> ReplySuccess ''Member removed successfully'')"
    using run by (auto simp: RemoveMemberHandler_def authed_def req replying_def then_io_def split: prod.splits)
  with ok have "e = None" by (auto simp: reply_defs split: option.splits)
  with postD [OF remove_done [OF laws srem] refl e(1)] run show ?thesis
    by (simp add: RemoveMemberHandler_def authed_def req)
qed

definition demo_removal :: wire where
  "demo_removal = Doc (JObj [(''room_id'', JInt 7), (''target_user_id'', JInt 3)])"

lemma g_srem: "srem_answers (geRedis g_env)"
  by (auto simp: srem_answers_def g_ops mem_redis_def at_mem_def mem_write_def net_err_def split: prod.splits list.splits fault.splits)

theorem removal_unchecked_witness:
  "status (fst (RemoveMemberHandler g_env 100 demo_removal (Some 99) g_added)) = 200
   \<and> FormatInt 3 \<in> sets (g_store g_added) (groupMembersKey 7)
   \<and> FormatInt 3 \<notin> sets (g_store (snd (RemoveMemberHandler g_env 100 demo_removal (Some 99) g_added))) (groupMembersKey 7)"
proof -
  have req: "bind_ids ''room_id'' ''target_user_id'' demo_removal = Inr (7, 3)" by code_simp
  have st: "status (fst (RemoveMemberHandler g_env 100 demo_removal (Some 99) g_added)) = 200"
    by (simp add: RemoveMemberHandler_def authed_def req replying_def DeleteRoomMember_def RemoveRoomMemberCache_def
        try_unless_nil_def g_eval mem_redis_def reply_defs g_added(2) g_start_def mem_empty_def)
  obtain rep w' where run: "RemoveMemberHandler g_env 100 demo_removal (Some 99) g_added = (rep, w')"
    by (cases "RemoveMemberHandler g_env 100 demo_removal (Some 99) g_added")
  from removal_unchecked [OF g_laws g_srem req run] st run
  show ?thesis by (simp add: g_store_def mem_store_def g_added(2))
qed

text \<open>
  No request makes a member an owner: a body whose \<open>new_role\<close> is 0, or absent, is refused as
  incomplete before any look at the database, because a zero value does not satisfy \<open>required\<close>.
\<close>

theorem owner_role_never_granted:
  assumes "unmarshal_struct role_setf body \<lparr>rrRoom = 0, rrTarget = 0, rrRole = 0\<rparr> = (None, req)" "rrRole req = RoleOwner"
  shows "ChangeMemberRoleHandler env body uid w = (ReplyBadRequest ''Invalid request'', w)"
  using assms by (simp add: ChangeMemberRoleHandler_def authed_def bind_role_def bind_json_def RoleOwner_def)

theorem owner_role_never_granted_witness:
  "ChangeMemberRoleHandler g_env (Doc (JObj [(''room_id'', JInt 7), (''target_user_id'', JInt 3), (''new_role'', JInt 0)]))
     (Some 1) g_flushed = (ReplyBadRequest ''Invalid request'', g_flushed)"
proof -
  let ?b = "Doc (JObj [(''room_id'', JInt 7), (''target_user_id'', JInt 3), (''new_role'', JInt 0)])"
  have "unmarshal_struct role_setf ?b \<lparr>rrRoom = 0, rrTarget = 0, rrRole = 0\<rparr> = (None, \<lparr>rrRoom = 7, rrTarget = 3, rrRole = 0\<rparr>)"
    by code_simp
  from owner_role_never_granted [OF this] show ?thesis by (simp add: RoleOwner_def)
qed

end
