(* ===== verification/MsgStore.thy ===== *)
theory MsgStore
  imports GroupApi Chat
begin

text \<open>
  \<open>internal/send/chat/send\<close>: a message is appended to a Redis list and broadcast to the room's members;
  a background pass pops a batch from the list and inserts it into \<open>chat_messages\<close>, and pushes the batch
  back when the insertion fails; a stored message can be sent again by its sender.
\<close>

section \<open>Cached messages\<close>

definition messages_key :: string where
  "messages_key = ''cache:send:messages''"

text \<open>\<open>Content\<close> is a \<open>json.RawMessage\<close>: printed as it is, \<open>null\<close> when it is nil.\<close>

definition raw_json :: "wire \<Rightarrow> goerr + json" where
  "raw_json c = (case c of Doc j \<Rightarrow> Inr j | Raw s \<Rightarrow> if s = [] then Inr JNull else Inl (ErrText ''json: invalid raw message''))"

definition cached_json :: "cached_message \<Rightarrow> goerr + json" where
  "cached_json m = (case raw_json (cmContent m) of Inl e \<Rightarrow> Inl e
     | Inr c \<Rightarrow> Inr (JObj [(''id'', json_of_int64 (cmID m)), (''room_id'', json_of_int64 (cmRoom m)),
         (''sender_id'', json_of_int64 (cmSender m)), (''type'', JStr (cmType m)), (''content'', c),
         (''created_at'', JStr (cmCreatedAt m))]))"

abbreviation cached_keys :: "string list" where
  "cached_keys \<equiv> [''id'', ''room_id'', ''sender_id'', ''type'', ''content'', ''created_at'']"

definition cached_setf :: "regenv \<Rightarrow> string \<Rightarrow> json \<Rightarrow> cached_message \<Rightarrow> goerr option \<times> cached_message" where
  "cached_setf env k v m =
     (case match_field cached_keys k of
        None \<Rightarrow> (None, m)
      | Some f \<Rightarrow>
          if f = ''id'' then upd (\<lambda>m x. m\<lparr>cmID := x\<rparr>) m (dec_int64 v (cmID m))
          else if f = ''room_id'' then upd (\<lambda>m x. m\<lparr>cmRoom := x\<rparr>) m (dec_int64 v (cmRoom m))
          else if f = ''sender_id'' then upd (\<lambda>m x. m\<lparr>cmSender := x\<rparr>) m (dec_int64 v (cmSender m))
          else if f = ''type'' then upd (\<lambda>m x. m\<lparr>cmType := x\<rparr>) m (dec_string v (cmType m))
          else if f = ''content'' then (None, m\<lparr>cmContent := Doc v\<rparr>)
          else upd (\<lambda>m x. m\<lparr>cmCreatedAt := x\<rparr>) m (dec_time env v (cmCreatedAt m)))"

definition zero_cached :: cached_message where
  "zero_cached = \<lparr>cmID = 0, cmRoom = 0, cmSender = 0, cmType = [], cmContent = Raw [], cmCreatedAt = zero_time\<rparr>"

definition cached_unmarshal :: "regenv \<Rightarrow> wire \<Rightarrow> goerr option \<times> cached_message" where
  "cached_unmarshal env w = unmarshal_struct (cached_setf env) w zero_cached"

section \<open>Sending\<close>

text \<open>\<open>mdNextID\<close> is the snowflake generator, \<open>mdTimes\<close> the time stamps that decode.\<close>

record 'w msg_deps =
  mdGroup :: "'w group_env"
  mdWs :: "'w ws_deps"
  mdStandalone :: bool
  mdNextID :: "('w, int64) io"
  mdTimes :: regenv

definition InsertMessage :: "'w msg_deps \<Rightarrow> string \<Rightarrow> int64 \<Rightarrow> int64 \<Rightarrow> chat_payload \<Rightarrow> ('w ws_proc, goerr + int64) proc" where
  "InsertMessage d now roomID senderID content =
     then_do (in_send (in_world (run_io (mdNextID d))))
       (\<lambda>msgID.
          let cm = \<lparr>cmID = msgID, cmRoom = roomID, cmSender = senderID, cmType = GetType content,
                cmContent = Doc (payload_json content), cmCreatedAt = now\<rparr>
          in case cached_json cm of
               Inl e \<Rightarrow> returns (Inl e)
             | Inr raw \<Rightarrow>
                 then_do (ws_redis (SendCacheRPushWithRetry (clients (wdSend (mdWs d))) 2 messages_key (Doc raw)))
                   (\<lambda>r. returns (case r of Inl e \<Rightarrow> Inl e | Inr _ \<Rightarrow> Inr msgID)))"

definition BroadcastMessage :: "'w msg_deps \<Rightarrow> (nat \<Rightarrow> bool) \<Rightarrow> int64 \<Rightarrow> int64 \<Rightarrow> int64 \<Rightarrow> chat_payload \<Rightarrow>
    ('w ws_proc, goerr option) proc" where
  "BroadcastMessage d acc i roomID senderID content =
     then_do (ws_redis (QueryRoomMemberIDs (mdGroup d) roomID))
       (\<lambda>ms. case ms of
           Inl e \<Rightarrow> returns (Some e)
         | Inr members \<Rightarrow>
             let msg = \<lparr>pID = i, pType = ''chat'', pRoomID = roomID, pSenderID = senderID, pTargetIDs = members,
                   pPayload = GoVal (payload_json content)\<rparr>
             in if mdStandalone d then then_do (Dispatch_StandAlone (mdWs d) msg) (\<lambda>(e, _). returns e)
                else in_send (Dispatch_gateway (wdSend (mdWs d)) acc msg))"

text \<open>An id and an error: after a failed broadcast the message is stored and has an id.\<close>

definition SendMessage :: "'w msg_deps \<Rightarrow> string \<Rightarrow> (nat \<Rightarrow> bool) \<Rightarrow> int64 \<Rightarrow> int64 \<Rightarrow> chat_payload \<Rightarrow>
    ('w ws_proc, int64 \<times> goerr option) proc" where
  "SendMessage d now acc roomID senderID text =
     then_do (InsertMessage d now roomID senderID text)
       (\<lambda>r. case r of
           Inl e \<Rightarrow> returns (0, Some e)
         | Inr i \<Rightarrow> then_do (BroadcastMessage d acc i roomID senderID text) (\<lambda>e. returns (i, e)))"

section \<open>The flusher\<close>

text \<open>\<open>for i := 0; i < batchSize; i++\<close>: an error ends the loop, an entry that does not decode is skipped.\<close>

fun pop_cached :: "'w redis role_clients \<Rightarrow> regenv \<Rightarrow> nat \<Rightarrow> cached_message list \<Rightarrow> ('w, cached_message list) io" where
  "pop_cached st env 0 msgs = return msgs"
| "pop_cached st env (Suc n) msgs =
     on_call (SendCacheLPopWithRetry st 2 messages_key) (\<lambda>_. return msgs)
       (\<lambda>s. case cached_unmarshal env s of
           (Some _, _) \<Rightarrow> pop_cached st env n msgs
         | (None, cm) \<Rightarrow> pop_cached st env n (msgs @ [cm]))"

definition insertBatch :: "'w mysql \<Rightarrow> cached_message list \<Rightarrow> ('w, goerr option) io" where
  "insertBatch my msgs = try_call (dbExec my (InsertMessagesSql msgs)) (return None)"

text \<open>A marshalling error is dropped, the empty bytes are pushed.\<close>

definition push_cached :: "'w redis role_clients \<Rightarrow> cached_message \<Rightarrow> ('w, unit) io" where
  "push_cached st m = ignoring (SendCacheRPushWithRetry st 2 messages_key
     (case cached_json m of Inl _ \<Rightarrow> Raw [] | Inr j \<Rightarrow> Doc j)) (return ())"

definition flushOnce :: "'w redis role_clients \<Rightarrow> 'w mysql \<Rightarrow> regenv \<Rightarrow> nat \<Rightarrow> ('w, unit) io" where
  "flushOnce st my env n =
     then_io (pop_cached st env n [])
       (\<lambda>msgs. if msgs = [] then return ()
         else then_io (insertBatch my msgs)
           (\<lambda>e. case e of None \<Rightarrow> return () | Some _ \<Rightarrow> for_each (push_cached st) (rev msgs)))"

text \<open>One tick of \<open>StartMessageFlusher\<close>, whose goroutine ends only by its stop channel.\<close>

definition message_flusher_tick :: "'w redis role_clients \<Rightarrow> 'w mysql \<Rightarrow> regenv \<Rightarrow> int \<Rightarrow> ('w, unit) io" where
  "message_flusher_tick st my env n = flushOnce st my env (if n \<le> 0 then 100 else nat n)"

definition getMsgInfoByID :: "'w group_env \<Rightarrow> int64 \<Rightarrow> ('w, goerr + cached_message) io" where
  "getMsgInfoByID env i = dbMessage (geDB env) i"

section \<open>Handlers\<close>

definition send_msg_setf :: "string \<Rightarrow> json \<Rightarrow> int64 \<times> wire option \<Rightarrow> goerr option \<times> int64 \<times> wire option" where
  "send_msg_setf k v r =
     (case match_field [''room_id'', ''content''] k of
        None \<Rightarrow> (None, r)
      | Some f \<Rightarrow> if f = ''room_id'' then upd (\<lambda>r x. (x, snd r)) r (dec_int64 v (fst r)) else (None, (fst r, Some (Doc v))))"

definition bind_send_msg :: "wire \<Rightarrow> goerr + int64 \<times> wire option" where
  "bind_send_msg = bind_json send_msg_setf (\<lambda>(r, c). r \<noteq> 0 \<and> c \<noteq> None) (0, None)"

definition resend_setf :: "string \<Rightarrow> json \<Rightarrow> int64 \<Rightarrow> goerr option \<times> int64" where
  "resend_setf k v r = (case match_field [''message_id''] k of None \<Rightarrow> (None, r) | Some _ \<Rightarrow> dec_int64 v r)"

definition bind_resend :: "wire \<Rightarrow> goerr + int64" where
  "bind_resend = bind_json resend_setf (\<lambda>r. r \<noteq> 0) 0"

definition SendMessageHandler :: "'w msg_deps \<Rightarrow> string \<Rightarrow> (nat \<Rightarrow> bool) \<Rightarrow> wire \<Rightarrow> int64 option \<Rightarrow> ('w ws_proc, reply) proc" where
  "SendMessageHandler d now acc body uid =
     (case bind_send_msg body of
        Inl _ \<Rightarrow> returns (ReplyBadRequest ''Invalid request'')
      | Inr (r, content) \<Rightarrow>
          (case uid of
             None \<Rightarrow> returns unauthorized
           | Some u \<Rightarrow>
               (case UnmarshalChatPayload (the content) of
                  Inl e \<Rightarrow> returns (ReplyBadRequest (''Invalid content: '' @ err_text e))
                | Inr payload \<Rightarrow>
                    then_do (SendMessage d now acc r u payload)
                      (\<lambda>(i, e). returns (case e of Some err \<Rightarrow> ReplyError500 (err_text err)
                         | None \<Rightarrow> ReplySuccessWithData ''success'' (JObj [(''msgID'', json_of_int64 i)]))))))"

definition ResendHandler :: "'w msg_deps \<Rightarrow> (nat \<Rightarrow> bool) \<Rightarrow> wire \<Rightarrow> int64 option \<Rightarrow> ('w ws_proc, reply) proc" where
  "ResendHandler d acc body uid =
     (case bind_resend body of
        Inl _ \<Rightarrow> returns (ReplyBadRequest ''Invalid request'')
      | Inr i \<Rightarrow>
          (case uid of
             None \<Rightarrow> returns unauthorized
           | Some u \<Rightarrow>
               then_do (ws_redis (getMsgInfoByID (mdGroup d) i))
                 (\<lambda>m. case m of
                     Inl e \<Rightarrow> returns (ReplyError500 (err_text e))
                   | Inr cm \<Rightarrow>
                       if cmSender cm \<noteq> u then returns unauthorized
                       else (case UnmarshalChatPayload (cmContent cm) of
                           Inl e \<Rightarrow> returns (ReplyBadRequest (''Invalid content: '' @ err_text e))
                         | Inr payload \<Rightarrow>
                             then_do (BroadcastMessage d acc i (cmRoom cm) u payload)
                               (\<lambda>e. returns (case e of Some err \<Rightarrow> ReplyError500 (err_text err)
                                  | None \<Rightarrow> ReplySuccess ''success''))))))"

section \<open>Round trip of a cached message\<close>

lemma match_cached_keys [simp]:
  "match_field cached_keys ''id'' = Some ''id''" "match_field cached_keys ''room_id'' = Some ''room_id''"
  "match_field cached_keys ''sender_id'' = Some ''sender_id''" "match_field cached_keys ''type'' = Some ''type''"
  "match_field cached_keys ''content'' = Some ''content''" "match_field cached_keys ''created_at'' = Some ''created_at''"
  by code_simp+

lemma cached_roundtrip:
  "cmContent m = Doc c \<Longrightarrow> time_ok env (cmCreatedAt m) \<Longrightarrow> \<exists>j. cached_json m = Inr j \<and> cached_unmarshal env (Doc j) = (None, m)"
  by (simp add: cached_json_def raw_json_def cached_unmarshal_def unmarshal_struct_def cached_setf_def dec_time_def zero_cached_def)

section \<open>Behaviour of the flusher\<close>

text \<open>
  A Redis list whose commands do what they report, beside a database it does not touch: what the flusher
  promises then is exact.
\<close>

type_synonym queue_view = "(string \<Rightarrow> wire list) \<times> tables"

definition flush_services :: "'w redis \<Rightarrow> 'w mysql \<Rightarrow> ('w \<Rightarrow> string \<Rightarrow> wire list) \<Rightarrow> ('w \<Rightarrow> tables) \<Rightarrow> bool" where
  "flush_services rd my lst tv \<longleftrightarrow>
     (\<forall>k v l t. post (both lst tv) (l, t) (cRPush rd k v) (\<lambda>r st. r = Inr () \<and> st = (l(k := l k @ [v]), t)))
   \<and> (\<forall>k l t. post (both lst tv) (l, t) (cLPop rd k)
        (\<lambda>r st. (l k = [] \<and> r = Inl RedisNil \<and> st = (l, t)) \<or> (l k \<noteq> [] \<and> r = Inr (hd (l k)) \<and> st = (l(k := tl (l k)), t))))
   \<and> (\<forall>q. writes_db tv q (dbExec my q) \<and> keeps lst (dbExec my q))"

definition cache_client :: "'w redis role_clients \<Rightarrow> 'w redis \<Rightarrow> bool" where
  "cache_client st rd \<longleftrightarrow> getSendRoleClient st RoleCache = Some rd"

lemma post_retry_once:
  assumes "post vw s c (\<lambda>r t. (\<forall>e. r = Inl e \<longrightarrow> stop e) \<and> Q r t)" "0 < n"
  shows "post vw s (retry_loop n stop acc c) Q"
proof (rule postI)
  fix w r w' assume w: "vw w = s" "retry_loop n stop acc c w = (r, w')"
  obtain m where n: "n = Suc m" using assms(2) by (cases n) auto
  obtain r1 w1 where c: "c w = (r1, w1)" by (cases "c w")
  from postD [OF assms(1) w(1) c] w(2) show "Q r (vw w')" by (cases r1) (auto simp: n c)
qed

lemma cache_pop:
  assumes "flush_services rd my lst tv" "cache_client st rd"
  shows "post (both lst tv) (l, t) (SendCacheLPopWithRetry st 2 k)
    (\<lambda>r s. (l k = [] \<and> r = Inl RedisNil \<and> s = (l, t)) \<or> (l k \<noteq> [] \<and> r = Inr (hd (l k)) \<and> s = (l(k := tl (l k)), t)))"
proof -
  have e: "SendCacheLPopWithRetry st 2 k = retry_loop 2 on_nil (Inr (Raw [])) (cLPop rd k)"
    using assms(2) by (simp add: SendCacheLPopWithRetry_def sendLPopWithRetry_def cache_client_def fun_eq_iff)
  have "post (both lst tv) (l, t) (cLPop rd k)
    (\<lambda>r s. (l k = [] \<and> r = Inl RedisNil \<and> s = (l, t)) \<or> (l k \<noteq> [] \<and> r = Inr (hd (l k)) \<and> s = (l(k := tl (l k)), t)))"
    using assms(1) unfolding flush_services_def by blast
  then show ?thesis unfolding e by (intro post_retry_once) (auto elim!: post_mono)
qed

lemma cache_push:
  assumes "flush_services rd my lst tv" "cache_client st rd"
  shows "post (both lst tv) (l, t) (SendCacheRPushWithRetry st 2 k v) (\<lambda>r s. r = Inr () \<and> s = (l(k := l k @ [v]), t))"
proof -
  have e: "SendCacheRPushWithRetry st 2 k v = retry_loop 2 never (Inr ()) (cRPush rd k v)"
    using assms(2) by (simp add: SendCacheRPushWithRetry_def sendRPushWithRetry_def cache_client_def fun_eq_iff)
  have "post (both lst tv) (l, t) (cRPush rd k v) (\<lambda>r st. r = Inr () \<and> st = (l(k := l k @ [v]), t))"
    using assms(1) unfolding flush_services_def by blast
  then show ?thesis unfolding e by (intro post_retry_once) (auto elim!: post_mono)
qed

text \<open>The messages that a list of entries decodes to, and the entry that a message is pushed back as.\<close>

fun decoded :: "regenv \<Rightarrow> wire list \<Rightarrow> cached_message list" where
  "decoded env [] = []"
| "decoded env (x # xs) = (case cached_unmarshal env x of (Some _, _) \<Rightarrow> decoded env xs | (None, m) \<Rightarrow> m # decoded env xs)"

definition entry_of :: "cached_message \<Rightarrow> wire" where
  "entry_of m = (case cached_json m of Inl _ \<Rightarrow> Raw [] | Inr j \<Rightarrow> Doc j)"

lemma pop_cached_post:
  assumes "flush_services rd my lst tv" "cache_client st rd"
  shows "post (both lst tv) (l, t) (pop_cached st env n acc)
    (\<lambda>ms s. ms = acc @ decoded env (take n (l messages_key)) \<and> s = (l(messages_key := drop n (l messages_key)), t))"
proof (induction n arbitrary: acc l)
  case 0
  then show ?case by (auto simp del: return_simp)
next
  case (Suc n)
  show ?case unfolding pop_cached.simps
  proof (rule post_call [OF cache_pop [OF assms]], goal_cases)
    case (1 v s)
    then obtain xs where xs: "l messages_key = v # xs" "s = (l(messages_key := xs), t)" by (cases "l messages_key") auto
    obtain e m where u: "cached_unmarshal env v = (e, m)" by (cases "cached_unmarshal env v")
    have IH: "post (both lst tv) (l(messages_key := xs), t) (pop_cached st env n a)
      (\<lambda>ms s. ms = a @ decoded env (take n xs) \<and> s = (l(messages_key := drop n xs), t))" for a
      using Suc.IH [of "l(messages_key := xs)" a] unfolding fun_upd_same fun_upd_upd .
    show ?case unfolding xs using IH [of acc] IH [of "acc @ [m]"] by (cases e) (simp_all add: u del: fun_upd_apply)
  next
    case (2 e s)
    then have l: "l messages_key = []" "s = (l, t)" by auto
    then have "l(messages_key := []) = l" by (simp add: fun_upd_idem)
    with l show ?case by (intro post_return) (simp only: take_Nil drop_Nil decoded.simps append_Nil2 simp_thms)
  qed
qed

lemma push_all_post:
  assumes "flush_services rd my lst tv" "cache_client st rd"
  shows "post (both lst tv) (l, t) (for_each (push_cached st) ms)
    (\<lambda>_ s. s = (l(messages_key := l messages_key @ map entry_of ms), t))"
proof (induction ms arbitrary: l)
  case Nil
  then show ?case by (auto simp del: return_simp)
next
  case (Cons m ms)
  have push: "post (both lst tv) (l, t) (push_cached st m) (\<lambda>_ s. s = (l(messages_key := l messages_key @ [entry_of m]), t))"
    unfolding push_cached_def ignoring_def entry_of_def [symmetric]
    by (rule post_call [OF cache_push [OF assms]]) (auto simp del: return_simp)
  show ?case unfolding for_each.simps
  proof (rule post_then [OF push], goal_cases)
    case (1 v s)
    from Cons.IH [of "l(messages_key := l messages_key @ [entry_of m])"] show ?case
      unfolding 1 fun_upd_same fun_upd_upd append_assoc append_Cons append_Nil list.map .
  qed
qed

text \<open>The outcome of the insertion.\<close>

lemma insert_post:
  assumes "flush_services rd my lst tv"
  shows "post (both lst tv) (l, t) (insertBatch my ms)
    (\<lambda>e (l', t'). l' = l \<and> stepped (InsertMessagesSql ms) (e = None) t t')"
proof (rule postI)
  fix w e w' assume v: "both lst tv w = (l, t)" and c: "insertBatch my ms w = (e, w')"
  have wr: "writes_db tv (InsertMessagesSql ms) (dbExec my (InsertMessagesSql ms))"
    and kp: "keeps lst (dbExec my (InsertMessagesSql ms))"
    using assms unfolding flush_services_def by blast+
  obtain r where r: "dbExec my (InsertMessagesSql ms) w = (r, w')" "(e = None) = (\<exists>i. r = Inr i)"
    using c by (auto simp: insertBatch_def try_call_def elim!: on_callE)
  from wr r(1) have "working (tv w') = working (tv w) \<and> (case r of
        Inr i \<Rightarrow> runs (InsertMessagesSql ms) (committed (tv w)) \<and> fresh_row (InsertMessagesSql ms) i (committed (tv w))
                   \<and> committed (tv w') = apply_sql i (InsertMessagesSql ms) (committed (tv w))
      | Inl e \<Rightarrow> committed (tv w') = committed (tv w) \<or> (\<exists>i. runs (InsertMessagesSql ms) (committed (tv w))
                   \<and> fresh_row (InsertMessagesSql ms) i (committed (tv w))
                   \<and> committed (tv w') = apply_sql i (InsertMessagesSql ms) (committed (tv w))))"
    unfolding writes_db_def by blast
  with keepsD [OF kp r(1)] v r(2) show "case both lst tv w' of (l', t') \<Rightarrow> l' = l \<and> stepped (InsertMessagesSql ms) (e = None) t t'"
    by (cases r) (auto simp: both_def stepped_def)
qed

text \<open>
  One pass with \<open>l\<close> in the list: the insertion succeeded and the batch is at the end of the table, or it
  failed and the batch is at the end of the list, last message first.
\<close>

definition flush_result :: "regenv \<Rightarrow> nat \<Rightarrow> queue_view \<Rightarrow> queue_view \<Rightarrow> bool" where
  "flush_result env n st st' \<longleftrightarrow>
     (let l = fst st messages_key; ms = decoded env (take n l);
          done' = (dMessages (committed (snd st')) = dMessages (committed (snd st)) @ ms);
          same = (dMessages (committed (snd st')) = dMessages (committed (snd st)))
      in (\<forall>k. k \<noteq> messages_key \<longrightarrow> fst st' k = fst st k)
       \<and> (if ms = [] then same \<and> fst st' messages_key = drop n l
          else (done' \<and> fst st' messages_key = drop n l)
             \<or> ((same \<or> done') \<and> fst st' messages_key = drop n l @ map entry_of (rev ms)))
       \<and> (done' \<and> ms \<noteq> [] \<longrightarrow> distinct (map cmID (dMessages (committed (snd st)) @ ms))))"

lemma flushOnce_post:
  assumes "flush_services rd my lst tv" "cache_client st rd"
  shows "post (both lst tv) s (flushOnce st my env n) (\<lambda>_. flush_result env n s)"
proof -
  obtain l t where s: "s = (l, t)" by (cases s)
  let ?l = "l(messages_key := drop n (l messages_key))" and ?ms = "decoded env (take n (l messages_key))"
  have ins: "post (both lst tv) (?l, t) (then_io (insertBatch my ?ms)
      (\<lambda>e. case e of None \<Rightarrow> return () | Some _ \<Rightarrow> for_each (push_cached st) (rev ?ms))) (\<lambda>_. flush_result env n (l, t))"
    if "?ms \<noteq> []"
  proof (rule post_then [OF insert_post [OF assms(1)]], goal_cases)
    case (1 e s')
    obtain l1 t1 where s': "s' = (l1, t1)" by (cases s')
    from 1 have st: "l1 = ?l" "stepped (InsertMessagesSql ?ms) (e = None) t t1" by (simp_all add: s')
    show ?case
    proof (cases e)
      case None
      with st that show ?thesis by (auto simp: s' flush_result_def stepped_def Let_def simp del: return_simp)
    next
      case (Some err)
      with st that show ?thesis unfolding s' Some option.case st(1)
        by (intro post_mono [OF push_all_post [OF assms]]) (auto simp: flush_result_def stepped_def Let_def)
    qed
  qed
  show ?thesis unfolding flushOnce_def s
    by (rule post_then [OF pop_cached_post [OF assms]])
       (use ins in \<open>auto simp: flush_result_def Let_def simp del: return_simp\<close>)
qed



section \<open>From a request to the table\<close>

lemma insert_message_run:
  assumes "flush_services rd my lst tv" "cache_client (clients (wdSend (mdWs d))) rd" "keeps (both lst tv) (mdNextID d)"
    and "InsertMessage d now r u p s = Inr (Inr i, s1)"
  shows "\<exists>cm. cm = \<lparr>cmID = i, cmRoom = r, cmSender = u, cmType = GetType p, cmContent = Doc (payload_json p), cmCreatedAt = now\<rparr>
    \<and> both lst tv (sp_world (wsSend s1)) =
        ((lst (sp_world (wsSend s)))(messages_key := lst (sp_world (wsSend s)) messages_key @ [entry_of cm]), tv (sp_world (wsSend s)))"
proof -
  let ?w = "sp_world (wsSend s)"
  obtain j w1 where g: "mdNextID d ?w = (j, w1)" by (cases "mdNextID d ?w")
  let ?cm = "\<lparr>cmID = j, cmRoom = r, cmSender = u, cmType = GetType p, cmContent = Doc (payload_json p), cmCreatedAt = now\<rparr>"
  obtain raw where raw: "cached_json ?cm = Inr raw" by (simp add: cached_json_def raw_json_def)
  obtain x w2 where push: "SendCacheRPushWithRetry (clients (wdSend (mdWs d))) 2 messages_key (Doc raw) w1 = (x, w2)"
    by (cases "SendCacheRPushWithRetry (clients (wdSend (mdWs d))) 2 messages_key (Doc raw) w1")
  from assms(4) have i: "i = j" "sp_world (wsSend s1) = w2"
    by (auto simp: InsertMessage_def then_do_def in_send_def in_world_def g raw ws_redis_def redis_call_def push split: sum.splits)
  have "both lst tv w1 = both lst tv ?w" using keepsD [OF assms(3) g] .
  with postD [OF cache_push [OF assms(1,2)], of w1] push
  have "both lst tv w2 = ((lst ?w)(messages_key := lst ?w messages_key @ [Doc raw]), tv ?w)" by (simp add: both_def)
  moreover have "entry_of ?cm = Doc raw" by (simp add: entry_of_def raw)
  ultimately show ?thesis using i by metis
qed


text \<open>
  C18: resending never works: for a message stored as \<open>SendMessage\<close> stores it, the request of its own sender
  is refused as invalid content, because the stored payload lacks the type that the decoder asks for.
\<close>

theorem resend_never_works:
  assumes "bind_resend body = Inr i" "dbMessage (geDB (mdGroup d)) i (sp_world (wsSend s)) = (Inr cm, w')"
    and "cmContent cm = Doc (payload_json p)"
  shows "ResendHandler d acc body (Some (cmSender cm)) s =
    Inr (ReplyBadRequest (''Invalid content: '' @ ''unknown content type: ''),
      s\<lparr>wsSend := (wsSend s)\<lparr>sp_world := w'\<rparr>\<rparr>)"
  using assms
  by (simp add: ResendHandler_def getMsgInfoByID_def then_do_def ws_redis_def in_send_def redis_call_def in_world_def
      stored_content_rejected)

section \<open>Witnesses\<close>

text \<open>A Redis that never fails, beside the tables of the in-memory world.\<close>

definition m_redis :: "gworld redis" where
  "m_redis = g_redis\<lparr>
     cRPush := (\<lambda>k v w. (Inr (), w\<lparr>gwMem := (gwMem w)\<lparr>m_lists := (m_lists (gwMem w))(k := m_lists (gwMem w) k @ [v])\<rparr>\<rparr>)),
     cLPop := (\<lambda>k w. case m_lists (gwMem w) k of [] \<Rightarrow> (Inl RedisNil, w)
        | v # vs \<Rightarrow> (Inr v, w\<lparr>gwMem := (gwMem w)\<lparr>m_lists := (m_lists (gwMem w))(k := vs)\<rparr>\<rparr>))\<rparr>"

definition m_clients :: "gworld redis role_clients" where
  "m_clients = \<lparr>sendRoleClients = (\<lambda>_. None), Rdb = Some m_redis, closed = []\<rparr>"

definition m_lists_of :: "gworld \<Rightarrow> string \<Rightarrow> wire list" where
  "m_lists_of w = m_lists (gwMem w)"

lemma m_services: "flush_services m_redis g_mysql m_lists_of gwTabs"
proof -
  from g_mysql_laws have "writes_db gwTabs q (dbExec g_mysql q)" for q by (simp add: mysql_laws_def)
  moreover have "keeps m_lists_of (dbExec g_mysql q)" for q
    by (simp add: keeps_def g_db_ops at_tabs_def m_lists_of_def split: prod.split)
  ultimately show ?thesis
    by (auto simp: flush_services_def m_redis_def post_def both_def m_lists_of_def split: list.splits)
qed

lemma m_client: "cache_client m_clients m_redis"
  by (simp add: cache_client_def m_clients_def getSendRoleClient_def)

definition demo_cached :: cached_message where
  "demo_cached = \<lparr>cmID = 5, cmRoom = 7, cmSender = 3, cmType = ''text'', cmContent = Doc (payload_json (TextPayload ''hi'')), cmCreatedAt = ''t''\<rparr>"

lemma demo_decoded: "decoded demo_env [entry_of demo_cached] = [demo_cached]"
proof -
  have "time_ok demo_env (cmCreatedAt demo_cached)" by (simp add: demo_env_def demo_cached_def)
  with cached_roundtrip [of demo_cached "payload_json (TextPayload ''hi'')" demo_env] show ?thesis
    by (auto simp: entry_of_def demo_cached_def)
qed

text \<open>The message is in the list, and with \<open>stored\<close> already in the table.\<close>

definition m_world :: "cached_message list \<Rightarrow> gworld" where
  "m_world stored = \<lparr>gwMem = mem_empty\<lparr>m_lists := (\<lambda>_. [])(messages_key := [entry_of demo_cached])\<rparr>,
     gwTabs = \<lparr>committed = \<lparr>dRooms = [], dMembers = (\<lambda>_. None), dUsers = [], dRequests = [], dMessages = stored, dNameKey = fold_name\<rparr>, working = None\<rparr>\<rparr>"



definition m_deps :: "gworld msg_deps" where
  "m_deps = \<lparr>mdGroup = g_env, mdWs = \<lparr>wdSend = \<lparr>clients = m_clients,
       routing = \<lparr>localCache = None, registryClient = None, floatRead = (\<lambda>n. n)\<rparr>, walkRoutes = (\<lambda>m. []), walkGroups = rev\<rparr>,
       wdFloat = (\<lambda>n. n), wdGateway = False, wdBuffer = None\<rparr>,
     mdStandalone = True, mdNextID = return 5, mdTimes = demo_env\<rparr>"

definition m_start :: "cached_message list \<Rightarrow> gworld ws_proc" where
  "m_start stored = ws_init \<lparr>sp_world = (m_world stored)\<lparr>gwMem := mem_empty\<rparr>, sp_pm = NewPendingManager,
     msg2sender = Map.empty, gatewayQueue = [], offlineMsg = Map.empty\<rparr>"


theorem resend_never_works_witness:
  "fst (projr (ResendHandler m_deps (\<lambda>_. True) (Doc (JObj [(''message_id'', JInt 5)])) (Some 3) (m_start [demo_cached])))
     = ReplyBadRequest ''Invalid content: unknown content type: ''"
proof -
  have b: "bind_resend (Doc (JObj [(''message_id'', JInt 5)])) = Inr 5" by code_simp
  have q: "dbMessage (geDB (mdGroup m_deps)) 5 (sp_world (wsSend (m_start [demo_cached]))) = (Inr demo_cached, sp_world (wsSend (m_start [demo_cached])))"
    by (simp add: m_deps_def g_mysql_def query_def at_tabs_def m_start_def ws_init_def m_world_def first_row_def demo_cached_def)
  from resend_never_works [OF b q, of "TextPayload ''hi''" "\<lambda>_. True"] show ?thesis by (simp add: demo_cached_def)
qed

end
