(* ===== verification/Config.thy ===== *)
theory Config
  imports Prelude
begin

text \<open>
  \<open>pkg/config/config.go\<close>: the configuration of every process as one record of records. A pointer to
  a section is an option, \<open>None\<close> when the file has no such section; Go's \<open>int\<close> has 64 bits. Reading a
  file and filling the structs (viper and mapstructure) are parameters.
\<close>

section \<open>The sections\<close>

record log_config =
  lgLevel :: string
  lgFilename :: string
  lgMaxSize :: int64
  lgMaxBackups :: int64
  lgMaxAge :: int64

record mysql_config =
  myHost :: string
  myPort :: int64
  myUser :: string
  myPassword :: string
  myDBName :: string
  myMaxOpenConns :: int64
  myMaxIdleConns :: int64

record redis_config =
  rdHost :: string
  rdPort :: int64
  rdPassword :: string
  rdDB :: int64
  rdPoolSize :: int64
  rdBatchSize :: int64

record send_redis_config =
  srStream :: "redis_config option"
  srQueue :: "redis_config option"
  srCache :: "redis_config option"

record group_cache_config =
  gcEnabled :: bool
  gcCacheTTLSeconds :: int64
  gcPostFlushTTLSeconds :: int64
  gcDirtyRetentionSeconds :: int64
  gcFlushIntervalSeconds :: int64
  gcBatchSize :: int64
  gcMaxRetries :: int64

record jwt_config =
  jwSecret :: string
  jwExpireDuration :: int64

record send_dispatcher_config =
  sdSendChannelSize :: int64
  sdGatewayWorkerCount :: int64
  sdGatewayQueueSize :: int64

record gateway_dispatcher_config =
  gwWorkerCount :: int64
  gwTaskQueueSize :: int64
  gwMaxConnections :: int64
  gwSendChannelSize :: int64
  gwStreamName :: string
  gwGroupName :: string
  gwConsumerName :: string
  gwInterval :: int64
  gwThresholdPending :: int64

record registry_config =
  rgURL :: string
  rgGatewayHeartbeatTimeout :: int64
  rgSendHeartbeatTimeout :: int64
  rgUserRouteTTL :: int64
  rgCleanupInterval :: int64

record pending_flusher_config =
  pfInterval :: int64
  pfBatchSize :: int64
  pfOutboxTTL :: int64
  pfClaimIdleSeconds :: int64
  pfStreamSuffix :: string
  pfGroupSuffix :: string

text \<open>\<open>CenterConfig\<close> has one field, the address.\<close>

record app_config =
  acPort :: int64
  acName :: string
  acMode :: string
  acVersion :: string
  acStartTime :: string
  acMachineID :: int64
  acPushMod :: string
  acAddress :: string
  acLog :: "log_config option"
  acMySQL :: "mysql_config option"
  acRedis :: "redis_config option"
  acSendRedis :: "send_redis_config option"
  acGroupCache :: "group_cache_config option"
  acJWT :: "jwt_config option"
  acSendDispatcher :: "send_dispatcher_config option"
  acGatewayDispatcher :: "gateway_dispatcher_config option"
  acPendingFlusher :: "pending_flusher_config option"
  acCenter :: "string option"
  acRegistry :: "registry_config option"

definition zero_conf :: app_config where
  "zero_conf = \<lparr>acPort = 0, acName = [], acMode = [], acVersion = [], acStartTime = [], acMachineID = 0, acPushMod = [],
     acAddress = [], acLog = None, acMySQL = None, acRedis = None, acSendRedis = None, acGroupCache = None, acJWT = None,
     acSendDispatcher = None, acGatewayDispatcher = None, acPendingFlusher = None, acCenter = None, acRegistry = None\<rparr>"

section \<open>Loading\<close>

text \<open>
  \<open>vRead\<close> is \<open>ReadInConfig\<close> of the file, \<open>vFill\<close> is \<open>Unmarshal\<close> into \<open>Conf\<close>: it may fail after it has
  filled some fields. A read error leaves \<open>Conf\<close> alone, a fill error is printed and returned.
\<close>

record 'doc viper =
  vRead :: "string \<Rightarrow> goerr + 'doc"
  vFill :: "'doc \<Rightarrow> app_config \<Rightarrow> goerr option \<times> app_config"

definition InitFromFile :: "'doc viper \<Rightarrow> string \<Rightarrow> app_config \<Rightarrow> goerr option \<times> app_config" where
  "InitFromFile v path conf = (case vRead v path of Inl e \<Rightarrow> (Some e, conf) | Inr doc \<Rightarrow> vFill v doc conf)"

text \<open>\<open>Init\<close> lets viper search for \<open>config\<close> in the working directory.\<close>

definition InitConfig :: "'doc viper \<Rightarrow> app_config \<Rightarrow> goerr option \<times> app_config" where
  "InitConfig v conf = InitFromFile v ''config'' conf"

text \<open>The callback of \<open>OnConfigChange\<close>: the new file is filled into the same \<open>Conf\<close>, errors are printed.\<close>

definition on_config_change :: "'doc viper \<Rightarrow> 'doc \<Rightarrow> app_config \<Rightarrow> app_config" where
  "on_config_change v doc conf = snd (vFill v doc conf)"

section \<open>Durations\<close>

text \<open>\<open>time.Duration(n) * time.Second\<close>: nanoseconds in 64 bits, so the product wraps around.\<close>

definition seconds :: "int64 \<Rightarrow> int64" where
  "seconds n = n * 1000000000"

text \<open>Configured when positive, else the default.\<close>

definition positive_or :: "int64 \<Rightarrow> int64 \<Rightarrow> int64" where
  "positive_or n d = (if 0 <s n then n else d)"

lemma positive_or_pos: "0 <s d \<Longrightarrow> 0 <s positive_or n d"
  by (simp add: positive_or_def)

text \<open>Up to 9223372036 seconds, 292 years, the product does not wrap.\<close>

lemma sint_seconds:
  assumes "0 \<le> sint n" "sint n \<le> 9223372036"
  shows "sint (seconds n) = sint n * 1000000000"
proof -
  have "sint (seconds n) = signed_take_bit 63 (sint n * 1000000000)"
    by (simp add: seconds_def sint_word_ariths)
  also have "\<dots> = sint n * 1000000000"
    using assms by (intro signed_take_bit_int_eq_self) simp_all
  finally show ?thesis .
qed

end
