(* ===== verification/Users.thy ===== *)
theory Users
  imports WriteBack Config Http
begin

text \<open>
  \<open>internal/meta/user\<close>, \<open>pkg/utils\<close> and \<open>pkg/middleware/jwt.go\<close>: registration, login, and the
  middleware that turns a bearer token into the user of a request. bcrypt, the JWT library and the clock
  are parameters; \<open>auth_laws\<close> states what their documentation promises.
\<close>

section \<open>Tokens\<close>

text \<open>The claims; the registered ones are NumericDates, in whole seconds. \<open>alNow\<close> is in nanoseconds.\<close>

record jwt_claims =
  jcUserName :: string
  jcUserID :: int64
  jcExpiresAt :: int
  jcIssuedAt :: int
  jcNotBefore :: int

record 'w auth_lib =
  alHash :: "string \<Rightarrow> ('w, goerr + string) io"
  alCompare :: "string \<Rightarrow> string \<Rightarrow> goerr option"
  alNow :: "('w, int) io"
  alSign :: "string \<Rightarrow> jwt_claims \<Rightarrow> goerr + string"
  alParse :: "string \<Rightarrow> int \<Rightarrow> string \<Rightarrow> goerr + jwt_claims"

record jwt_state =
  jwtSecretKey :: string
  expireDuration :: int64

definition jwt_defaults :: jwt_state where
  "jwt_defaults = \<lparr>jwtSecretKey = ''your_jwt_secret_key'', expireDuration = seconds (2 * 3600)\<rparr>"

text \<open>A missing section is a nil pointer.\<close>

definition SetJWTConfig :: "jwt_config option \<Rightarrow> halt + jwt_state" where
  "SetJWTConfig cfg = (case cfg of None \<Rightarrow> Inl Panicked
     | Some c \<Rightarrow> Inr \<lparr>jwtSecretKey = jwSecret c, expireDuration = seconds (jwExpireDuration c)\<rparr>)"

definition NewNumericDate :: "int \<Rightarrow> int" where
  "NewNumericDate t = t div 1000000000"

definition GenerateToken :: "'w auth_lib \<Rightarrow> jwt_state \<Rightarrow> string \<Rightarrow> int64 \<Rightarrow> ('w, goerr + string) io" where
  "GenerateToken lib js username userID =
     then_io (alNow lib) (\<lambda>t1. then_io (alNow lib) (\<lambda>t2. then_io (alNow lib) (\<lambda>t3.
       return (alSign lib (jwtSecretKey js)
         \<lparr>jcUserName = username, jcUserID = userID, jcExpiresAt = NewNumericDate (t1 + sint (expireDuration js)),
          jcIssuedAt = NewNumericDate t2, jcNotBefore = NewNumericDate t3\<rparr>))))"

definition ParseToken :: "'w auth_lib \<Rightarrow> jwt_state \<Rightarrow> string \<Rightarrow> ('w, goerr + jwt_claims) io" where
  "ParseToken lib js tok = then_io (alNow lib) (\<lambda>now. return (alParse lib (jwtSecretKey js) now tok))"

section \<open>The middleware\<close>

text \<open>\<open>strings.SplitN(s, " ", 2)\<close>.\<close>

definition split_space :: "string \<Rightarrow> string list" where
  "split_space s = (case dropWhile (\<lambda>c. c \<noteq> CHR '' '') s of [] \<Rightarrow> [s] | _ # t \<Rightarrow> [takeWhile (\<lambda>c. c \<noteq> CHR '' '') s, t])"

text \<open>The reply of an aborted request, or the user id and name that the handlers find in the context.\<close>

definition JWTAuthMiddleware :: "'w auth_lib \<Rightarrow> jwt_state \<Rightarrow> string \<Rightarrow> ('w, reply + int64 \<times> string) io" where
  "JWTAuthMiddleware lib js authHeader =
     (if authHeader = [] then return (Inl (ReplyUnauthorized ''Authorization header is required''))
      else case split_space authHeader of
          [scheme, tok] \<Rightarrow>
            if scheme \<noteq> ''Bearer'' then return (Inl (ReplyUnauthorized ''Authorization header format must be Bearer {token}''))
            else on_call (ParseToken lib js tok)
              (\<lambda>e. return (Inl (ReplyUnauthorized (''Invalid token: '' @ err_text e))))
              (\<lambda>c. return (Inr (jcUserID c, jcUserName c)))
        | _ \<Rightarrow> return (Inl (ReplyUnauthorized ''Authorization header format must be Bearer {token}'')))"

section \<open>Users\<close>

definition HashPassword :: "'w auth_lib \<Rightarrow> string \<Rightarrow> ('w, goerr + string) io" where
  "HashPassword lib password = on_call (alHash lib password) (\<lambda>e. return (Inl e)) (\<lambda>h. return (Inr h))"

definition CheckPasswordHash :: "'w auth_lib \<Rightarrow> string \<Rightarrow> string \<Rightarrow> bool" where
  "CheckPasswordHash lib password hash \<longleftrightarrow> alCompare lib hash password = None"

definition InsertUser :: "'w mysql \<Rightarrow> string \<Rightarrow> string \<Rightarrow> string \<Rightarrow> ('w, goerr option) io" where
  "InsertUser my username hashedPassword nickname =
     on_call (dbExec my (InsertUserSql username hashedPassword nickname))
       (\<lambda>e. return (Some (ErrText (''failed to insert user: '' @ err_text e)))) (\<lambda>_. return None)"

definition GetUserByUsername :: "'w mysql \<Rightarrow> string \<Rightarrow> ('w, goerr + string \<times> int64) io" where
  "GetUserByUsername my username =
     on_call (dbUser my username)
       (\<lambda>e. return (Inl (ErrText (''failed to get user by username: '' @ err_text e))))
       (\<lambda>(i, hash). return (Inr (hash, i)))"

definition CreateUser :: "'w mysql \<Rightarrow> string \<Rightarrow> string \<Rightarrow> string \<Rightarrow> ('w, goerr option) io" where
  "CreateUser my username hashedPassword nickname =
     (if username = [] \<or> hashedPassword = [] then return (Some (ErrText ''username and password cannot be empty''))
      else if length username < 3 \<or> length username > 50 then return (Some (ErrText ''username must be between 3 and 50 characters''))
      else if length nickname > 50 then return (Some (ErrText ''nickname cannot exceed 50 characters''))
      else InsertUser my username hashedPassword nickname)"

section \<open>Handlers\<close>

record user_request =
  urUsername :: string
  urPassword :: string
  urNickname :: string

definition user_setf :: "string list \<Rightarrow> string \<Rightarrow> json \<Rightarrow> user_request \<Rightarrow> goerr option \<times> user_request" where
  "user_setf ks k v r =
     (case match_field ks k of
        None \<Rightarrow> (None, r)
      | Some f \<Rightarrow>
          if f = ''username'' then upd (\<lambda>r x. r\<lparr>urUsername := x\<rparr>) r (dec_string v (urUsername r))
          else if f = ''password'' then upd (\<lambda>r x. r\<lparr>urPassword := x\<rparr>) r (dec_string v (urPassword r))
          else upd (\<lambda>r x. r\<lparr>urNickname := x\<rparr>) r (dec_string v (urNickname r)))"

definition zero_user :: user_request where
  "zero_user = \<lparr>urUsername = [], urPassword = [], urNickname = []\<rparr>"

definition bind_user_register :: "wire \<Rightarrow> goerr + user_request" where
  "bind_user_register = bind_json (user_setf [''username'', ''password'', ''nickname''])
     (\<lambda>r. urUsername r \<noteq> [] \<and> 3 \<le> rune_count (urUsername r) \<and> rune_count (urUsername r) \<le> 50
        \<and> urPassword r \<noteq> [] \<and> 6 \<le> rune_count (urPassword r) \<and> rune_count (urPassword r) \<le> 100
        \<and> rune_count (urNickname r) \<le> 50) zero_user"

definition bind_login :: "wire \<Rightarrow> goerr + user_request" where
  "bind_login = bind_json (user_setf [''username'', ''password'']) (\<lambda>r. urUsername r \<noteq> [] \<and> urPassword r \<noteq> []) zero_user"

definition RegisterHandler :: "'w auth_lib \<Rightarrow> 'w mysql \<Rightarrow> wire \<Rightarrow> ('w, reply) io" where
  "RegisterHandler lib my body =
     (case bind_user_register body of
        Inl e \<Rightarrow> return (ReplyBadRequest (err_text e))
      | Inr req \<Rightarrow>
          on_call (HashPassword lib (urPassword req)) (\<lambda>_. return (ReplyError500 ''Failed to hash password''))
            (\<lambda>hashed. then_io (CreateUser my (urUsername req) hashed (urNickname req))
               (\<lambda>e. return (case e of Some err \<Rightarrow> ReplyError500 (err_text err)
                  | None \<Rightarrow> ReplySuccess ''User registered successfully''))))"

definition LoginHandler :: "'w auth_lib \<Rightarrow> jwt_state \<Rightarrow> 'w mysql \<Rightarrow> wire \<Rightarrow> ('w, reply) io" where
  "LoginHandler lib js my body =
     (case bind_login body of
        Inl e \<Rightarrow> return (ReplyBadRequest (err_text e))
      | Inr req \<Rightarrow>
          on_call (GetUserByUsername my (urUsername req)) (\<lambda>_. return (ReplyUnauthorized ''Invalid username or password''))
            (\<lambda>(storedHash, i).
               if \<not> CheckPasswordHash lib (urPassword req) storedHash then return (ReplyUnauthorized ''Invalid username or password'')
               else on_call (GenerateToken lib js (urUsername req) i) (\<lambda>_. return (ReplyError500 ''Failed to generate token''))
                 (\<lambda>tok. return (ReplySuccessWithData ''Login successful'' (JObj [(''token'', JStr tok)])))))"

section \<open>What the libraries promise\<close>

text \<open>
  A signed token parses to its claims from \<open>nbf\<close> on and until \<open>exp\<close>, and to nothing else at other times;
  a bcrypt hash is not empty and matches the password it was made of; bcrypt takes 72 bytes at most. None
  of this touches the database.
\<close>

definition auth_laws :: "'w auth_lib \<Rightarrow> ('w \<Rightarrow> tables) \<Rightarrow> bool" where
  "auth_laws lib tv \<longleftrightarrow>
     (\<forall>key c tok now. alSign lib key c = Inr tok \<longrightarrow>
        (if jcNotBefore c * 1000000000 \<le> now \<and> now < jcExpiresAt c * 1000000000
         then alParse lib key now tok = Inr c else (\<exists>e. alParse lib key now tok = Inl e)))
   \<and> (\<forall>p w r w'. alHash lib p w = (r, w') \<longrightarrow> tv w' = tv w
        \<and> (\<forall>h. r = Inr h \<longrightarrow> h \<noteq> [] \<and> alCompare lib h p = None \<and> length p \<le> 72))
   \<and> (\<forall>w. tv (snd (alNow lib w)) = tv w)"

lemma hash_law:
  "auth_laws lib tv \<Longrightarrow> alHash lib p w = (Inr h, w') \<Longrightarrow> tv w' = tv w \<and> h \<noteq> [] \<and> alCompare lib h p = None \<and> length p \<le> 72"
  unfolding auth_laws_def by blast

lemma split_bearer: "CHR '' '' \<notin> set s \<Longrightarrow> split_space (s @ CHR '' '' # t) = [s, t]"
proof -
  assume s: "CHR '' '' \<notin> set s"
  then have "dropWhile (\<lambda>c. c \<noteq> CHR '' '') (s @ CHR '' '' # t) = CHR '' '' # t"
    "takeWhile (\<lambda>c. c \<noteq> CHR '' '') (s @ CHR '' '' # t) = s" by (induction s) auto
  then show ?thesis by (simp add: split_space_def)
qed

lemma generate_tokenE:
  assumes "GenerateToken lib js n i w = (Inr tok, w')"
  obtains t1 w1 t2 w2 t3 c where "alNow lib w = (t1, w1)" "alNow lib w1 = (t2, w2)" "alNow lib w2 = (t3, w')"
    "alSign lib (jwtSecretKey js) c = Inr tok" "jcUserID c = i" "jcUserName c = n"
    "jcExpiresAt c = (t1 + sint (expireDuration js)) div 1000000000" "jcNotBefore c = t3 div 1000000000"
  using assms by (auto simp: GenerateToken_def then_io_def NewNumericDate_def split: prod.splits)

text \<open>A request that carries a token: accepted as the user it names until it expires, refused afterwards.\<close>

lemma token_accepted:
  assumes laws: "auth_laws lib tv" and gen: "GenerateToken lib js n i w = (Inr tok, w')"
    and t1: "alNow lib w = (t1, w1)" and now: "alNow lib v = (t, v')"
    and after: "\<And>w2 t2 t3. alNow lib w1 = (t2, w2) \<Longrightarrow> alNow lib w2 = (t3, w') \<Longrightarrow> t3 \<le> t"
  shows "if t < (t1 + sint (expireDuration js)) div 1000000000 * 1000000000
    then JWTAuthMiddleware lib js (''Bearer '' @ tok) v = (Inr (i, n), v')
    else \<exists>e. JWTAuthMiddleware lib js (''Bearer '' @ tok) v = (Inl (ReplyUnauthorized e), v')"
proof -
  from gen obtain w2 t2 t3 c where c: "alNow lib w1 = (t2, w2)" "alNow lib w2 = (t3, w')"
    "alSign lib (jwtSecretKey js) c = Inr tok" "jcUserID c = i" "jcUserName c = n"
    "jcExpiresAt c = (t1 + sint (expireDuration js)) div 1000000000" "jcNotBefore c = t3 div 1000000000"
    by (rule generate_tokenE) (use t1 in auto)
  note sp = split_bearer [of "''Bearer''" tok, simplified]
  have "jcNotBefore c * 1000000000 \<le> t3" unfolding c(7) by (simp add: minus_mod_eq_div_mult [symmetric])
  with after [OF c(1,2)] have "jcNotBefore c * 1000000000 \<le> t" by simp
  with laws c(3) have "if t < jcExpiresAt c * 1000000000 then alParse lib (jwtSecretKey js) t tok = Inr c
      else \<exists>e. alParse lib (jwtSecretKey js) t tok = Inl e"
    unfolding auth_laws_def by (metis (no_types, lifting))
  then show ?thesis unfolding c(6)
    by (auto simp: JWTAuthMiddleware_def sp on_call_def ParseToken_def then_io_def now c split: if_splits)
qed

section \<open>Registration and login\<close>

lemma register_success:
  assumes "RegisterHandler lib my body w = (rep, w')" "status rep = 200" "bind_user_register body = Inr req"
  obtains h w1 i where "alHash lib (urPassword req) w = (Inr h, w1)"
    "dbExec my (InsertUserSql (urUsername req) h (urNickname req)) w1 = (Inr i, w')"
  using assms
  by (auto simp: RegisterHandler_def HashPassword_def CreateUser_def InsertUser_def then_io_def reply_defs
      split: prod.splits option.splits if_splits elim!: on_callE)

text \<open>
  C19: whoever registers can log in. After a successful registration the login with the same name and
  password, once the database has answered the query for the user, is never refused: it replies with a
  token, unless the signing fails; and every request with that token, from then on and until it expires,
  acts as the user whose row the registration inserted.
\<close>

theorem registered_user_logs_in:
  assumes my: "mysql_laws my tv" and laws: "auth_laws lib tv"
    and reg: "RegisterHandler lib my body w = (rep, w1)" "status rep = 200" "bind_user_register body = Inr req"
    and login: "bind_login body2 = Inr req2" "urUsername req2 = urUsername req" "urPassword req2 = urPassword req"
    and found: "dbUser my (urUsername req) w1 = (Inr row, w2)"
  shows "\<exists>x. x \<in> set (dUsers (committed (tv w1))) - set (dUsers (committed (tv w))) \<and> usName x = urUsername req
    \<and> ((\<exists>e w3. GenerateToken lib js (urUsername req) (usID x) w2 = (Inl e, w3))
       \<or> (\<exists>tok w3. LoginHandler lib js my body2 w1
             = (ReplySuccessWithData ''Login successful'' (JObj [(''token'', JStr tok)]), w3)
           \<and> (\<forall>t1 v1 v t v'. alNow lib w2 = (t1, v1) \<and> alNow lib v = (t, v')
                \<and> (\<forall>u2 t2 t3. alNow lib v1 = (t2, u2) \<and> alNow lib u2 = (t3, w3) \<longrightarrow> t3 \<le> t)
                \<and> t < (t1 + sint (expireDuration js)) div 1000000000 * 1000000000 \<longrightarrow>
                JWTAuthMiddleware lib js (''Bearer '' @ tok) v = (Inr (usID x, urUsername req), v'))))"
proof -
  let ?n = "urUsername req"
  from reg obtain h v1 i where hash: "alHash lib (urPassword req) w = (Inr h, v1)"
    and ins: "dbExec my (InsertUserSql ?n h (urNickname req)) v1 = (Inr i, w1)" by (rule register_success)
  note h = hash_law [OF laws hash]
  from my have wd: "writes_db tv (InsertUserSql ?n h (urNickname req)) (dbExec my (InsertUserSql ?n h (urNickname req)))"
    by (simp add: mysql_laws_def)
  let ?d = "committed (tv w)" and ?x = "\<lparr>usID = i, usName = ?n, usHash = h, usNick = urNickname req, usJoined = None\<rparr>"
  from wd ins h have d: "committed (tv w1) = ?d\<lparr>dUsers := dUsers ?d @ [?x]\<rparr>"
    "dNameKey ?d ?n \<notin> (dNameKey ?d \<circ> usName) ` set (dUsers ?d)"
    unfolding writes_db_def by (fastforce split: sum.splits)+
  obtain j k where row: "row = (j, k)" by (cases row)
  from my have rd: "reads tv (dbUser my ?n) (\<lambda>s. on_ok (\<lambda>(i, h). \<exists>x \<in> set (dUsers (committed s)).
      dNameKey (committed s) (usName x) = dNameKey (committed s) ?n \<and> usID x = i \<and> usHash x = h))"
    by (simp add: mysql_laws_def)
  from readsD [OF rd found] have "\<exists>x \<in> set (dUsers (committed (tv w1))).
      dNameKey (committed (tv w1)) (usName x) = dNameKey (committed (tv w1)) ?n \<and> usID x = j \<and> usHash x = k"
    by (simp add: on_ok_def row)
  moreover have "dNameKey (committed (tv w1)) = dNameKey ?d" by (simp add: d(1))
  ultimately obtain x where x: "x \<in> set (dUsers (committed (tv w1)))"
    "dNameKey ?d (usName x) = dNameKey ?d ?n" "usID x = j" "usHash x = k" by auto
  with d have xx: "x = ?x" by force
  have new: "?x \<notin> set (dUsers ?d)" using d(2) by force
  have cmp: "CheckPasswordHash lib (urPassword req) k" using h x(4) xx by (simp add: CheckPasswordHash_def)
  obtain g w3 where gen: "GenerateToken lib js ?n i w2 = (g, w3)" by (cases "GenerateToken lib js ?n i w2")
  have get: "GetUserByUsername my ?n w1 = (Inr (k, i), w2)" using found x(3) xx by (simp add: GetUserByUsername_def on_call_def row)
  show ?thesis
  proof (rule exI [of _ ?x], intro conjI)
    show "?x \<in> set (dUsers (committed (tv w1))) - set (dUsers ?d)" using new by (simp add: d(1))
    show "(\<exists>e w3. GenerateToken lib js ?n (usID ?x) w2 = (Inl e, w3))
       \<or> (\<exists>tok w3. LoginHandler lib js my body2 w1
             = (ReplySuccessWithData ''Login successful'' (JObj [(''token'', JStr tok)]), w3)
           \<and> (\<forall>t1 v1 v t v'. alNow lib w2 = (t1, v1) \<and> alNow lib v = (t, v')
                \<and> (\<forall>u2 t2 t3. alNow lib v1 = (t2, u2) \<and> alNow lib u2 = (t3, w3) \<longrightarrow> t3 \<le> t)
                \<and> t < (t1 + sint (expireDuration js)) div 1000000000 * 1000000000 \<longrightarrow>
                JWTAuthMiddleware lib js (''Bearer '' @ tok) v = (Inr (usID ?x, ?n), v')))"
    proof (cases g)
      case (Inr tok)
      have "LoginHandler lib js my body2 w1 = (ReplySuccessWithData ''Login successful'' (JObj [(''token'', JStr tok)]), w3)"
        using login cmp gen Inr by (simp add: LoginHandler_def on_call_def get)
      moreover have "JWTAuthMiddleware lib js (''Bearer '' @ tok) v = (Inr (i, ?n), v')"
        if "alNow lib w2 = (t1, v1)" "alNow lib v = (t, v')"
          "\<forall>u2 t2 t3. alNow lib v1 = (t2, u2) \<and> alNow lib u2 = (t3, w3) \<longrightarrow> t3 \<le> t"
          "t < (t1 + sint (expireDuration js)) div 1000000000 * 1000000000" for t1 v1 v t v'
        using token_accepted [OF laws gen [unfolded Inr] that(1,2)] that(3,4) by simp
      ultimately show ?thesis by auto
    qed (use gen in auto)
  qed simp
qed

text \<open>
  The request accepts passwords of up to 100 runes and names of up to 50, but bcrypt takes 72 bytes and
  \<open>CreateUser\<close> counts bytes: such a registration passes the binding and is answered with 500 and no user.
\<close>

theorem long_credentials_fail:
  assumes "auth_laws lib tv" "bind_user_register body = Inr req" "RegisterHandler lib my body w = (rep, w')"
    and "72 < length (urPassword req) \<or> 50 < length (urUsername req) \<or> 50 < length (urNickname req)"
  shows "status rep = 500 \<and> tv w' = tv w"
proof -
  obtain r w1 where h: "alHash lib (urPassword req) w = (r, w1)" by (cases "alHash lib (urPassword req) w")
  from assms(1) h have "tv w1 = tv w" "\<forall>x. r = Inr x \<longrightarrow> length (urPassword req) \<le> 72"
    unfolding auth_laws_def by blast+
  with assms(2-4) h show ?thesis
    by (cases r) (auto simp: RegisterHandler_def HashPassword_def on_call_def CreateUser_def then_io_def reply_defs split: if_splits)
qed

section \<open>A world with users\<close>

definition demo_claims :: jwt_claims where
  "demo_claims = \<lparr>jcUserName = ''bob'', jcUserID = 2, jcExpiresAt = 8200, jcIssuedAt = 1000, jcNotBefore = 1000\<rparr>"

text \<open>A library that signs the claims of one login at second 1000, with the default key.\<close>

definition demo_auth :: "'w auth_lib" where
  "demo_auth = \<lparr>alHash = (\<lambda>p w. (if length p \<le> 72 then Inr (''$2a$10$'' @ p) else Inl (ErrText ''bcrypt: password length exceeds 72 bytes''), w)),
     alCompare = (\<lambda>h p. if h = ''$2a$10$'' @ p then None else Some (ErrText ''mismatch'')),
     alNow = (\<lambda>w. (1000000000000, w)),
     alSign = (\<lambda>key c. if key = jwtSecretKey jwt_defaults \<and> c = demo_claims then Inr ''signed'' else Inl (ErrText ''not signed'')),
     alParse = (\<lambda>key now tok. if key = jwtSecretKey jwt_defaults \<and> tok = ''signed'' \<and> 1000000000000 \<le> now \<and> now < 8200000000000
        then Inr demo_claims else Inl (ErrText ''token is expired''))\<rparr>"

lemma demo_auth_laws: "auth_laws demo_auth tv"
  by (auto simp: auth_laws_def demo_auth_def demo_claims_def split: if_splits)

definition u_start :: gworld where
  "u_start = g_start\<lparr>gwTabs := (gwTabs g_start)\<lparr>committed := (committed (gwTabs g_start))\<lparr>dUsers := []\<rparr>\<rparr>\<rparr>"

definition demo_credentials :: wire where
  "demo_credentials = Doc (JObj [(''username'', JStr ''bob''), (''password'', JStr ''secret'')])"

definition demo_user :: user_request where
  "demo_user = \<lparr>urUsername = ''bob'', urPassword = ''secret'', urNickname = []\<rparr>"

lemma demo_binds: "bind_user_register demo_credentials = Inr demo_user" "bind_login demo_credentials = Inr demo_user"
  by code_simp+

theorem registered_user_logs_in_witness:
  "\<exists>w1. RegisterHandler demo_auth g_mysql demo_credentials u_start = (ReplySuccess ''User registered successfully'', w1)
    \<and> LoginHandler demo_auth jwt_defaults g_mysql demo_credentials w1
        = (ReplySuccessWithData ''Login successful'' (JObj [(''token'', JStr ''signed'')]), w1)
    \<and> JWTAuthMiddleware demo_auth jwt_defaults (''Bearer '' @ ''signed'') w1 = (Inr (2, ''bob''), w1)"
proof -
  obtain w1 where reg: "RegisterHandler demo_auth g_mysql demo_credentials u_start = (ReplySuccess ''User registered successfully'', w1)"
    and u: "dUsers (committed (gwTabs w1)) = [\<lparr>usID = 2, usName = ''bob'', usHash = ''$2a$10$secret'', usNick = [], usJoined = None\<rparr>]"
    by (simp add: RegisterHandler_def demo_binds demo_user_def HashPassword_def CreateUser_def InsertUser_def demo_auth_def
        u_start_def g_start_def g_eval_db)
  have st: "status (ReplySuccess ''User registered successfully'') = 200" by (simp add: reply_defs)
  have q: "dbUser g_mysql (urUsername demo_user) w1 = (Inr (2, ''$2a$10$secret''), w1)"
    by (simp add: g_mysql_def query_def at_tabs_def u map_ok_def first_row_def demo_user_def)
  have gen: "GenerateToken demo_auth jwt_defaults ''bob'' 2 w = (Inr ''signed'', w)" for w
    by (simp add: GenerateToken_def then_io_def demo_auth_def jwt_defaults_def NewNumericDate_def sint_seconds demo_claims_def)
  have x: "dUsers (committed (gwTabs u_start)) = []" by (simp add: u_start_def)
  have time: "(1000000000000 :: int) < (1000000000000 + sint (expireDuration jwt_defaults)) div 1000000000 * 1000000000"
    by (simp add: jwt_defaults_def sint_seconds)
  have now: "alNow demo_auth w = (1000000000000, w)" for w by (simp add: demo_auth_def)
  from registered_user_logs_in [OF g_mysql_laws demo_auth_laws reg st demo_binds(1,2) refl refl q, of jwt_defaults]
  obtain tok w3 where l: "LoginHandler demo_auth jwt_defaults g_mysql demo_credentials w1
        = (ReplySuccessWithData ''Login successful'' (JObj [(''token'', JStr tok)]), w3)"
    and m: "JWTAuthMiddleware demo_auth jwt_defaults (''Bearer '' @ tok) w1 = (Inr (2, ''bob''), w1)"
    using time by (auto simp: u x demo_user_def gen now)
  have "CheckPasswordHash (demo_auth :: gworld auth_lib) ''secret'' ''$2a$10$secret''" by (simp add: CheckPasswordHash_def demo_auth_def)
  with l q have "tok = ''signed'' \<and> w3 = w1"
    by (auto simp: LoginHandler_def demo_binds GetUserByUsername_def on_call_def demo_user_def reply_defs gen)
  with reg l m show ?thesis by auto
qed

definition long_password :: wire where
  "long_password = Doc (JObj [(''username'', JStr ''bob''), (''password'', JStr (replicate 73 CHR ''a''))])"

theorem long_credentials_fail_witness:
  "\<exists>w'. RegisterHandler demo_auth g_mysql long_password u_start = (ReplyError500 ''Failed to hash password'', w') \<and> gwTabs w' = gwTabs u_start"
proof -
  have b: "bind_user_register long_password = Inr \<lparr>urUsername = ''bob'', urPassword = replicate 73 CHR ''a'', urNickname = []\<rparr>"
    by code_simp
  obtain w' where run: "RegisterHandler demo_auth g_mysql long_password u_start = (ReplyError500 ''Failed to hash password'', w')"
    by (simp add: RegisterHandler_def b HashPassword_def on_call_def demo_auth_def)
  from long_credentials_fail [OF demo_auth_laws b run] run show ?thesis by simp
qed

end
