(* ===== verification/Schema.thy ===== *)
theory Schema
  imports MsgStore Users
begin

text \<open>
  The tables as a typed store: what the keys of \<open>model/*.sql\<close> promise of their rows, and that every
  statement the program issues, and so every request and every pass of the background processes, keeps it.
\<close>

section \<open>Well-formed tables\<close>

text \<open>Primary keys, and the unique name of a user.\<close>

definition well_formed :: "db \<Rightarrow> bool" where
  "well_formed d \<longleftrightarrow> distinct (map (rmID \<circ> fst) (dRooms d)) \<and> distinct (map usID (dUsers d))
     \<and> distinct (map (dNameKey d \<circ> usName) (dUsers d)) \<and> distinct (map jrID (dRequests d))
     \<and> distinct (map cmID (dMessages d))"

definition sound :: "tables \<Rightarrow> bool" where
  "sound t \<longleftrightarrow> well_formed (committed t) \<and> (\<forall>d. working t = Some d \<longrightarrow> well_formed d)"

lemma map_update_where: "(\<And>x. g (f x) = g x) \<Longrightarrow> map g (update_where p f xs) = map g xs"
  by (simp add: update_where_def)

lemma update_members_keeps [simp]:
  "dRooms (update_members r f d) = dRooms d" "dUsers (update_members r f d) = dUsers d"
  "dRequests (update_members r f d) = dRequests d" "dMessages (update_members r f d) = dMessages d"
  "dNameKey (update_members r f d) = dNameKey d"
  by (simp_all add: update_members_def)

theorem statement_keeps_form:
  "runs q d \<Longrightarrow> fresh_row q i d \<Longrightarrow> well_formed d \<Longrightarrow> well_formed (apply_sql i q d)"
  by (cases q) (auto simp: well_formed_def map_update_where distinct_map_filter)

section \<open>Code that keeps the tables well-formed\<close>

definition stays :: "('w \<Rightarrow> tables) \<Rightarrow> ('w, 'a) io \<Rightarrow> bool" where
  "stays tv m \<longleftrightarrow> (\<forall>w. sound (tv w) \<longrightarrow> sound (tv (snd (m w))))"

named_theorems staying \<open>rules for code that keeps the tables well-formed\<close>

lemma stays_keeps: "keeps tv m \<Longrightarrow> stays tv m"
  by (simp add: stays_def keeps_def)

lemma stays_reads: "reads tv m P \<Longrightarrow> stays tv m"
  unfolding stays_def reads_def by (metis prod.collapse)

lemma stays_read1: "\<forall>x. reads tv (f x) (P x) \<Longrightarrow> stays tv (f r)"
  using stays_reads by blast

lemma stays_read2: "\<forall>x y. reads tv (f x y) (P x y) \<Longrightarrow> stays tv (f r u)"
  using stays_reads by blast

lemma stays_return [staying]: "stays tv (return v)"
  by (simp add: stays_def)

lemma stays_then [staying]: "stays tv m \<Longrightarrow> (\<And>v. stays tv (k v)) \<Longrightarrow> stays tv (then_io m k)"
  unfolding stays_def then_io_def by (simp add: split_beta)

lemma stays_call [staying]:
  assumes "stays tv m" "\<And>e. stays tv (h e)" "\<And>v. stays tv (k v)"
  shows "stays tv (on_call m h k)"
  unfolding stays_def
proof (intro allI impI)
  fix w assume s: "sound (tv w)"
  obtain r w1 where c: "m w = (r, w1)" by (cases "m w")
  with s assms(1) have "sound (tv w1)" by (auto simp: stays_def dest: spec [of _ w])
  with c assms(2,3) show "sound (tv (snd (on_call m h k w)))" by (cases r) (simp_all add: on_call_def stays_def)
qed

lemma stays_if [staying]: "stays tv a \<Longrightarrow> stays tv b \<Longrightarrow> stays tv (if c then a else b)"
  by simp

lemma stays_option [staying]: "stays tv a \<Longrightarrow> (\<And>x. stays tv (f x)) \<Longrightarrow> stays tv (case v of None \<Rightarrow> a | Some x \<Rightarrow> f x)"
  by (cases v) auto

lemma stays_sum [staying]: "(\<And>x. stays tv (f x)) \<Longrightarrow> (\<And>x. stays tv (g x)) \<Longrightarrow> stays tv (case v of Inl x \<Rightarrow> f x | Inr x \<Rightarrow> g x)"
  by (cases v) auto

lemma stays_prod [staying]: "(\<And>x y. stays tv (f x y)) \<Longrightarrow> stays tv (case v of (x, y) \<Rightarrow> f x y)"
  by (cases v) auto

lemma stays_prod_app [staying]: "(\<And>x y. stays tv (f x y u)) \<Longrightarrow> stays tv ((case v of (x, y) \<Rightarrow> f x y) u)"
  by (cases v) auto

lemma stays_sugar [staying]:
  "stays tv m \<Longrightarrow> stays tv n \<Longrightarrow> stays tv (try_call m n)"
  "stays tv m \<Longrightarrow> stays tv n \<Longrightarrow> stays tv (try_unless_nil m n)"
  "stays tv m \<Longrightarrow> stays tv k \<Longrightarrow> stays tv (ignoring m k)"
  by (auto intro!: staying simp: try_call_def try_unless_nil_def ignoring_def simp del: return_simp)

lemma stays_for_each [staying]: "(\<And>x. stays tv (f x)) \<Longrightarrow> stays tv (for_each f xs)"
  by (induction xs) (auto intro!: staying simp del: return_simp)

lemma stays_for_each_err [staying]: "(\<And>x. stays tv (f x)) \<Longrightarrow> stays tv (for_each_err f xs)"
  by (induction xs) (auto intro!: staying simp del: return_simp split: option.split)

lemma stays_retry [staying]: "stays tv m \<Longrightarrow> stays tv (retry_loop n stop acc m)"
proof (induction n arbitrary: acc)
  case (Suc n)
  then show ?case unfolding stays_def by (force split: prod.split sum.split)
qed (simp add: stays_def)

lemma stays_exec:
  assumes "writes_db tv q m"
  shows "stays tv m"
  unfolding stays_def
proof (intro allI impI)
  fix w assume s: "sound (tv w)"
  obtain r w' where c: "m w = (r, w')" by (cases "m w")
  with assms have "working (tv w') = working (tv w) \<and> (committed (tv w') = committed (tv w)
      \<or> (\<exists>i. runs q (committed (tv w)) \<and> fresh_row q i (committed (tv w)) \<and> committed (tv w') = apply_sql i q (committed (tv w))))"
    unfolding writes_db_def by (cases r) fastforce+
  with s c show "sound (tv (snd (m w)))" by (auto simp: sound_def intro: statement_keeps_form)
qed

lemma stays_tx:
  assumes "writes_tx tv q m"
  shows "stays tv m"
  unfolding stays_def
proof (intro allI impI)
  fix w assume s: "sound (tv w)"
  obtain r w' where c: "m w = (r, w')" by (cases "m w")
  with assms have "committed (tv w') = committed (tv w) \<and> (working (tv w') = None \<or> working (tv w') = working (tv w)
      \<or> (\<exists>d i. working (tv w) = Some d \<and> runs q d \<and> fresh_row q i d \<and> working (tv w') = Some (apply_sql i q d)))"
    unfolding writes_tx_def by (cases r) fastforce+
  with s c show "sound (tv (snd (m w)))" by (auto simp: sound_def intro: statement_keeps_form)
qed

lemma stays_mutates:
  assumes "mutates tv m f" "\<And>t. sound t \<Longrightarrow> sound (f t)"
  shows "stays tv m"
  unfolding stays_def
proof (intro allI impI)
  fix w assume s: "sound (tv w)"
  obtain r w' where c: "m w = (r, w')" by (cases "m w")
  with assms(1) have "tv w' = tv w \<or> tv w' = f (tv w)" unfolding mutates_def by (cases r) fastforce+
  with s c assms(2) show "sound (tv (snd (m w)))" by auto
qed

section \<open>Every request and every background pass\<close>

text \<open>
  The services of a meta, send or flusher process: Redis commands leave the tables alone. Every operation
  below is a few calls of these services, so the rules above decide it.
\<close>

locale storage_services =
  fixes env :: "'w group_env" and lib :: "'w auth_lib" and st :: "'w redis role_clients" and rd :: "'w redis"
    and sv :: "'w \<Rightarrow> store" and tv :: "'w \<Rightarrow> tables"
  assumes group: "group_laws env sv tv" and auth: "auth_laws lib tv"
    and client: "cache_client st rd" and list: "keeps tv (cRPush rd k v)" "keeps tv (cLPop rd k)"
begin

lemma my: "mysql_laws (geDB env) tv"
  using group by (simp add: group_laws_def)

lemma db_stays [staying]:
  "stays tv (dbExec (geDB env) q)" "stays tv (dbTxExec (geDB env) q)"
  "stays tv (dbBegin (geDB env))" "stays tv (dbCommit (geDB env))" "stays tv (dbRollback (geDB env))"
proof -
  from my have b: "mutates tv (dbBegin (geDB env)) (\<lambda>s. s\<lparr>working := Some (committed s)\<rparr>)"
    and c: "mutates tv (dbCommit (geDB env)) (\<lambda>s. case working s of None \<Rightarrow> s | Some d \<Rightarrow> \<lparr>committed = d, working = None\<rparr>)"
    and r: "mutates tv (dbRollback (geDB env)) (\<lambda>s. s\<lparr>working := None\<rparr>)"
    and e: "writes_db tv q (dbExec (geDB env) q)" and t: "writes_tx tv q (dbTxExec (geDB env) q)"
    by (simp_all add: mysql_laws_def)
  show "stays tv (dbExec (geDB env) q)" by (rule stays_exec [OF e])
  show "stays tv (dbTxExec (geDB env) q)" by (rule stays_tx [OF t])
  show "stays tv (dbBegin (geDB env))" by (rule stays_mutates [OF b]) (simp add: sound_def)
  show "stays tv (dbCommit (geDB env))" by (rule stays_mutates [OF c]) (auto simp: sound_def split: option.split)
  show "stays tv (dbRollback (geDB env))" by (rule stays_mutates [OF r]) (simp add: sound_def)
qed

lemma query_stays [staying]:
  "stays tv (dbRole (geDB env) r u)"
  "stays tv (dbIsGroup (geDB env) r)"
  "stays tv (dbCount (geDB env) r u)"
  "stays tv (dbMemberIDs (geDB env) r)"
  "stays tv (dbJoined (geDB env) u)"
  "stays tv (dbSearch (geDB env) t n)"
  "stays tv (dbRequests (geDB env) r)"
  "stays tv (dbRequest (geDB env) q)"
  "stays tv (dbUser (geDB env) t)"
proof -
  note laws = my [unfolded mysql_laws_def]
  show "stays tv (dbRole (geDB env) r u)" using laws by (elim conjE) (erule stays_read2)
  show "stays tv (dbIsGroup (geDB env) r)" using laws by (elim conjE) (erule stays_read1)
  show "stays tv (dbCount (geDB env) r u)" using laws by (elim conjE) (erule stays_read2)
  show "stays tv (dbMemberIDs (geDB env) r)" using laws by (elim conjE) (erule stays_read1)
  show "stays tv (dbJoined (geDB env) u)" using laws by (elim conjE) (erule stays_read1)
  show "stays tv (dbSearch (geDB env) t n)" using laws by (elim conjE) (erule stays_read2)
  show "stays tv (dbRequests (geDB env) r)" using laws by (elim conjE) (erule stays_read1)
  show "stays tv (dbRequest (geDB env) q)" using laws by (elim conjE) (erule stays_read1)
  show "stays tv (dbUser (geDB env) t)" using laws by (elim conjE) (erule stays_read1)
qed

lemma redis_stays [staying]:
  "stays tv (geZRemExpire env d m k n)" "stays tv (cSAdd (geRedis env) k ms)" "stays tv (cSRem (geRedis env) k ms)"
  "stays tv (cSMembers (geRedis env) k)" "stays tv (cSIsMember (geRedis env) k m)" "stays tv (cZScore (geRedis env) k m)"
  "stays tv (cZAdd (geRedis env) k sc m)" "stays tv (cZRangeByScore (geRedis env) k sc)" "stays tv (cZRem (geRedis env) k ms)"
  "stays tv (cZRange (geRedis env) k a b)" "stays tv (cExpire (geRedis env) k n)" "stays tv (cPersist (geRedis env) k)"
  using group by (simp_all add: group_laws_def stays_keeps)

lemma auth_stays [staying]: "stays tv (alHash lib p)" "stays tv (alNow lib)"
  using auth unfolding auth_laws_def stays_def by (metis prod.collapse)+

lemma cache_stays [staying]: "stays tv (SendCacheRPushWithRetry st n k v)" "stays tv (SendCacheLPopWithRetry st n k)"
proof -
  have "SendCacheRPushWithRetry st n k v = retry_loop n never (Inr ()) (cRPush rd k v)"
    "SendCacheLPopWithRetry st n k = retry_loop n on_nil (Inr (Raw [])) (cLPop rd k)"
    using client by (simp_all add: SendCacheRPushWithRetry_def sendRPushWithRetry_def SendCacheLPopWithRetry_def
        sendLPopWithRetry_def cache_client_def fun_eq_iff)
  then show "stays tv (SendCacheRPushWithRetry st n k v)" "stays tv (SendCacheLPopWithRetry st n k)"
    by (simp_all add: stays_retry stays_keeps list)
qed

text \<open>The wrappers and the shared pieces.\<close>

lemma pieces_stay [staying]:
  "stays tv (SAddWithRetry (geRedis env) n k ms)" "stays tv (SMembersWithRetry (geRedis env) n k)"
  "stays tv m \<Longrightarrow> stays tv (touch (geRedis env) dk mb k ttl m)"
  "stays tv (exec env q)" "stays tv m \<Longrightarrow> stays tv (with_requests env m)"
  unfolding SAddWithRetry_def SMembersWithRetry_def touch_def exec_def with_requests_def
  by (intro staying; assumption)+

lemmas operation_defs =
  AddRoomMemberCache_def AddRoomMembersCache_def RemoveRoomMemberCache_def GetRoomMemberIDsCache_def
  IsRoomMemberCache_def GetUserJoinedRoomsCache_def PopDirtyGroups_def PopDirtyUsers_def InsertRoom_def
  CreateRoomMemberTable_def InsertRoomMember_def InsertRoomMembers_def DeleteRoomMember_def UpdateMemberNickname_def
  QueryMemberRole_def UpdateMemberRole_def UpdateMuteUntil_def QueryIsGroupRoom_def SearchRoomsByName_def
  InsertJoinRequest_def QueryPendingJoinRequestsByRoom_def QueryJoinRequestByID_def DeleteJoinRequestByID_def

lemma caches_stay [staying]:
  "stays tv (AddRoomMemberCache env now r u)" "stays tv (AddRoomMembersCache env now r us)"
  "stays tv (RemoveRoomMemberCache env now r u)" "stays tv (GetRoomMemberIDsCache env r)"
  "stays tv (IsRoomMemberCache env r u)" "stays tv (GetUserJoinedRoomsCache env u)"
  "stays tv (PopDirtyGroups env n)" "stays tv (PopDirtyUsers env n)"
  unfolding operation_defs Let_def by (intro staying)+

lemma repo_stays [staying]:
  "stays tv (InsertRoom env ts n g c)" "stays tv (CreateRoomMemberTable env r)" "stays tv (InsertRoomMember env now r u)"
  "stays tv (InsertRoomMembers env now r us)" "stays tv (DeleteRoomMember env now r u)"
  "stays tv (UpdateMemberNickname env r u n)" "stays tv (QueryMemberRole env r u)" "stays tv (UpdateMemberRole env r u l)"
  "stays tv (UpdateMuteUntil env r u t)" "stays tv (QueryIsGroupRoom env r)" "stays tv (SearchRoomsByName env t k)"
  "stays tv (InsertJoinRequest env ts r u t)" "stays tv (QueryPendingJoinRequestsByRoom env r)"
  "stays tv (QueryJoinRequestByID env q)" "stays tv (DeleteJoinRequestByID env q)"
  unfolding operation_defs Let_def by (intro staying)+

lemma lookups_stay [staying]:
  "stays tv (IsRoomMember env r u)" "stays tv (QueryJoinedRooms env u)" "stays tv (QueryRoomMemberIDs env r)"
  unfolding IsRoomMember_def QueryJoinedRooms_def QueryRoomMemberIDs_def Let_def by (intro staying)+

lemma service_stays [staying]:
  "stays tv (CreateRoom env now ts n g c ms)" "stays tv (AddRoomMember env now r u q)" "stays tv (AddRoomMembers env now r us q)"
  "stays tv (ChangeMemberNickname env r u n)" "stays tv (ChangeMemberRole env r u l q)" "stays tv (RemoveRoomMember env now r u q)"
  "stays tv (MuteMember env r u t q)" "stays tv (GetJoinedChatRooms env u)" "stays tv (JoinRoom env now u r)"
  "stays tv (SearchRooms env t k)" "stays tv (GetPendingJoinRequests env q r)" "stays tv (RespondJoinRequest env now q i ok)"
  unfolding CreateRoom_def AddRoomMember_def AddRoomMembers_def ChangeMemberNickname_def ChangeMemberRole_def
    RemoveRoomMember_def MuteMember_def GetJoinedChatRooms_def JoinRoom_def SearchRooms_def GetPendingJoinRequests_def
    RespondJoinRequest_def
  by (intro staying)+

lemma replies_stay [staying]:
  "(\<And>req u. stays tv (k req u)) \<Longrightarrow> stays tv (authed b uid k)" "stays tv m \<Longrightarrow> stays tv (replying msg m)"
  "stays tv n \<Longrightarrow> stays tv (replying_with msg f n)"
  unfolding authed_def replying_def replying_with_def by (intro staying; assumption)+

lemma flushers_stay [staying]:
  "stays tv (replace_members env r ms)" "stays tv (writeBackGroup env r)" "stays tv (writeBackUser env u)"
  "stays tv (flush_group env r)" "stays tv (flush_user env u)"
proof -
  show rm: "stays tv (replace_members env r ms)" for r ms unfolding replace_members_def Let_def by (intro staying)
  show "stays tv (writeBackGroup env r)" unfolding writeBackGroup_def by (intro staying rm)
  show "stays tv (writeBackUser env u)" unfolding writeBackUser_def by (intro staying)
  show "stays tv (flush_group env r)" unfolding flush_group_def flush_rest_def by (intro staying rm)
  show "stays tv (flush_user env u)" unfolding flush_user_def by (intro staying)
qed

lemma ticks_stay [staying]: "stays tv (flusher_tick env n now)" "stays tv (flushOnce st (geDB env) e k)"
  unfolding flusher_tick_def CleanStaleDirty_def clean_stale_def processDirtyGroups_def processDirtyUsers_def
    flushOnce_def insertBatch_def push_cached_def
proof -
  have "stays tv (pop_cached st e k acc)" for acc
    by (induction k arbitrary: acc) (auto intro!: staying split: prod.split option.split simp del: return_simp)
  then show "stays tv (then_io (pop_cached st e k [])
      (\<lambda>msgs. if msgs = [] then return () else then_io (try_call (dbExec (geDB env) (InsertMessagesSql msgs)) (return None))
        (\<lambda>e. case e of None \<Rightarrow> return () | Some x \<Rightarrow> for_each (\<lambda>m. ignoring (SendCacheRPushWithRetry st 2 messages_key
            (case cached_json m of Inl _ \<Rightarrow> Raw [] | Inr j \<Rightarrow> Doc j)) (return ())) (rev msgs))))"
    by (intro staying)
qed (intro staying)+

lemma user_stays [staying]: "stays tv (RegisterHandler lib (geDB env) body)" "stays tv (LoginHandler lib js (geDB env) body)"
  unfolding RegisterHandler_def LoginHandler_def HashPassword_def CreateUser_def InsertUser_def GetUserByUsername_def
    GenerateToken_def
  by (intro staying)+

end

text \<open>
  What touches the tables: the meta service's handlers, for any body and any user, the two storage calls of
  the requests that also push (\<open>RequestJoin\<close> stores its request), registration and login, a tick of the
  group flusher and a pass of the message flusher. Each is one step.
\<close>

inductive storage_step :: "'w group_env \<Rightarrow> 'w auth_lib \<Rightarrow> 'w redis role_clients \<Rightarrow> 'w \<Rightarrow> 'w \<Rightarrow> bool"
  for env lib st where
  create: "storage_step env lib st w (snd (CreateRoomHandler env now ts body uid w))"
| add: "storage_step env lib st w (snd (AddRoomMemberHandler env now body uid w))"
| add_many: "storage_step env lib st w (snd (AddRoomMembersHandler env now body uid w))"
| nickname: "storage_step env lib st w (snd (ChangeNicknameHandler env body uid w))"
| role: "storage_step env lib st w (snd (ChangeMemberRoleHandler env body uid w))"
| remove: "storage_step env lib st w (snd (RemoveMemberHandler env now body uid w))"
| join: "storage_step env lib st w (snd (JoinRoomHandler env now body uid w))"
| search: "storage_step env lib st w (snd (SearchRoomsHandler env q limit w))"
| request: "storage_step env lib st w (snd (InsertJoinRequest env ts r u message w))"
| requests: "storage_step env lib st w (snd (GetPendingJoinRequestsHandler env room uid w))"
| respond: "storage_step env lib st w (snd (RespondJoinRequestHandler env now body uid w))"
| joined: "storage_step env lib st w (snd (GetJoinedRoomsHandler env uid w))"
| register: "storage_step env lib st w (snd (RegisterHandler lib (geDB env) body w))"
| login: "storage_step env lib st w (snd (LoginHandler lib js (geDB env) body w))"
| flush_tick: "storage_step env lib st w (snd (flusher_tick env n now w))"
| message_flush: "storage_step env lib st w (snd (flushOnce st (geDB env) e k w))"

context storage_services
begin

lemma handlers_stay:
  "stays tv (CreateRoomHandler env now ts body uid)" "stays tv (AddRoomMemberHandler env now body uid)"
  "stays tv (AddRoomMembersHandler env now body uid)" "stays tv (ChangeNicknameHandler env body uid)"
  "stays tv (ChangeMemberRoleHandler env body uid)" "stays tv (RemoveMemberHandler env now body uid)"
  "stays tv (JoinRoomHandler env now body uid)" "stays tv (SearchRoomsHandler env q limit)"
  "stays tv (GetPendingJoinRequestsHandler env room uid)" "stays tv (RespondJoinRequestHandler env now body uid)"
  "stays tv (GetJoinedRoomsHandler env uid)"
  unfolding CreateRoomHandler_def AddRoomMemberHandler_def AddRoomMembersHandler_def ChangeNicknameHandler_def
    ChangeMemberRoleHandler_def RemoveMemberHandler_def JoinRoomHandler_def SearchRoomsHandler_def
    GetPendingJoinRequestsHandler_def RespondJoinRequestHandler_def GetJoinedRoomsHandler_def Let_def
  by (intro staying)+

lemma step_sound: "storage_step env lib st w w' \<Longrightarrow> sound (tv w) \<Longrightarrow> sound (tv w')"
  by (induction rule: storage_step.induct)
     (use handlers_stay repo_stays user_stays ticks_stay in \<open>simp_all add: stays_def\<close>)

lemma reachable_sound: "(storage_step env lib st)\<^sup>*\<^sup>* w w' \<Longrightarrow> sound (tv w) \<Longrightarrow> sound (tv w')"
  by (induction rule: rtranclp_induct) (auto dest: step_sound)

end


lemma m_list_keeps: "keeps gwTabs (cRPush m_redis k v)" "keeps gwTabs (cLPop m_redis k)"
  by (auto simp: keeps_def m_redis_def split: list.split)

interpretation gs: storage_services g_env demo_auth m_clients m_redis g_store gwTabs
  by unfold_locales (simp_all add: g_laws demo_auth_laws m_client m_list_keeps)


end
