(* ===== verification/Routers.thy ===== *)
theory Routers
  imports MsgStore Users Standalone GwWs
begin

text \<open>
  The routes of \<open>cmd/meta/router.go\<close>, \<open>cmd/send/router.go\<close>, \<open>cmd/gateway/route.go\<close> and
  \<open>internal/server/router.go\<close> (the registry's are in \<open>RegClient\<close>): which handler serves a request, behind
  the middleware or not. \<open>internal/gateway/center/handler.go\<close>, reached from the gateway's routes, is here
  too.
\<close>

section \<open>Requests\<close>

record http_request =
  rqMethod :: string
  rqPath :: string
  rqAuth :: string
  rqQuery :: "string \<Rightarrow> string"
  rqBody :: wire

text \<open>
  What a server does with a request: gin's 404, the metrics page, a reply, a reply with the user whom a
  goroutine then serves with \<open>PushOfflineMessages\<close>, or a connection that a websocket handler serves.
\<close>

datatype served =
    NotFound
  | MetricsPage
  | Answer reply
  | AnswerAndPush reply "int64 option"
  | GatewaySocket ws_start
  | SendSocket ws_start_send

definition in_ws :: "('w, 'a) io \<Rightarrow> ('w ws_proc, 'a) proc" where
  "in_ws m = in_send (in_world (run_io m))"

definition in_gw :: "('w, 'a) io \<Rightarrow> ('w gw_proc, 'a) proc" where
  "in_gw m s = (case m (gw_world s) of (v, w) \<Rightarrow> Inr (v, s\<lparr>gw_world := w\<rparr>))"

definition answer :: "('w ws_proc, reply) proc \<Rightarrow> ('w ws_proc, served) proc" where
  "answer m = then_do m (\<lambda>r. returns (Answer r))"

text \<open>\<open>Group("/api", JWTAuthMiddleware())\<close>: the handler runs with the token's user.\<close>

definition with_token :: "'w auth_lib \<Rightarrow> jwt_state \<Rightarrow> http_request \<Rightarrow> (int64 \<Rightarrow> ('w ws_proc, served) proc) \<Rightarrow>
    ('w ws_proc, served) proc" where
  "with_token lib js req k =
     then_do (in_ws (JWTAuthMiddleware lib js (rqAuth req)))
       (\<lambda>a. case a of Inl rep \<Rightarrow> returns (Answer rep) | Inr (u, _) \<Rightarrow> k u)"

section \<open>The meta service\<close>

text \<open>The group handlers behind the middleware, for the paths below \<open>/api\<close>.\<close>

definition group_post :: "'w group_env \<Rightarrow> int \<Rightarrow> string \<Rightarrow> string \<Rightarrow> wire \<Rightarrow> int64 \<Rightarrow> ('w ws_proc, served) proc option" where
  "group_post env now ts path body u =
     (let io = (\<lambda>m. Some (answer (in_ws m))); uid = Some u in
      if path = ''/api/chat/group/create'' then io (CreateRoomHandler env now ts body uid)
      else if path = ''/api/chat/group/add_member'' then io (AddRoomMemberHandler env now body uid)
      else if path = ''/api/chat/group/add_members'' then io (AddRoomMembersHandler env now body uid)
      else if path = ''/api/chat/group/change_nickname'' then io (ChangeNicknameHandler env body uid)
      else if path = ''/api/chat/group/change_member_role'' then io (ChangeMemberRoleHandler env body uid)
      else if path = ''/api/chat/group/remove_member'' then io (RemoveMemberHandler env now body uid)
      else None)"

definition join_post :: "'w group_env \<Rightarrow> int \<Rightarrow> string \<Rightarrow> string \<Rightarrow> wire \<Rightarrow> int64 \<Rightarrow> ('w ws_proc, served) proc option" where
  "join_post env now ts path body u =
     (if path = ''/api/chat/group/join'' then Some (answer (in_ws (JoinRoomHandler env now body (Some u))))
      else if path = ''/api/chat/group/join/request'' then Some (answer (RequestJoinHandler env ts body (Some u)))
      else if path = ''/api/chat/group/join/respond'' then Some (answer (in_ws (RespondJoinRequestHandler env now body (Some u))))
      else None)"

definition group_get :: "'w group_env \<Rightarrow> string \<Rightarrow> (string \<Rightarrow> string) \<Rightarrow> int64 \<Rightarrow> ('w ws_proc, served) proc option" where
  "group_get env path qs u =
     (if path = ''/api/chat/group/search'' then Some (answer (in_ws (SearchRoomsHandler env (qs ''q'') (qs ''limit''))))
      else if path = ''/api/chat/group/join/requests'' then
        Some (answer (in_ws (GetPendingJoinRequestsHandler env (qs ''room_id'') (Some u))))
      else if path = ''/api/joined_rooms'' then Some (answer (in_ws (GetJoinedRoomsHandler env (Some u))))
      else None)"

text \<open>A route that exists runs the middleware first; one that does not is a 404 without it.\<close>

definition guarded :: "'w auth_lib \<Rightarrow> jwt_state \<Rightarrow> http_request \<Rightarrow> (int64 \<Rightarrow> ('w ws_proc, served) proc option) \<Rightarrow>
    ('w ws_proc, served) proc" where
  "guarded lib js req handler =
     (if handler 0 = None then returns NotFound else with_token lib js req (\<lambda>u. the (handler u)))"

definition or_else :: "'a option \<Rightarrow> 'a option \<Rightarrow> 'a option" where
  "or_else a b = (case a of None \<Rightarrow> b | Some x \<Rightarrow> Some x)"

definition pong :: "('w ws_proc, served) proc" where
  "pong = returns (Answer (ReplySuccess ''pong''))"

definition NewRouter_meta :: "'w group_env \<Rightarrow> 'w auth_lib \<Rightarrow> jwt_state \<Rightarrow> int \<Rightarrow> string \<Rightarrow> http_request \<Rightarrow> ('w ws_proc, served) proc" where
  "NewRouter_meta env lib js now ts req =
     (let path = rqPath req; body = rqBody req in
      if rqMethod req = ''GET'' then
        if path = ''/ping'' then pong
        else if path = ''/metrics'' then returns MetricsPage
        else guarded lib js req (group_get env path (rqQuery req))
      else if rqMethod req = ''POST'' then
        if path = ''/register'' then answer (in_ws (RegisterHandler lib (geDB env) body))
        else if path = ''/login'' then answer (in_ws (LoginHandler lib js (geDB env) body))
        else guarded lib js req (\<lambda>u. or_else (group_post env now ts path body u) (join_post env now ts path body u))
      else returns NotFound)"

section \<open>The send service\<close>

definition NewRouter_send :: "'w msg_deps \<Rightarrow> 'w auth_lib \<Rightarrow> jwt_state \<Rightarrow> string \<Rightarrow> (nat \<Rightarrow> bool) \<Rightarrow> http_request \<Rightarrow>
    ('w ws_proc, served) proc" where
  "NewRouter_send d lib js now acc req =
     (let path = rqPath req; body = rqBody req; ws = mdWs d in
      if rqMethod req = ''GET'' then
        if path = ''/ping'' then pong else if path = ''/metrics'' then returns MetricsPage else returns NotFound
      else if rqMethod req = ''POST'' then
        if path = ''/internal/pushback'' then answer (in_ws (PushbackHandler (wdFloat ws) (clients (wdSend ws)) body))
        else if path = ''/internal/push/notify_online'' then
          (case NotifyOnlineHandler body of (rep, started) \<Rightarrow> returns (AnswerAndPush rep started))
        else guarded lib js req (\<lambda>u.
          if path = ''/api/chat/send_message'' then Some (answer (SendMessageHandler d now acc body (Some u)))
          else if path = ''/api/chat/resend_message'' then Some (answer (ResendHandler d acc body (Some u)))
          else None)
      else returns NotFound)"

section \<open>The server in one process\<close>

text \<open>\<open>upgraded\<close>, \<open>wait\<close>, \<open>t0\<close> and \<open>t1\<close> are the websocket handler's connection, writer and clock.\<close>

definition NewRouter_server :: "bool \<Rightarrow> 'w msg_deps \<Rightarrow> 'w auth_lib \<Rightarrow> jwt_state \<Rightarrow> int \<Rightarrow> string \<Rightarrow> (nat \<Rightarrow> bool) \<Rightarrow>
    nat option \<Rightarrow> 'w ws_wait \<Rightarrow> int64 \<Rightarrow> int64 \<Rightarrow> http_request \<Rightarrow> ('w ws_proc, served) proc" where
  "NewRouter_server standalone d lib js now ts acc upgraded wait t0 t1 req =
     (let path = rqPath req; body = rqBody req; env = mdGroup d in
      if rqMethod req = ''GET'' then
        if path = ''/ping'' then pong
        else if path = ''/metrics'' then returns MetricsPage
        else guarded lib js req (\<lambda>u. if standalone \<and> path = ''/api/ws''
          then Some (then_do (WebSocketHandler_ws (mdWs d) upgraded (Some u) wait t0 t1) (\<lambda>r. returns (SendSocket r))) else None)
      else if rqMethod req = ''POST'' then
        if path = ''/register'' then answer (in_ws (RegisterHandler lib (geDB env) body))
        else if path = ''/login'' then answer (in_ws (LoginHandler lib js (geDB env) body))
        else guarded lib js req (\<lambda>u. or_else (group_post env now ts path body u)
          (if path = ''/api/chat/send_message'' then Some (answer (SendMessageHandler d ts acc body (Some u))) else None))
      else returns NotFound)"

section \<open>The gateway\<close>

definition ForwardHandler :: "'w gw_deps \<Rightarrow> wire \<Rightarrow> ('w gw_proc, reply) proc" where
  "ForwardHandler d body =
     (case UnmarshalJSON (gdFloat d) body zero_push of
        Inl _ \<Rightarrow> returns (ReplyBadRequest ''invalid request payload'')
      | Inr msg \<Rightarrow> then_do (Dispatch d msg)
          (\<lambda>(e, _). returns (case e of Some _ \<Rightarrow> ReplyError500 ''failed to forward message''
             | None \<Rightarrow> ReplySuccess ''message forwarded successfully'')))"

definition InitRouter :: "'w gw_deps \<Rightarrow> 'w auth_lib \<Rightarrow> jwt_state \<Rightarrow> int64 \<Rightarrow> nat option \<Rightarrow> 'w wait \<Rightarrow> int64 \<Rightarrow> int64 \<Rightarrow>
    http_request \<Rightarrow> ('w gw_proc, served) proc" where
  "InitRouter d lib js maxConnections upgraded wait t0 t1 req =
     (if rqMethod req = ''GET'' \<and> rqPath req = ''/metrics'' then returns MetricsPage
      else if rqMethod req = ''GET'' \<and> rqPath req = ''/api/ws'' then
        then_do (in_gw (JWTAuthMiddleware lib js (rqAuth req)))
          (\<lambda>a. case a of Inl rep \<Rightarrow> returns (Answer rep)
             | Inr (u, _) \<Rightarrow> then_do (WebSocketHandler_start d maxConnections upgraded (Some u) wait t0 t1) (\<lambda>r. returns (GatewaySocket r)))
      else if rqMethod req = ''POST'' \<and> rqPath req = ''/center/forward'' then
        then_do (ForwardHandler d (rqBody req)) (\<lambda>r. returns (Answer r))
      else returns NotFound)"

section \<open>Who may ask\<close>

definition after_auth :: "'w \<Rightarrow> 'w ws_proc \<Rightarrow> 'w ws_proc" where
  "after_auth w s = s\<lparr>wsSend := (wsSend s)\<lparr>sp_world := w\<rparr>\<rparr>"

lemma guarded_refuses:
  assumes "JWTAuthMiddleware lib js (rqAuth req) (sp_world (wsSend s)) = (Inl rep, w')"
  shows "guarded lib js req handler s = (if handler 0 = None then Inr (NotFound, s) else Inr (Answer rep, after_auth w' s))"
  using assms by (simp add: guarded_def with_token_def then_do_def in_ws_def in_send_def in_world_def after_auth_def)

lemma api_path:
  assumes "take 5 p = ''/api/''"
  shows "p \<noteq> ''/ping''" "p \<noteq> ''/metrics''" "p \<noteq> ''/register''" "p \<noteq> ''/login''"
    "p \<noteq> ''/internal/pushback''" "p \<noteq> ''/internal/push/notify_online''"
  using assms by auto


text \<open>
  \<open>/center/forward\<close> is open: whatever the request's authorization, any body that decodes is dispatched to
  its targets like a task from the stream.
\<close>

theorem forward_is_open:
  assumes "rqMethod req = ''POST''" "rqPath req = ''/center/forward''" "UnmarshalJSON (gdFloat d) (rqBody req) zero_push = Inr msg"
    and "Dispatch d msg s = Inr ((e, fs), s')"
  shows "\<exists>rep. InitRouter d lib js maxConnections upgraded wait t0 t1 (req\<lparr>rqAuth := authorization\<rparr>) s = Inr (Answer rep, s')
    \<and> (e = None \<longrightarrow> rep = ReplySuccess ''message forwarded successfully'')"
  using assms by (cases e) (simp_all add: InitRouter_def ForwardHandler_def then_do_def)

section \<open>What the meta service pushes\<close>

text \<open>A piece of code that changes nothing of the process but the world behind it.\<close>

definition only_world :: "('w ws_proc, 'a) proc \<Rightarrow> bool" where
  "only_world m \<longleftrightarrow> (\<forall>s r s'. wsStore s = Map.empty \<longrightarrow> m s = Inr (r, s') \<longrightarrow> (\<exists>w. s' = after_auth w s))"

named_theorems quiet \<open>rules for code that changes nothing of the process\<close>

lemma after_auth_simps [simp]:
  "after_auth w (after_auth v s) = after_auth w s" "wsStore (after_auth w s) = wsStore s" "after_auth (sp_world (wsSend s)) s = s"
  by (simp_all add: after_auth_def)

lemma only_world_returns [quiet]: "only_world (returns v)"
  unfolding only_world_def by (metis (no_types, lifting) Inr_inject after_auth_simps(3) prod.inject returns_def)

lemma only_world_then [quiet]:
  assumes "only_world m" "\<And>v. only_world (k v)"
  shows "only_world (then_do m k)"
  unfolding only_world_def
proof (intro allI impI)
  fix s r s' assume s: "wsStore s = Map.empty" and "then_do m k s = Inr (r, s')"
  then obtain v s1 where c: "m s = Inr (v, s1)" "k v s1 = Inr (r, s')" by (elim then_doE)
  from assms(1) s c(1) obtain w1 where w1: "s1 = after_auth w1 s" unfolding only_world_def by blast
  with s have "wsStore s1 = Map.empty" by simp
  with assms(2) c(2) obtain w2 where "s' = after_auth w2 s1" unfolding only_world_def by blast
  with w1 show "\<exists>w. s' = after_auth w s" by auto
qed

lemma only_world_call [quiet]: "only_world (in_ws m)" "only_world (ws_redis n)"
  by (auto simp: only_world_def in_ws_def ws_redis_def redis_call_def in_send_def in_world_def after_auth_def split: prod.splits)

lemma only_world_enqueue [quiet]: "only_world (EnqueueMessage_ws u m)"
  by (auto simp: only_world_def EnqueueMessage_ws_def intro: after_auth_simps(3) [symmetric])

lemma only_world_if [quiet]: "only_world a \<Longrightarrow> only_world b \<Longrightarrow> only_world (if c then a else b)"
  by simp

lemma only_world_sum [quiet]: "(\<And>x. only_world (f x)) \<Longrightarrow> (\<And>x. only_world (g x)) \<Longrightarrow> only_world (case v of Inl x \<Rightarrow> f x | Inr x \<Rightarrow> g x)"
  by (cases v) auto

lemma only_world_option [quiet]: "only_world a \<Longrightarrow> (\<And>x. only_world (f x)) \<Longrightarrow> only_world (case v of None \<Rightarrow> a | Some x \<Rightarrow> f x)"
  by (cases v) auto

lemma only_world_prod [quiet]: "(\<And>x y. only_world (f x y)) \<Longrightarrow> only_world (case v of (x, y) \<Rightarrow> f x y)"
  by (cases v) auto

lemma only_world_notify [quiet]: "only_world (notify_admins env r q ms)"
  by (induction ms) (auto intro!: quiet simp del: proc_simps)

lemma only_world_join [quiet]: "only_world (RequestJoinHandler env ts body uid)"
  unfolding RequestJoinHandler_def RequestJoin_def by (intro quiet)

lemma only_world_answer [quiet]: "only_world m \<Longrightarrow> only_world (answer m)"
  unfolding answer_def by (intro quiet)

lemma only_world_guarded [quiet]:
  assumes "\<And>u m. handler u = Some m \<Longrightarrow> only_world m" "\<And>u. handler u = None \<longleftrightarrow> handler 0 = None"
  shows "only_world (guarded lib js req handler)"
proof (cases "handler 0 = None")
  case False
  have "only_world (the (handler u))" for u using assms False by (metis not_None_eq option.sel)
  with False show ?thesis unfolding guarded_def with_token_def by (auto intro!: quiet simp del: proc_simps)
qed (auto simp: guarded_def intro: quiet)

lemma group_routes_quiet:
  "group_post env now ts path body u = Some m \<Longrightarrow> only_world m" "join_post env now ts path body u = Some m \<Longrightarrow> only_world m"
  "group_get env path qs u = Some m \<Longrightarrow> only_world m"
  by (auto simp: group_post_def join_post_def group_get_def Let_def intro!: quiet split: if_splits)

text \<open>
  C22: the meta service pushes nothing. It creates join requests and notifies the room's owner and admins
  through the connections of its own process; none of its routes opens one, so whatever it is asked it
  changes Redis and MySQL only, and no notification ever reaches a channel.
\<close>

theorem meta_pushes_nothing:
  assumes "NewRouter_meta env lib js now ts req s = Inr (p, s')" "wsStore s = Map.empty"
  shows "\<exists>w. s' = s\<lparr>wsSend := (wsSend s)\<lparr>sp_world := w\<rparr>\<rparr>"
proof -
  have get: "only_world (guarded lib js req (group_get env (rqPath req) (rqQuery req)))"
    by (rule only_world_guarded) (erule group_routes_quiet, simp add: group_get_def)
  have post: "only_world (guarded lib js req (\<lambda>u. or_else (group_post env now ts (rqPath req) (rqBody req) u)
      (join_post env now ts (rqPath req) (rqBody req) u)))"
  proof (rule only_world_guarded)
    fix u m assume "or_else (group_post env now ts (rqPath req) (rqBody req) u) (join_post env now ts (rqPath req) (rqBody req) u) = Some m"
    then show "only_world m" by (auto simp: or_else_def split: option.splits dest: group_routes_quiet)
  qed (auto simp: or_else_def group_post_def join_post_def Let_def)
  have "only_world (NewRouter_meta env lib js now ts req)"
    unfolding NewRouter_meta_def Let_def pong_def by (intro quiet get post)
  with assms show ?thesis unfolding only_world_def after_auth_def by blast
qed

section \<open>Witnesses\<close>

definition demo_request :: "string \<Rightarrow> string \<Rightarrow> string \<Rightarrow> wire \<Rightarrow> http_request" where
  "demo_request meth path authorization body =
     \<lparr>rqMethod = meth, rqPath = path, rqAuth = authorization, rqQuery = (\<lambda>_. []), rqBody = body\<rparr>"


definition demo_forward :: wire where
  "demo_forward = Doc (JObj [(''id'', JInt 42), (''target_ids'', JArr [JInt 7])])"

theorem forward_is_open_witness:
  "\<exists>s'. InitRouter demo_gw demo_auth jwt_defaults 10 None (\<lambda>s. (None, s)) 0 0
     ((demo_request ''POST'' ''/center/forward'' [] demo_forward)\<lparr>rqAuth := ''whoever''\<rparr>) (gw_init mem_empty)
     = Inr (Answer (ReplySuccess ''message forwarded successfully''), s')"
proof -
  let ?r = "demo_request ''POST'' ''/center/forward'' [] demo_forward"
  have u: "UnmarshalJSON (gdFloat demo_gw) demo_forward zero_push = Inr demo_task"
    by code_simp
  obtain s' where run: "Dispatch demo_gw demo_task (gw_init mem_empty) = Inr ((None, [PushbackLost]), s')"
    by (simp add: Dispatch_def demo_task_def client_of_push_def zero_push_def client_json_def marshal_val_def
        dispatch_target_def then_do_def EnqueueMessage_def find_holder_def gw_init_def demo_gw_def SendPushBackRequest_def Let_def)
  have r: "rqMethod ?r = ''POST''" "rqPath ?r = ''/center/forward''" "UnmarshalJSON (gdFloat demo_gw) (rqBody ?r) zero_push = Inr demo_task"
    using u by (simp_all add: demo_request_def)
  from forward_is_open [OF r run] show ?thesis by blast
qed

text \<open>User 2 asks to join room 7; its members, owners by default, are to be notified.\<close>

theorem meta_pushes_nothing_witness:
  "\<exists>p s'. NewRouter_meta g_env demo_auth jwt_defaults 100 ''t''
       (demo_request ''POST'' ''/api/chat/group/join/request'' ''Bearer signed'' (Doc (JObj [(''room_id'', JInt 7)]))) (m_start []) = Inr (p, s')
     \<and> wsStore s' = Map.empty \<and> wsHolders s' = wsHolders (m_start [])"
proof -
  let ?r = "demo_request ''POST'' ''/api/chat/group/join/request'' ''Bearer signed'' (Doc (JObj [(''room_id'', JInt 7)]))"
  have a: "JWTAuthMiddleware demo_auth jwt_defaults ''Bearer signed'' w = (Inr (2, ''bob''), w)" for w
    by (simp add: JWTAuthMiddleware_def split_space_def on_call_def ParseToken_def then_io_def demo_auth_def jwt_defaults_def demo_claims_def)
  have b: "bind_join_request (Doc (JObj [(''room_id'', JInt 7)])) = Inr (7, [])" by code_simp
  have e: "wsStore (m_start []) = Map.empty" by (simp add: m_start_def ws_init_def)
  obtain p s' where run: "NewRouter_meta g_env demo_auth jwt_defaults 100 ''t'' ?r (m_start []) = Inr (p, s')"
    by (simp add: NewRouter_meta_def demo_request_def Let_def guarded_def or_else_def group_post_def join_post_def with_token_def
        then_do_def in_ws_def in_send_def in_world_def a answer_def RequestJoinHandler_def b RequestJoin_def ws_redis_def redis_call_def
        QueryIsGroupRoom_def g_eval_db m_start_def ws_init_def m_world_def g_mysql_def query_def first_row_def)
  from meta_pushes_nothing [OF run e] run e show ?thesis by auto
qed

end
