(* ===== verification/CenterLinks.thy ===== *)
theory CenterLinks
  imports GwDispatch Config
begin

text \<open>
  \<open>internal/gateway/center_client\<close> and its package \<open>ws\<close>: a gateway's WebSocket link to a center server,
  which no binary of \<open>cmd/\<close> starts any more. The link's goroutine dials, serves the connection until a read
  fails and dials again; the other goroutines wait for the link on the channel \<open>readyCh\<close>, write to it, and
  the dispatcher of \<open>push\<close> handles what arrives. The WebSocket library is a parameter.
\<close>

section \<open>State\<close>

text \<open>
  \<open>conn\<close> names a connection; a channel made by \<open>make(chan struct{})\<close> is a number, \<open>ceClosed\<close> lists the closed
  ones and \<open>ceNext\<close> is the next number. \<open>ceCtx\<close> is \<open>None\<close> before \<open>Start\<close>, then whether the context is canceled;
  \<open>ceViaCenter\<close> tells which sender is registered in \<open>internal/gateway/centerclient\<close>.
\<close>

record 'w center =
  ceGw :: "'w gw_proc"
  ceConn :: "nat option"
  ceConnected :: bool
  ceReady :: "nat option"
  ceClosed :: "nat list"
  ceNext :: nat
  ceCtx :: "bool option"
  ceMonitor :: "monitor option"
  ceViaCenter :: bool

definition init_center :: "'w gw_proc \<Rightarrow> 'w center" where
  "init_center g = \<lparr>ceGw = g, ceConn = None, ceConnected = False, ceReady = Some 0, ceClosed = [], ceNext = 1,
     ceCtx = None, ceMonitor = None, ceViaCenter = False\<rparr>"

text \<open>What the read loop tells apart in the error of \<open>ReadMessage\<close>.\<close>

datatype read_error = CloseErr nat string | NetErr bool bool string | EofErr | ReadErr string

fun read_error_text :: "read_error \<Rightarrow> goerr" where
  "read_error_text (CloseErr n t) = ErrText (''websocket: close '' @ format_nat n @ t)"
| "read_error_text (NetErr timeout temporary t) = ErrText t"
| "read_error_text EofErr = ErrText ''EOF''"
| "read_error_text (ReadErr t) = ErrText t"

datatype incoming = Incoming nat wire | ReadFailed read_error | ReadPanics

text \<open>
  The library's connections, by name. \<open>wlRead ping pong c\<close> is \<open>ReadMessage\<close>, which runs the handlers of the
  control frames it meets; \<open>wlWriteJSON\<close> gets the value as \<open>encoding/json\<close> prints it, or its refusal.
\<close>

record 'w link_lib =
  wlDial :: "string \<Rightarrow> ('w, goerr + nat) io"
  wlRead :: "('w, goerr option) io \<Rightarrow> ('w, goerr option) io \<Rightarrow> nat \<Rightarrow> ('w, incoming) io"
  wlWriteJSON :: "nat \<Rightarrow> goerr + json \<Rightarrow> ('w, goerr option) io"
  wlWritePong :: "nat \<Rightarrow> ('w, goerr option) io"
  wlReadDeadline :: "nat \<Rightarrow> int64 \<Rightarrow> ('w, unit) io"
  wlWriteDeadline :: "nat \<Rightarrow> int64 \<Rightarrow> ('w, unit) io"
  wlClose :: "nat \<Rightarrow> ('w, goerr option) io"
  wlUnix :: "('w, int64) io"
  wlMillis :: "('w, int64) io"
  wlRatio :: "int64 \<Rightarrow> int64 \<Rightarrow> string"

definition ce_world :: "('w, 'a) io \<Rightarrow> 'w center \<Rightarrow> 'a \<times> 'w center" where
  "ce_world m s = (case m (gw_world (ceGw s)) of (v, w) \<Rightarrow> (v, s\<lparr>ceGw := (ceGw s)\<lparr>gw_world := w\<rparr>\<rparr>))"

section \<open>The ready channel\<close>

text \<open>After a dial; closing a channel twice would be a panic.\<close>

definition mark_connected :: "nat \<Rightarrow> ('w center, unit) proc" where
  "mark_connected c s =
     (let s1 = s\<lparr>ceConn := Some c, ceConnected := True\<rparr> in
      case ceReady s1 of
        None \<Rightarrow> Inr ((), s1)
      | Some ch \<Rightarrow>
          if ch \<in> set (ceClosed s1) then Inl Panicked
          else Inr ((), s1\<lparr>ceClosed := ch # ceClosed s1, ceReady := None\<rparr>))"

definition mark_disconnected :: "'w center \<Rightarrow> 'w center" where
  "mark_disconnected s =
     (let s1 = s\<lparr>ceConn := None, ceConnected := False\<rparr> in
      case ceReady s1 of
        None \<Rightarrow> s1\<lparr>ceReady := Some (ceNext s1), ceNext := Suc (ceNext s1)\<rparr>
      | Some _ \<Rightarrow> s1)"

text \<open>The channel that \<open>WaitReady\<close> goes on to wait for; \<open>others\<close> is what happens until it stops waiting.\<close>

definition wait_channel :: "'w center \<Rightarrow> nat option" where
  "wait_channel s = (if ceConnected s then None else ceReady s)"

definition WaitReady :: "('w center \<Rightarrow> 'w center) \<Rightarrow> 'w center \<Rightarrow> goerr option \<times> 'w center" where
  "WaitReady others s =
     (case wait_channel s of
        None \<Rightarrow> (None, s)
      | Some ch \<Rightarrow>
          let t = others s in
          (if ch \<in> set (ceClosed t) then None else Some (ErrText ''center ws not ready (timeout)''), t))"

section \<open>Writing\<close>

text \<open>
  \<open>sendJSONSafe\<close> looks at \<open>conn\<close> before it takes the lock and uses the variable again under it: the write
  is a step of its own, on a nil connection it panics.
\<close>

definition write_locked :: "'w link_lib \<Rightarrow> goerr + json \<Rightarrow> ('w center, goerr option) proc" where
  "write_locked lib v s =
     (case ceConn s of
        None \<Rightarrow> Inl Panicked
      | Some c \<Rightarrow> (case ce_world (wlWriteDeadline lib c (seconds 10)) s of (_, s1) \<Rightarrow> Inr (ce_world (wlWriteJSON lib c v) s1)))"

definition sendJSONSafe :: "'w link_lib \<Rightarrow> goerr + json \<Rightarrow> ('w center, goerr option) proc" where
  "sendJSONSafe lib v s =
     (if ceConn s = None then Inr (Some (ErrText ''no center connection''), s) else write_locked lib v s)"

definition SendJSON :: "'w link_lib \<Rightarrow> goerr + json \<Rightarrow> ('w center, goerr option) proc" where
  "SendJSON = sendJSONSafe"

text \<open>Messages are maps, which print with sorted keys; \<open>ts\<close> is the current second.\<close>

definition send_stamped :: "'w link_lib \<Rightarrow> (int64 \<Rightarrow> goerr + json) \<Rightarrow> ('w center, goerr option) proc" where
  "send_stamped lib msg s = (case ce_world (wlUnix lib) s of (ts, s1) \<Rightarrow> sendJSONSafe lib (msg ts) s1)"

definition user_report :: "string \<Rightarrow> int64 \<Rightarrow> int64 \<Rightarrow> goerr + json" where
  "user_report ty userID ts = Inr (JObj [(''ts'', json_of_int64 ts), (''type'', JStr ty), (''user_id'', json_of_int64 userID)])"

definition ReportUserConnect_ws :: "'w link_lib \<Rightarrow> int64 \<Rightarrow> ('w center, goerr option) proc" where
  "ReportUserConnect_ws lib userID = send_stamped lib (user_report ''user_connect'' userID)"

definition ReportUserDisconnect_ws :: "'w link_lib \<Rightarrow> int64 \<Rightarrow> ('w center, goerr option) proc" where
  "ReportUserDisconnect_ws lib userID = send_stamped lib (user_report ''user_disconnect'' userID)"

definition ReportLoad :: "'w link_lib \<Rightarrow> int64 \<Rightarrow> int64 \<Rightarrow> ('w center, goerr option) proc" where
  "ReportLoad lib nowConn maxConn s =
     (if maxConn \<le>s 0 then Inr (Some (ErrText ''invalid maxConn''), s)
      else send_stamped lib (\<lambda>ts. Inr (JObj [(''load'', JFloat (wlRatio lib nowConn maxConn)),
             (''ts'', json_of_int64 ts), (''type'', JStr ''load_update'')])) s)"

text \<open>\<open>StartLoadReporter\<close>: its interval, and one event of its loop; the result is whether it goes on.\<close>

definition load_interval :: "int64 \<Rightarrow> int64" where
  "load_interval interval = (if interval \<le>s 0 then seconds 30 else interval)"

definition load_tick :: "'w link_lib \<Rightarrow> int64 \<Rightarrow> ('w center, bool) proc" where
  "load_tick lib maxConnections s =
     (if ceCtx s = Some True then Inr (False, s)
      else if maxConnections \<le>s 0 then Inr (True, s)
      else then_do (ReportLoad lib (GetConnectionCount (ceGw s)) maxConnections) (\<lambda>_. returns True) s)"

section \<open>Reading\<close>

definition pong_handler :: "'w link_lib \<Rightarrow> nat \<Rightarrow> ('w, goerr option) io" where
  "pong_handler lib c w = (case wlReadDeadline lib c (seconds 60) w of (_, w1) \<Rightarrow> (None, w1))"

definition ping_handler :: "'w link_lib \<Rightarrow> nat \<Rightarrow> ('w, goerr option) io" where
  "ping_handler lib c w = (case wlReadDeadline lib c (seconds 60) w of (_, w1) \<Rightarrow> wlWritePong lib c w1)"

definition complete_center :: "'w link_lib \<Rightarrow> int64 \<Rightarrow> bool \<Rightarrow> ('w center, unit) proc" where
  "complete_center lib t0 ok s =
     (case ceMonitor s of
        None \<Rightarrow> Inr ((), s)
      | Some mon \<Rightarrow>
          (case ce_world (wlMillis lib) s of (t1, s1) \<Rightarrow>
             (case CompleteTask (NewTask t0) ok t1 mon of
                Inl h \<Rightarrow> Inl h
              | Inr (_, mon') \<Rightarrow> Inr ((), s1\<lparr>ceMonitor := Some mon'\<rparr>))))"

definition handleIncoming :: "'w link_lib \<Rightarrow> 'w gw_deps \<Rightarrow> wire \<Rightarrow> ('w center, unit) proc" where
  "handleIncoming lib d data s =
     (case ce_world (wlMillis lib) s of (t0, s1) \<Rightarrow>
        (case UnmarshalJSON (gdFloat d) data zero_push of
           Inl e \<Rightarrow> complete_center lib t0 False s1
         | Inr m \<Rightarrow>
             (case Dispatch d m (ceGw s1) of
                Inl h \<Rightarrow> Inl h
              | Inr ((err, _), g) \<Rightarrow> complete_center lib t0 (err = None) (s1\<lparr>ceGw := g\<rparr>))))"

text \<open>What the loop does with an error: return it, or sleep and read again (\<open>None\<close>).\<close>

fun read_fails :: "read_error \<Rightarrow> goerr option" where
  "read_fails (CloseErr n t) = Some (read_error_text (CloseErr n t))"
| "read_fails (NetErr timeout temporary t) = (if timeout \<or> temporary then None else Some (ErrText t))"
| "read_fails EofErr = Some (ErrText ''EOF'')"
| "read_fails (ReadErr t) = Some (ErrText t)"

text \<open>\<open>None\<close>: the loop does not end.\<close>

partial_function (option) serve_loop :: "'w link_lib \<Rightarrow> 'w gw_deps \<Rightarrow> nat \<Rightarrow> 'w center \<Rightarrow> (halt + goerr \<times> 'w center) option" where
  "serve_loop lib d c s =
     (case ce_world (wlRead lib (ping_handler lib c) (pong_handler lib c) c) s of (r, s1) \<Rightarrow>
        (case r of
           ReadPanics \<Rightarrow> Some (Inl Panicked)
         | ReadFailed e \<Rightarrow> (case read_fails e of None \<Rightarrow> serve_loop lib d c s1 | Some err \<Rightarrow> Some (Inr (err, s1)))
         | Incoming mt data \<Rightarrow>
             if mt = 1 \<or> mt = 2 then
               (case handleIncoming lib d data s1 of Inl h \<Rightarrow> Some (Inl h) | Inr (_, s2) \<Rightarrow> serve_loop lib d c s2)
             else serve_loop lib d c s1))"

definition connectAndServe :: "'w link_lib \<Rightarrow> 'w gw_deps \<Rightarrow> string \<Rightarrow> 'w center \<Rightarrow> (halt + goerr \<times> 'w center) option" where
  "connectAndServe lib d addr s =
     (case ce_world (wlDial lib addr) s of
        (Inl e, s1) \<Rightarrow> Some (Inr (e, s1))
      | (Inr c, s1) \<Rightarrow>
          (case mark_connected c s1 of
             Inl h \<Rightarrow> Some (Inl h)
           | Inr (_, s2) \<Rightarrow>
               (case ce_world (wlReadDeadline lib c (seconds 60)) s2 of (_, s3) \<Rightarrow>
                  (case serve_loop lib d c s3 of
                     None \<Rightarrow> None
                   | Some (Inl h) \<Rightarrow> Some (Inl h)
                   | Some (Inr (e, s4)) \<Rightarrow> Some (Inr (e, mark_disconnected (snd (ce_world (wlClose lib c) s4))))))))"

section \<open>Start and stop\<close>

text \<open>The pause before the next dial doubles up to thirty seconds; it is not reset by a success.\<close>

definition next_backoff :: "int64 \<Rightarrow> int64" where
  "next_backoff b = (if seconds 30 <s b * 2 then seconds 30 else b * 2)"

text \<open>
  The goroutine of \<open>Start\<close>: \<open>naps\<close> is, for each round, what the other goroutines do while it sleeps, as a
  function of the pause. The loop is followed for \<open>length naps\<close> rounds; \<open>Inr\<close> says with which pause it goes
  on, \<open>None\<close> of it that the context was canceled.
\<close>

fun link_rounds :: "'w link_lib \<Rightarrow> 'w gw_deps \<Rightarrow> string \<Rightarrow> (int64 \<Rightarrow> 'w center \<Rightarrow> 'w center) list \<Rightarrow> int64 \<Rightarrow> 'w center \<Rightarrow>
    (halt + int64 option \<times> 'w center) option" where
  "link_rounds lib d addr [] b s = Some (Inr (Some b, s))"
| "link_rounds lib d addr (nap # naps) b s =
     (if ceCtx s = Some True then Some (Inr (None, s))
      else (case connectAndServe lib d addr s of
          None \<Rightarrow> None
        | Some (Inl h) \<Rightarrow> Some (Inl h)
        | Some (Inr (_, s1)) \<Rightarrow> link_rounds lib d addr naps (next_backoff b) (nap b s1)))"

text \<open>\<open>Start\<close> sets up the context and the monitor; the result is the address that its goroutine dials.\<close>

definition StartLink :: "app_config option \<Rightarrow> 'w center \<Rightarrow> string option \<times> 'w center" where
  "StartLink conf s =
     (case conf of
        None \<Rightarrow> (None, s)
      | Some c \<Rightarrow>
          (case acCenter c of
             None \<Rightarrow> (None, s)
           | Some address \<Rightarrow>
               if address = [] then (None, s)
               else (Some address, s\<lparr>ceCtx := Some False, ceMonitor := Some (NewMonitor 1000 60000)\<rparr>)))"

definition StopLink :: "'w link_lib \<Rightarrow> 'w center \<Rightarrow> goerr option \<times> 'w center" where
  "StopLink lib s =
     (let s1 = (if ceCtx s = None then s else s\<lparr>ceCtx := Some True\<rparr>) in
      case ceConn s1 of None \<Rightarrow> (None, s1) | Some c \<Rightarrow> ce_world (wlClose lib c) s1)"

section \<open>The messages of \<open>center_client\<close>\<close>

definition RegisterSender :: "'w center \<Rightarrow> 'w center" where
  "RegisterSender s = s\<lparr>ceViaCenter := True\<rparr>"

definition center_request :: "string \<Rightarrow> int64 \<Rightarrow> int64 \<Rightarrow> json" where
  "center_request address port maxConns = JObj [(''address'', JStr address), (''port'', json_of_int64 port),
     (''max_connections'', json_of_int64 maxConns)]"

definition RegisterToCenter :: "'w link_lib \<Rightarrow> app_config option \<Rightarrow> ('w center \<Rightarrow> 'w center) \<Rightarrow> string \<Rightarrow> int64 \<Rightarrow> int64 \<Rightarrow>
    ('w center, goerr option) proc" where
  "RegisterToCenter lib conf others address port maxConns s =
     (case WaitReady others (RegisterSender (snd (StartLink conf s))) of
        (Some e, s1) \<Rightarrow> Inr (Some e, s1)
      | (None, s1) \<Rightarrow> send_stamped lib (\<lambda>ts. Inr (JObj [(''data'', center_request address port maxConns),
          (''ts'', json_of_int64 ts), (''type'', JStr ''register_gateway'')])) s1)"

definition SendPushBackRequest_ws :: "'w link_lib \<Rightarrow> client_message \<Rightarrow> int64 \<Rightarrow> ('w center, goerr option) proc" where
  "SendPushBackRequest_ws lib forwardReq targetID =
     send_stamped lib (\<lambda>ts. case client_json forwardReq of
         Inl e \<Rightarrow> Inl e
       | Inr j \<Rightarrow> Inr (JObj [(''message'', JObj [(''target_id'', json_of_int64 targetID), (''forward_req'', j)]),
           (''ts'', json_of_int64 ts), (''type'', JStr ''pushback'')]))"

definition RegisterMsg :: "'w link_lib \<Rightarrow> client_message \<Rightarrow> ('w center, goerr option) proc" where
  "RegisterMsg lib msg =
     send_stamped lib (\<lambda>ts. case client_json msg of
         Inl e \<Rightarrow> Inl e
       | Inr j \<Rightarrow> Inr (JObj [(''message'', j), (''ts'', json_of_int64 ts), (''type'', JStr ''register_msg'')]))"

text \<open>\<open>for i := 0; i < retries; i++\<close>: the first success ends it; the naps are what happens between attempts.\<close>

fun send_attempts :: "('w center, goerr option) proc \<Rightarrow> ('w center \<Rightarrow> 'w center) \<Rightarrow> nat \<Rightarrow> goerr option \<Rightarrow> ('w center, goerr option) proc" where
  "send_attempts op nap 0 err s = Inr (err, s)"
| "send_attempts op nap (Suc n) err s =
     then_do op (\<lambda>e t. if e = None then Inr (None, t) else send_attempts op nap n e (nap t)) s"

definition SendPushBackRequestWithRetry :: "'w link_lib \<Rightarrow> (int64 \<Rightarrow> 'w center \<Rightarrow> 'w center) \<Rightarrow> client_message \<Rightarrow> int64 \<Rightarrow> int64 \<Rightarrow> int64 \<Rightarrow>
    ('w center, goerr option) proc" where
  "SendPushBackRequestWithRetry lib nap forwardReq targetID retries delayMs =
     send_attempts (SendPushBackRequest_ws lib forwardReq targetID) (nap (delayMs * 1000000)) (nat (sint retries)) None"

definition RegisterMsgWithRetry :: "'w link_lib \<Rightarrow> (int64 \<Rightarrow> 'w center \<Rightarrow> 'w center) \<Rightarrow> client_message \<Rightarrow> int64 \<Rightarrow> int64 \<Rightarrow>
    ('w center, goerr option) proc" where
  "RegisterMsgWithRetry lib nap msg retries delayMs =
     send_attempts (RegisterMsg lib msg) (nap (delayMs * 1000000)) (nat (sint retries)) None"

text \<open>\<open>centerclient.SendPushBackRequest\<close> delegates to the registered sender.\<close>

definition SendPushBackRequest_any :: "'w link_lib \<Rightarrow> 'w gw_deps \<Rightarrow> client_message \<Rightarrow> int64 \<Rightarrow> ('w center, goerr option) proc" where
  "SendPushBackRequest_any lib d forwardReq targetID s =
     (if ceViaCenter s then SendPushBackRequest_ws lib forwardReq targetID s
      else Inr (ce_world (SendPushBackRequest (gdPick d) (gdFloat d) (gdEnv d) (gdRegistry d) forwardReq targetID) s))"

section \<open>The link's states\<close>

definition link_ok :: "'w center \<Rightarrow> bool" where
  "link_ok s \<longleftrightarrow> (ceConnected s \<longleftrightarrow> ceConn s \<noteq> None) \<and> (ceConnected s \<longleftrightarrow> ceReady s = None)
     \<and> (\<forall>ch. ch \<in> set (ceClosed s) \<longleftrightarrow> ch < ceNext s \<and> ceReady s \<noteq> Some ch)
     \<and> (\<forall>ch. ceReady s = Some ch \<longrightarrow> ch < ceNext s)"

definition link_part :: "'w center \<Rightarrow> nat option \<times> bool \<times> nat option \<times> nat list \<times> nat" where
  "link_part s = (ceConn s, ceConnected s, ceReady s, ceClosed s, ceNext s)"

lemma link_ok_cong: "link_part s = link_part t \<Longrightarrow> link_ok s = link_ok t"
  by (simp add: link_part_def link_ok_def)

lemma link_part_fields:
  "ceConn s = fst (link_part s)" "ceConnected s = fst (snd (link_part s))" "ceReady s = fst (snd (snd (link_part s)))"
  "ceClosed s = fst (snd (snd (snd (link_part s))))" "ceNext s = snd (snd (snd (snd (link_part s))))"
  by (simp_all add: link_part_def)

lemma link_part_world [simp]: "link_part (snd (ce_world m s)) = link_part s"
  by (simp add: ce_world_def link_part_def split: prod.split)

lemma link_part_run: "ce_world m s = (v, s') \<Longrightarrow> link_part s' = link_part s"
  using link_part_world [of m s] by simp

lemma init_center_ok: "link_ok (init_center g)" "\<not> ceConnected (init_center g)"
  by (auto simp: link_ok_def init_center_def)

lemma mark_connected_ok:
  assumes "link_ok s" "\<not> ceConnected s"
  shows "\<exists>t ch. ceReady s = Some ch \<and> mark_connected c s = Inr ((), t) \<and> link_ok t \<and> ceConnected t
    \<and> set (ceClosed t) = insert ch (set (ceClosed s))"
  using assms by (auto simp: link_ok_def mark_connected_def Let_def)

lemma mark_disconnected_ok:
  assumes "link_ok s" "ceConnected s"
  shows "link_ok (mark_disconnected s) \<and> \<not> ceConnected (mark_disconnected s)
    \<and> ceClosed (mark_disconnected s) = ceClosed s"
  using assms by (auto simp: link_ok_def mark_disconnected_def Let_def less_Suc_eq)

text \<open>What the link's goroutine does to the shared variables: it alternates.\<close>

datatype link_event = LinkUp nat | LinkDown

fun link_run :: "link_event list \<Rightarrow> ('w center, unit) proc" where
  "link_run [] = returns ()"
| "link_run (LinkUp c # evs) = then_do (mark_connected c) (\<lambda>_. link_run evs)"
| "link_run (LinkDown # evs) = (\<lambda>s. link_run evs (mark_disconnected s))"

fun alternating :: "bool \<Rightarrow> link_event list \<Rightarrow> bool" where
  "alternating up [] \<longleftrightarrow> True"
| "alternating up (LinkUp c # evs) \<longleftrightarrow> \<not> up \<and> alternating True evs"
| "alternating up (LinkDown # evs) \<longleftrightarrow> up \<and> alternating False evs"

lemma link_run_ok:
  "link_ok s \<Longrightarrow> alternating (ceConnected s) evs \<Longrightarrow>
     \<exists>t. link_run evs s = Inr ((), t) \<and> link_ok t \<and> set (ceClosed s) \<subseteq> set (ceClosed t)
       \<and> (\<forall>evs'. alternating (ceConnected s) (evs @ evs') \<longleftrightarrow> alternating (ceConnected t) evs')"
proof (induction evs arbitrary: s)
  case Nil
  then show ?case by simp
next
  case (Cons ev evs)
  show ?case
  proof (cases ev)
    case (LinkUp c)
    with Cons.prems have up: "\<not> ceConnected s" "alternating True evs" by auto
    obtain t where t: "mark_connected c s = Inr ((), t)" "link_ok t" "ceConnected t" "set (ceClosed s) \<subseteq> set (ceClosed t)"
      using mark_connected_ok [OF Cons.prems(1) up(1), of c] by auto
    from Cons.IH [OF t(2)] t(3) up(2) obtain u where
      "link_run evs t = Inr ((), u)" "link_ok u" "set (ceClosed t) \<subseteq> set (ceClosed u)"
      "\<forall>evs'. alternating True (evs @ evs') \<longleftrightarrow> alternating (ceConnected u) evs'" by auto
    with t up LinkUp show ?thesis by (auto simp: then_do_def)
  next
    case LinkDown
    with Cons.prems have down: "ceConnected s" "alternating False evs" by auto
    note t = mark_disconnected_ok [OF Cons.prems(1) down(1)]
    from Cons.IH [of "mark_disconnected s"] t down(2) obtain u where
      "link_run evs (mark_disconnected s) = Inr ((), u)" "link_ok u" "set (ceClosed s) \<subseteq> set (ceClosed u)"
      "\<forall>evs'. alternating False (evs @ evs') \<longleftrightarrow> alternating (ceConnected u) evs'" by auto
    with t down LinkDown show ?thesis by auto
  qed
qed

lemma alternating_prefix: "alternating up (evs @ evs') \<Longrightarrow> alternating up evs"
  by (induction up evs rule: alternating.induct) auto

text \<open>Serving a connection is such a run: up once the dial has succeeded, down when the loop ends.\<close>

lemma complete_center_link: "complete_center lib t0 ok s = Inr (v, s') \<Longrightarrow> link_part s' = link_part s"
  by (auto simp: complete_center_def link_part_def ce_world_def split: option.splits prod.splits sum.splits)

lemma handleIncoming_link: "handleIncoming lib d data s = Inr (v, s') \<Longrightarrow> link_part s' = link_part s"
  by (auto simp: handleIncoming_def ce_world_def link_part_def split: prod.splits sum.splits dest!: complete_center_link)

lemma serve_loop_keeps:
  assumes "serve_loop lib d c s = Some r"
  shows "\<forall>e s'. r = Inr (e, s') \<longrightarrow> link_part s' = link_part s"
proof (rule serve_loop.raw_induct [where P = "\<lambda>lib d c s r. \<forall>e s'. r = Inr (e, s') \<longrightarrow> link_part s' = link_part s", OF _ assms], goal_cases)
  case (1 loop lib d c s y)
  obtain r s1 where r: "ce_world (wlRead lib (ping_handler lib c) (pong_handler lib c) c) s = (r, s1)" by fastforce
  note same = link_part_run [OF r]
  show ?case
  proof (cases r)
    case (Incoming mt data)
    show ?thesis
    proof (cases "mt = 1 \<or> mt = 2")
      case True
      with 1(2) r Incoming 1(1) [of lib d c _ y] same show ?thesis
        by (auto split: sum.splits dest!: handleIncoming_link)
    next
      case False
      with 1(2) r Incoming 1(1) [of lib d c s1 y] same show ?thesis by simp
    qed
  next
    case (ReadFailed e1)
    with 1(2) r 1(1) [of lib d c s1 y] same show ?thesis by (auto split: option.splits)
  qed (use 1(2) r in auto)
qed

lemma serve_loop_link: "serve_loop lib d c s = Some (Inr (e, s')) \<Longrightarrow> link_part s' = link_part s"
  using serve_loop_keeps by blast

lemma link_run_one [simp]: "link_run [LinkUp c] s = mark_connected c s"
  by (auto simp: then_do_def split: sum.splits)

lemma connectAndServe_runs:
  assumes ok: "link_ok s" "\<not> ceConnected s" and run: "connectAndServe lib d addr s = Some (Inr (e, t))"
  shows "\<exists>evs u. alternating False evs \<and> (evs = [] \<or> (\<exists>c. evs = [LinkUp c, LinkDown]))
    \<and> link_run evs s = Inr ((), u) \<and> link_part t = link_part u"
proof -
  obtain r s1 where dial: "ce_world (wlDial lib addr) s = (r, s1)" by fastforce
  have k: "link_part s1 = link_part s" by (rule link_part_run [OF dial])
  show ?thesis
  proof (cases r)
    case (Inl err)
    with run dial k show ?thesis by (intro exI [of _ "[]"]) (auto simp: connectAndServe_def)
  next
    case (Inr c)
    have ok1: "link_ok s1" "\<not> ceConnected s1" using ok k link_ok_cong [OF k] by (simp_all add: link_part_def)
    obtain s2 where s2: "mark_connected c s1 = Inr ((), s2)" using mark_connected_ok [OF ok1] by blast
    obtain s3 where s3: "ce_world (wlReadDeadline lib c (seconds 60)) s2 = ((), s3)"
      by (cases "ce_world (wlReadDeadline lib c (seconds 60)) s2") auto
    from run dial Inr s2 s3 obtain s4 where s4: "serve_loop lib d c s3 = Some (Inr (e, s4))"
      and t: "t = mark_disconnected (snd (ce_world (wlClose lib c) s4))"
      by (auto simp: connectAndServe_def split: option.splits sum.splits prod.splits)
    obtain u where u: "mark_connected c s = Inr ((), u)" "link_part u = link_part s2"
      using s2 k mark_connected_ok [OF ok, of c]
      by (auto simp: mark_connected_def Let_def link_part_def split: option.splits if_splits)
    have "link_part (snd (ce_world (wlClose lib c) s4)) = link_part u"
      using link_part_run [OF s3] serve_loop_link [OF s4] u(2) by simp
    then have "link_part t = link_part (mark_disconnected u)"
      by (auto simp: t mark_disconnected_def Let_def link_part_def split: option.splits)
    with u(1) show ?thesis
      by (intro exI [of _ "[LinkUp c, LinkDown]"] exI [of _ "mark_disconnected u"]) (auto simp: then_do_def)
  qed
qed

section \<open>Reads that keep failing\<close>

text \<open>
  After an error the library's later reads of that connection return the same error, and from some read on (the
  thousandth in gorilla/websocket) they panic: here \<open>n\<close> more reads fail.
\<close>

fun keeps_failing :: "'w link_lib \<Rightarrow> nat \<Rightarrow> read_error \<Rightarrow> nat \<Rightarrow> 'w \<Rightarrow> bool" where
  "keeps_failing lib c e 0 w \<longleftrightarrow> fst (wlRead lib (ping_handler lib c) (pong_handler lib c) c w) = ReadPanics"
| "keeps_failing lib c e (Suc n) w \<longleftrightarrow>
     (case wlRead lib (ping_handler lib c) (pong_handler lib c) c w of (r, w1) \<Rightarrow> r = ReadFailed e \<and> keeps_failing lib c e n w1)"

lemma serve_loop_failing:
  assumes "read_fails e = None"
  shows "keeps_failing lib c e n (gw_world (ceGw s)) \<Longrightarrow> serve_loop lib d c s = Some (Inl Panicked)"
proof (induction n arbitrary: s)
  case 0
  then show ?case by (subst serve_loop.simps) (auto simp: ce_world_def split: prod.split)
next
  case (Suc n)
  obtain w1 where w1: "wlRead lib (ping_handler lib c) (pong_handler lib c) c (gw_world (ceGw s)) = (ReadFailed e, w1)"
    "keeps_failing lib c e n w1" using Suc.prems by (auto split: prod.splits)
  with assms Suc.IH [of "s\<lparr>ceGw := (ceGw s)\<lparr>gw_world := w1\<rparr>\<rparr>"] show ?case
    by (subst serve_loop.simps) (simp add: ce_world_def)
qed

lemma serve_loop_fatal:
  assumes "ce_world (wlRead lib (ping_handler lib c) (pong_handler lib c) c) s = (ReadFailed e, s1)" "read_fails e = Some err"
  shows "serve_loop lib d c s = Some (Inr (err, s1))"
  using assms by (subst serve_loop.simps) simp

text \<open>A report that found the connection before the goroutine cleared it, and writes after it: a panic.\<close>

lemma report_races_disconnect:
  "ceConn s = Some c \<Longrightarrow> sendJSONSafe lib v s = write_locked lib v s \<and> write_locked lib v (mark_disconnected s) = Inl Panicked"
  by (auto simp: sendJSONSafe_def write_locked_def mark_disconnected_def Let_def split: option.split)

section \<open>Properties\<close>

text \<open>
  C40: the ready channel is closed exactly once. However the link goes up and down, marking it never closes a
  closed channel; a goroutine that starts to wait waits on a channel exactly when there is no connection, and is
  woken exactly when a connection is made afterwards, also if it is gone again by then.
\<close>

theorem link_wakes_waiters:
  assumes "alternating False (evs @ evs')"
  shows "\<exists>s t. link_run evs (init_center g) = Inr ((), s) \<and> link_run evs' s = Inr ((), t)
    \<and> (wait_channel s = None \<longleftrightarrow> ceConnected s) \<and> (ceConnected s \<longleftrightarrow> ceConn s \<noteq> None)
    \<and> (\<not> ceConnected s \<longrightarrow> (fst (WaitReady (\<lambda>_. t) s) = None \<longleftrightarrow> evs' \<noteq> []))"
proof -
  have "alternating False evs" using assms by (rule alternating_prefix)
  then obtain s where s: "link_run evs (init_center g) = Inr ((), s)" "link_ok s" "alternating (ceConnected s) evs'"
    using link_run_ok [OF init_center_ok(1) [of g], of evs] init_center_ok(2) [of g] assms by auto
  obtain t where t: "link_run evs' s = Inr ((), t)" using link_run_ok [OF s(2,3)] by blast
  have "fst (WaitReady (\<lambda>_. t) s) = None \<longleftrightarrow> evs' \<noteq> []" if down: "\<not> ceConnected s"
  proof (cases evs')
    case Nil
    with t s(2) down show ?thesis by (auto simp: WaitReady_def wait_channel_def link_ok_def)
  next
    case (Cons ev rest)
    with s(3) down obtain c where ev: "ev = LinkUp c" "alternating True rest" by (cases ev) auto
    obtain u ch where u: "ceReady s = Some ch" "mark_connected c s = Inr ((), u)" "link_ok u" "ceConnected u" "ch \<in> set (ceClosed u)"
      using mark_connected_ok [OF s(2) down, of c] by auto
    have "set (ceClosed u) \<subseteq> set (ceClosed t)" using link_run_ok [OF u(3), of rest] ev u t Cons by (auto simp: then_do_def)
    with u down Cons show ?thesis by (auto simp: WaitReady_def wait_channel_def)
  qed
  with s t show ?thesis by (auto simp: link_ok_def wait_channel_def)
qed

theorem link_wakes_waiters_witness:
  "\<exists>s t. link_run [LinkUp 4, LinkDown] (init_center (gw_init ())) = Inr ((), s) \<and> link_run [LinkUp 5, LinkDown] s = Inr ((), t)
     \<and> fst (WaitReady (\<lambda>_. t) s) = None"
proof -
  have down: "\<not> ceConnected s" if "link_run [LinkUp 4, LinkDown] (init_center (gw_init ())) = Inr ((), s)" for s
    using that by (auto simp: then_do_def mark_connected_def mark_disconnected_def init_center_def)
  from link_wakes_waiters [of "[LinkUp 4, LinkDown]" "[LinkUp 5, LinkDown]" "gw_init ()"] obtain s t where
    "link_run [LinkUp 4, LinkDown] (init_center (gw_init ())) = Inr ((), s)" "link_run [LinkUp 5, LinkDown] s = Inr ((), t)"
    "\<not> ceConnected s \<longrightarrow> fst (WaitReady (\<lambda>_. t) s) = None" by auto
  with down show ?thesis by blast
qed

text \<open>
  C39: a read of the center's connection that times out is read again and again: the library keeps its
  error, so the loop never dials anew but ends in the library's panic, which stops the whole gateway. An
  error that the loop takes for fatal ends the serving instead, and the link's goroutine dials again.
\<close>

theorem silent_center_stops_gateway:
  assumes "keeps_failing lib c (NetErr timeout temporary txt) n (gw_world (ceGw s))"
  shows "serve_loop lib d c s = (if timeout \<or> temporary then Some (Inl Panicked)
    else if n = 0 then Some (Inl Panicked) else Some (Inr (ErrText txt, snd (ce_world (wlRead lib (ping_handler lib c) (pong_handler lib c) c) s))))"
proof (cases "timeout \<or> temporary")
  case True
  with serve_loop_failing [OF _ assms] show ?thesis by simp
next
  case False
  show ?thesis
  proof (cases n)
    case 0
    with assms show ?thesis by (subst serve_loop.simps) (auto simp: ce_world_def split: prod.split)
  next
    case (Suc k)
    with assms have "fst (wlRead lib (ping_handler lib c) (pong_handler lib c) c (gw_world (ceGw s))) = ReadFailed (NetErr timeout temporary txt)"
      by (auto split: prod.splits)
    then have "ce_world (wlRead lib (ping_handler lib c) (pong_handler lib c) c) s
        = (ReadFailed (NetErr timeout temporary txt), snd (ce_world (wlRead lib (ping_handler lib c) (pong_handler lib c) c) s))"
      by (cases "wlRead lib (ping_handler lib c) (pong_handler lib c) c (gw_world (ceGw s))") (simp add: ce_world_def)
    from serve_loop_fatal [OF this] False Suc show ?thesis by simp
  qed
qed

text \<open>A connection that times out; the world counts the reads, the thousandth panics.\<close>

definition demo_link :: "nat link_lib" where
  "demo_link = \<lparr>wlDial = (\<lambda>a w. (Inr 0, w)),
     wlRead = (\<lambda>p q c w. if w < 999 then (ReadFailed (NetErr True False ''i/o timeout''), Suc w) else (ReadPanics, w)),
     wlWriteJSON = (\<lambda>c v w. (None, w)), wlWritePong = (\<lambda>c w. (None, w)), wlReadDeadline = (\<lambda>c t w. ((), w)),
     wlWriteDeadline = (\<lambda>c t w. ((), w)), wlClose = (\<lambda>c w. (None, w)), wlUnix = return 0, wlMillis = return 0, wlRatio = (\<lambda>a b. ''0'')\<rparr>"

lemma demo_link_fails: "w + n = 999 \<Longrightarrow> keeps_failing demo_link c (NetErr True False ''i/o timeout'') n w"
  by (induction n arbitrary: w) (simp_all add: demo_link_def)

theorem silent_center_stops_gateway_witness:
  "\<forall>d. serve_loop demo_link d 0 (init_center (gw_init (0::nat))) = Some (Inl Panicked)"
  using silent_center_stops_gateway [of demo_link 0 True False "''i/o timeout''" 999 "init_center (gw_init 0)"]
    demo_link_fails [of 0 999 0] by (simp add: init_center_def gw_init_def)

end
