(* ===== verification/Bootstrap.thy ===== *)
theory Bootstrap
  imports Users Monitor
begin

text \<open>
  \<open>pkg/bootstrap\<close> with the initialisers it calls: \<open>pkg/logger\<close>, \<open>pkg/db/mysql\<close> and \<open>pkg/db/redis\<close>. The package
  variables they set are one record; the file reader, the two drivers and the clock are parameters. A
  configuration section that the file lacks is a nil pointer, and using it is a panic.
\<close>

section \<open>State\<close>

record sql_pool =
  spDSN :: string
  spMaxOpen :: int64
  spMaxIdle :: int64

text \<open>
  \<open>psDB\<close> and \<open>psRedis\<close> are the variables \<open>DB\<close> and \<open>Rdb\<close>, beside each whether it is open. A Redis client is named
  by its settings. \<open>psDriver\<close> says that the hooked driver is registered: registering it twice is a panic.
\<close>

record 'w process =
  psWorld :: 'w
  psConf :: app_config
  psLogger :: bool
  psDriver :: bool
  psDB :: "sql_pool option"
  psDBOpen :: bool
  psSqlMonitor :: "monitor option"
  psRedis :: "redis_config option"
  psRedisOpen :: bool
  psRedisMonitor :: "monitor option"
  psJWT :: jwt_state

record ('w, 'doc) boot_lib =
  blViper :: "'doc viper"
  blLevel :: "string \<Rightarrow> goerr option"
  blConnect :: "string \<Rightarrow> ('w, goerr option) io"
  blPing :: "redis_config \<Rightarrow> ('w, goerr option) io"
  blMillis :: "('w, int64) io"

definition new_process :: "'w \<Rightarrow> 'w process" where
  "new_process w = \<lparr>psWorld = w, psConf = zero_conf, psLogger = False, psDriver = False, psDB = None, psDBOpen = False,
     psSqlMonitor = None, psRedis = None, psRedisOpen = False, psRedisMonitor = None, psJWT = jwt_defaults\<rparr>"

definition ps_call :: "('w, 'a) io \<Rightarrow> ('w process, 'a) proc" where
  "ps_call m s = (case m (psWorld s) of (v, w) \<Rightarrow> Inr (v, s\<lparr>psWorld := w\<rparr>))"

section \<open>Initialisers\<close>

definition LoggerInit :: "('w, 'doc) boot_lib \<Rightarrow> log_config option \<Rightarrow> ('w process, goerr option) proc" where
  "LoggerInit lib cfg s =
     (case cfg of
        None \<Rightarrow> Inl Panicked
      | Some c \<Rightarrow>
          (case blLevel lib (lgLevel c) of
             Some e \<Rightarrow> Inr (Some e, s)
           | None \<Rightarrow> Inr (None, s\<lparr>psLogger := True\<rparr>)))"

definition mysql_dsn :: "mysql_config \<Rightarrow> string" where
  "mysql_dsn c = myUser c @ '':'' @ myPassword c @ ''@tcp('' @ myHost c @ '':'' @ FormatInt (myPort c) @ '')/''
     @ myDBName c @ ''?charset=utf8mb4&parseTime=True&loc=Local''"

definition MysqlInit :: "('w, 'doc) boot_lib \<Rightarrow> mysql_config option \<Rightarrow> ('w process, goerr option) proc" where
  "MysqlInit lib cfg s =
     (let mon = NewMonitor 100 60000 in
      if psDriver s then Inl Panicked
      else case cfg of
          None \<Rightarrow> Inl Panicked
        | Some c \<Rightarrow>
            then_do (ps_call (blMillis lib)) (\<lambda>t0.
            then_do (ps_call (blConnect lib (mysql_dsn c))) (\<lambda>err.
            then_do (ps_call (blMillis lib)) (\<lambda>t1 s.
              case CompleteTask (NewTask t0) (err = None) t1 mon of
                Inl h \<Rightarrow> Inl h
              | Inr (_, mon') \<Rightarrow>
                  (case err of
                     Some e \<Rightarrow> Inr (Some e, s\<lparr>psSqlMonitor := Some mon', psDB := None\<rparr>)
                   | None \<Rightarrow> Inr (None, s\<lparr>psSqlMonitor := Some mon', psDBOpen := True,
                       psDB := Some \<lparr>spDSN = mysql_dsn c, spMaxOpen = myMaxOpenConns c, spMaxIdle = myMaxIdleConns c\<rparr>\<rparr>)))))
              (s\<lparr>psDriver := True\<rparr>))"

definition MysqlClose :: "('w process, unit) proc" where
  "MysqlClose s = (case psDB s of None \<Rightarrow> Inl Panicked | Some _ \<Rightarrow> Inr ((), s\<lparr>psDBOpen := False\<rparr>))"

text \<open>The client exists whether or not the ping succeeds.\<close>

definition RedisInit :: "('w, 'doc) boot_lib \<Rightarrow> redis_config option \<Rightarrow> ('w process, goerr option) proc" where
  "RedisInit lib cfg s =
     (case cfg of
        None \<Rightarrow> Inl Panicked
      | Some c \<Rightarrow> ps_call (blPing lib c)
          (s\<lparr>psRedis := Some c, psRedisOpen := True, psRedisMonitor := Some (NewMonitor 1000 60000)\<rparr>))"

text \<open>
  \<open>newRedisClient\<close> of \<open>pkg/db/redis/send_roles.go\<close>, for the clients of the roles: the driver makes a client of
  the configuration, hangs a hook on it, and the client is closed when the ping fails.
\<close>

record ('w, 'c) redis_driver =
  rdNew :: "redis_config \<Rightarrow> 'c"
  rdHook :: "monitor \<Rightarrow> 'c \<Rightarrow> 'c"
  rdPing :: "'c \<Rightarrow> ('w, goerr option) io"
  rdClose :: "'c \<Rightarrow> ('w, unit) io"

definition newRedisClient :: "('w, 'c) redis_driver \<Rightarrow> redis_config option \<Rightarrow> ('w, goerr + 'c) io" where
  "newRedisClient drv cfg w =
     (case cfg of
        None \<Rightarrow> (Inl (ErrText ''redis config is nil''), w)
      | Some c \<Rightarrow>
          (let client = rdHook drv (NewMonitor 1000 60000) (rdNew drv c) in
           case rdPing drv client w of
             (Some e, w1) \<Rightarrow> (Inl e, snd (rdClose drv client w1))
           | (None, w1) \<Rightarrow> (Inr client, w1)))"

definition RedisClose :: "('w process, unit) proc" where
  "RedisClose s = (case psRedis s of None \<Rightarrow> Inl Panicked | Some _ \<Rightarrow> Inr ((), s\<lparr>psRedisOpen := False\<rparr>))"

definition set_jwt :: "jwt_config option \<Rightarrow> ('w process, unit) proc" where
  "set_jwt cfg s = (case SetJWTConfig cfg of Inl h \<Rightarrow> Inl h | Inr j \<Rightarrow> Inr ((), s\<lparr>psJWT := j\<rparr>))"

section \<open>InitAll\<close>

definition load_config :: "('w, 'doc) boot_lib \<Rightarrow> string \<Rightarrow> ('w process, goerr option) proc" where
  "load_config lib path s =
     (case (if path \<noteq> [] then InitFromFile (blViper lib) path (psConf s) else InitConfig (blViper lib) (psConf s)) of
        (e, c) \<Rightarrow> Inr (e, s\<lparr>psConf := c\<rparr>))"

definition or_fail :: "string \<Rightarrow> goerr option \<Rightarrow> ('w process, goerr option) proc \<Rightarrow> ('w process, goerr option) proc" where
  "or_fail what e k = (case e of Some err \<Rightarrow> returns (Some (ErrText (what @ err_text err))) | None \<Rightarrow> k)"

definition start_redis :: "('w, 'doc) boot_lib \<Rightarrow> app_config \<Rightarrow> ('w process, goerr option) proc" where
  "start_redis lib c =
     then_do (RedisInit lib (acRedis c)) (\<lambda>e. case e of
         Some err \<Rightarrow> then_do MysqlClose (\<lambda>_. returns (Some (ErrText (''init redis failed: '' @ err_text err))))
       | None \<Rightarrow> then_do (set_jwt (acJWT c)) (\<lambda>_. returns None))"

definition start_mysql :: "('w, 'doc) boot_lib \<Rightarrow> app_config \<Rightarrow> ('w process, goerr option) proc" where
  "start_mysql lib c =
     then_do (MysqlInit lib (acMySQL c)) (\<lambda>e. or_fail ''init mysql failed: '' e (start_redis lib c))"

definition start_logger :: "('w, 'doc) boot_lib \<Rightarrow> app_config \<Rightarrow> ('w process, goerr option) proc" where
  "start_logger lib c =
     then_do (LoggerInit lib (acLog c)) (\<lambda>e. or_fail ''init logger failed: '' e (start_mysql lib c))"

definition InitAll :: "('w, 'doc) boot_lib \<Rightarrow> string \<Rightarrow> ('w process, goerr option) proc" where
  "InitAll lib path =
     then_do (load_config lib path) (\<lambda>e.
       case e of Some err \<Rightarrow> returns (Some err) | None \<Rightarrow> (\<lambda>s. start_logger lib (psConf s) s))"

text \<open>The function \<open>InitAll\<close> returns when it succeeds; flushing the logger comes last.\<close>

definition cleanup :: "('w process, unit) proc" where
  "cleanup = then_do MysqlClose (\<lambda>_. RedisClose)"

section \<open>What a start leaves behind\<close>

text \<open>Everything a handler uses is there.\<close>

definition started :: "'w process \<Rightarrow> bool" where
  "started s \<longleftrightarrow> psLogger s \<and> psDBOpen s \<and> psRedisOpen s
     \<and> (\<exists>m. acMySQL (psConf s) = Some m
          \<and> psDB s = Some \<lparr>spDSN = mysql_dsn m, spMaxOpen = myMaxOpenConns m, spMaxIdle = myMaxIdleConns m\<rparr>)
     \<and> acRedis (psConf s) \<noteq> None \<and> psRedis s = acRedis (psConf s)
     \<and> (\<exists>j. acJWT (psConf s) = Some j \<and> psJWT s = \<lparr>jwtSecretKey = jwSecret j, expireDuration = seconds (jwExpireDuration j)\<rparr>)"

definition fresh :: "'w process \<Rightarrow> bool" where
  "fresh s \<longleftrightarrow> \<not> psDriver s \<and> psDB s = None \<and> \<not> psDBOpen s"

text \<open>The sections that \<open>InitAll\<close> dereferences.\<close>

definition sections_present :: "app_config \<Rightarrow> bool" where
  "sections_present c \<longleftrightarrow> acLog c \<noteq> None \<and> acMySQL c \<noteq> None \<and> acRedis c \<noteq> None \<and> acJWT c \<noteq> None"

definition outcome :: "app_config \<Rightarrow> halt + goerr option \<times> 'w process \<Rightarrow> bool" where
  "outcome c r \<longleftrightarrow>
     (case r of
        Inl h \<Rightarrow> h = Panicked \<and> \<not> sections_present c
      | Inr (None, t) \<Rightarrow> psConf t = c \<and> sections_present c \<and> started t
      | Inr (Some e, t) \<Rightarrow> \<not> psDBOpen t)"

definition pool_of :: "mysql_config \<Rightarrow> sql_pool" where
  "pool_of m = \<lparr>spDSN = mysql_dsn m, spMaxOpen = myMaxOpenConns m, spMaxIdle = myMaxIdleConns m\<rparr>"

lemma load_config_run: "\<exists>e c. load_config lib path s = Inr (e, s\<lparr>psConf := c\<rparr>)"
  by (cases "if path \<noteq> [] then InitFromFile (blViper lib) path (psConf s) else InitConfig (blViper lib) (psConf s)")
     (auto simp: load_config_def)

lemma MysqlInit_run:
  assumes "\<not> psDriver s"
  shows "\<exists>e t. MysqlInit lib (Some m) s = Inr (e, t) \<and> psConf t = psConf s \<and> psLogger t = psLogger s
    \<and> (if e = None then psDBOpen t \<and> psDB t = Some (pool_of m) else psDBOpen t = psDBOpen s)"
proof -
  let ?s = "s\<lparr>psDriver := True\<rparr>"
  obtain t0 w0 where m0: "blMillis lib (psWorld ?s) = (t0, w0)" by fastforce
  obtain err w1 where c1: "blConnect lib (mysql_dsn m) w0 = (err, w1)" by fastforce
  obtain t1 w2 where m2: "blMillis lib w1 = (t1, w2)" by fastforce
  obtain mon' where mon: "CompleteTask (NewTask t0) (err = None) t1 (NewMonitor 100 60000) = Inr ((), mon')"
    by (simp add: CompleteTask_def NewMonitor_def)
  show ?thesis
    using assms m0 c1 m2 mon
    by (cases err) (simp_all add: MysqlInit_def Let_def then_do_def ps_call_def pool_of_def)
qed

lemma start_redis_outcome:
  assumes "psConf s = c" "psLogger s" "psDBOpen s" "acLog c \<noteq> None" "acMySQL c = Some m" "psDB s = Some (pool_of m)"
  shows "outcome c (start_redis lib c s)"
proof (cases "acRedis c")
  case None
  then show ?thesis by (simp add: start_redis_def RedisInit_def then_do_def outcome_def sections_present_def)
next
  case (Some rc)
  obtain e w where "blPing lib rc (psWorld s) = (e, w)" by fastforce
  with Some assms show ?thesis
    by (cases e; cases "acJWT c")
      (auto simp: start_redis_def then_do_def RedisInit_def ps_call_def MysqlClose_def set_jwt_def SetJWTConfig_def
        outcome_def started_def sections_present_def pool_of_def)
qed

lemma start_mysql_outcome:
  assumes "psConf s = c" "psLogger s" "fresh s" "acLog c \<noteq> None"
  shows "outcome c (start_mysql lib c s)"
proof (cases "acMySQL c")
  case None
  then show ?thesis by (simp add: start_mysql_def MysqlInit_def Let_def then_do_def outcome_def sections_present_def)
next
  case (Some m)
  from assms(3) obtain e t where my: "MysqlInit lib (Some m) s = Inr (e, t)" "psConf t = c" "psLogger t"
    "if e = None then psDBOpen t \<and> psDB t = Some (pool_of m) else \<not> psDBOpen t"
    using MysqlInit_run [of s lib m] assms(1,2) by (auto simp: fresh_def)
  show ?thesis
  proof (cases e)
    case None
    with my Some start_redis_outcome [of t c m lib] assms(4) show ?thesis
      by (simp add: start_mysql_def then_do_def or_fail_def)
  next
    case (Some err)
    with my \<open>acMySQL c = Some m\<close> show ?thesis by (simp add: start_mysql_def then_do_def or_fail_def outcome_def)
  qed
qed

lemma start_logger_outcome:
  assumes "psConf s = c" "fresh s"
  shows "outcome c (start_logger lib c s)"
  using assms start_mysql_outcome [of "s\<lparr>psLogger := True\<rparr>" c lib]
  by (cases "acLog c"; cases "blLevel lib (lgLevel (the (acLog c)))")
    (auto simp: start_logger_def then_do_def or_fail_def LoggerInit_def outcome_def sections_present_def fresh_def)

section \<open>Property\<close>

text \<open>
  C36: a start either succeeds, with the logger, both connections and the token settings as the file says;
  or it returns an error and leaves no database connection open; or it panics, which it does only when
  the file was read but lacks one of the four sections. With all sections present it never panics.
\<close>

theorem start_outcomes:
  assumes fresh: "fresh s"
  shows "case InitAll lib path s of
      Inl h \<Rightarrow> h = Panicked \<and> (\<exists>t. load_config lib path s = Inr (None, t) \<and> \<not> sections_present (psConf t))
    | Inr (None, t) \<Rightarrow> started t \<and> sections_present (psConf t)
    | Inr (Some e, t) \<Rightarrow> \<not> psDBOpen t"
proof -
  obtain e c where l: "load_config lib path s = Inr (e, s\<lparr>psConf := c\<rparr>)" using load_config_run by blast
  have "outcome c (start_logger lib c (s\<lparr>psConf := c\<rparr>))"
    by (rule start_logger_outcome) (use fresh in \<open>simp_all add: fresh_def\<close>)
  with l fresh show ?thesis
    by (cases e) (auto simp: InitAll_def then_do_def outcome_def fresh_def split: sum.splits prod.splits option.splits)
qed

text \<open>A file with every section: the start succeeds; without the section for tokens it panics.\<close>

definition demo_file :: app_config where
  "demo_file = zero_conf\<lparr>acPort := 8080, acName := ''g'', acLog := Some \<lparr>lgLevel = ''info'', lgFilename = ''l'', lgMaxSize = 1, lgMaxBackups = 1, lgMaxAge = 1\<rparr>,
     acMySQL := Some \<lparr>myHost = ''h'', myPort = 3306, myUser = ''u'', myPassword = ''p'', myDBName = ''d'', myMaxOpenConns = 10, myMaxIdleConns = 5\<rparr>,
     acRedis := Some \<lparr>rdHost = ''h'', rdPort = 6379, rdPassword = [], rdDB = 0, rdPoolSize = 50, rdBatchSize = 128\<rparr>,
     acJWT := Some \<lparr>jwSecret = ''s'', jwExpireDuration = 3600\<rparr>\<rparr>"

definition demo_boot :: "app_config \<Rightarrow> (unit, app_config) boot_lib" where
  "demo_boot c = \<lparr>blViper = \<lparr>vRead = (\<lambda>p. Inr c), vFill = (\<lambda>d old. (None, d))\<rparr>, blLevel = (\<lambda>l. None),
     blConnect = (\<lambda>dsn w. (None, w)), blPing = (\<lambda>c w. (None, w)), blMillis = return 0\<rparr>"

theorem start_outcomes_witness:
  "(\<exists>t. InitAll (demo_boot demo_file) ''c'' (new_process ()) = Inr (None, t) \<and> started t)
   \<and> InitAll (demo_boot (demo_file\<lparr>acJWT := None\<rparr>)) ''c'' (new_process ()) = Inl Panicked"
proof -
  have fresh: "fresh (new_process ())" by (simp add: fresh_def new_process_def)
  note run = InitAll_def then_do_def load_config_def InitFromFile_def demo_boot_def start_logger_def LoggerInit_def
    demo_file_def or_fail_def start_mysql_def MysqlInit_def Let_def ps_call_def new_process_def CompleteTask_def
    NewMonitor_def start_redis_def RedisInit_def set_jwt_def SetJWTConfig_def
  obtain t where "InitAll (demo_boot demo_file) ''c'' (new_process ()) = Inr (None, t)" by (simp add: run)
  moreover have "\<exists>h. InitAll (demo_boot (demo_file\<lparr>acJWT := None\<rparr>)) ''c'' (new_process ()) = Inl h" by (simp add: run)
  ultimately show ?thesis
    using start_outcomes [OF fresh, of "demo_boot demo_file" "''c''"]
      start_outcomes [OF fresh, of "demo_boot (demo_file\<lparr>acJWT := None\<rparr>)" "''c''"] by auto
qed

end
