(* ===== verification/Reclaimer.thy ===== *)
theory Reclaimer
  imports Pushback Outcomes Config "HOL-Library.Sublist"
begin

text \<open>
  \<open>internal/msgflusher/reclaimer.go\<close>: for every registered gateway, claim the stream entries that it took
  but did not acknowledge in time, hand each target's message to some send instance, and acknowledge the
  entry when all of them were accepted. The claiming loop follows the cursor that Redis returns until it
  comes back to the start; it need not end, so it is a partial function into \<open>option\<close>, and its
  termination is proved from what Redis documents about the cursor.
\<close>

section \<open>Settings\<close>

record reclaimer =
  rcRegistryURL :: string
  rcConsumer :: string
  rcStreamSuffix :: string
  rcGroupSuffix :: string
  rcClaimIdle :: int64
  rcInterval :: int64
  rcBatch :: int64

definition nonempty_or :: "string \<Rightarrow> string \<Rightarrow> string" where
  "nonempty_or s d = (if s \<noteq> [] then s else d)"

definition NewReclaimer :: "int64 \<Rightarrow> app_config option \<Rightarrow> goerr + reclaimer" where
  "NewReclaimer now cfg =
     (case cfg of
        None \<Rightarrow> Inl (ErrText ''registry url is required for msgflusher'')
      | Some c \<Rightarrow>
          (case acRegistry c of
             None \<Rightarrow> Inl (ErrText ''registry url is required for msgflusher'')
           | Some reg \<Rightarrow>
               if rgURL reg = [] then Inl (ErrText ''registry url is required for msgflusher'')
               else
                 let base = \<lparr>rcRegistryURL = rgURL reg,
                       rcConsumer = (if acName c = [] then ''msgflusher-'' @ FormatInt now
                         else ''msgflusher-'' @ acName c @ ''-'' @ FormatInt (acMachineID c)),
                       rcStreamSuffix = ''_stream'', rcGroupSuffix = ''_group'', rcClaimIdle = seconds 30,
                       rcInterval = seconds 5, rcBatch = 100\<rparr>
                 in Inr (case acPendingFlusher c of
                      None \<Rightarrow> base
                    | Some p \<Rightarrow> base\<lparr>rcStreamSuffix := nonempty_or (pfStreamSuffix p) ''_stream'',
                        rcGroupSuffix := nonempty_or (pfGroupSuffix p) ''_group'',
                        rcClaimIdle := (if 0 <s pfClaimIdleSeconds p then seconds (pfClaimIdleSeconds p) else seconds 30),
                        rcInterval := (if 0 <s pfInterval p then seconds (pfInterval p) else seconds 5),
                        rcBatch := positive_or (pfBatchSize p) 100\<rparr>)))"

text \<open>Whatever the file says, a batch has at least one entry; the interval is positive up to 292 years.\<close>

lemma new_reclaimer_batch: "NewReclaimer now cfg = Inr r \<Longrightarrow> 0 < sint (rcBatch r)"
  using positive_or_pos [of 100] by (auto simp: NewReclaimer_def Let_def word_sless_alt split: option.splits if_splits)

lemma new_reclaimer_interval:
  assumes "NewReclaimer now (Some c) = Inr r" "\<And>p. acPendingFlusher c = Some p \<Longrightarrow> sint (pfInterval p) \<le> 9223372036"
  shows "0 < sint (rcInterval r)"
  using assms by (auto simp: NewReclaimer_def Let_def word_sless_alt sint_seconds split: option.splits if_splits)

section \<open>Operations\<close>

text \<open>
  \<open>rcRedis\<close> is the global client, \<open>rcRegistry\<close> the registry's, \<open>rcRequest\<close> the verdict of
  \<open>http.NewRequest\<close> on a URL, \<open>rcDo\<close> the status that a POST returns, \<open>rcPerm\<close> is \<open>rand.Perm\<close>.
\<close>

record 'w reclaim_deps =
  rcRedis :: "'w redis"
  rcRegistry :: "'w http"
  rcRequest :: "string \<Rightarrow> goerr option"
  rcDo :: "string \<Rightarrow> wire \<Rightarrow> ('w, goerr + nat) io"
  rcPerm :: "nat \<Rightarrow> ('w, nat list) io"
  rcFloat :: "int \<Rightarrow> int"
  rcEnv :: regenv

fun try_instances :: "'w reclaim_deps \<Rightarrow> json \<Rightarrow> send_info list \<Rightarrow> nat list \<Rightarrow> goerr option \<Rightarrow> ('w, goerr option) io" where
  "try_instances d body insts [] lastErr =
     return (Some (case lastErr of None \<Rightarrow> ErrText ''all send instances failed for pushback'' | Some e \<Rightarrow> e))"
| "try_instances d body insts (idx # rest) lastErr =
     (let url = send_url (insts ! idx) in
      case rcRequest d url of
        Some e \<Rightarrow> try_instances d body insts rest (Some e)
      | None \<Rightarrow>
          on_call (rcDo d url (Doc body)) (\<lambda>e. try_instances d body insts rest (Some e))
            (\<lambda>st. if 200 \<le> st \<and> st < 300 then return None
               else try_instances d body insts rest (Some (ErrText (''send pushback status '' @ format_nat st)))))"

definition pushbackToSend :: "'w reclaim_deps \<Rightarrow> int64 \<Rightarrow> client_message \<Rightarrow> send_info list \<Rightarrow> ('w, goerr option) io" where
  "pushbackToSend d targetID forwardReq insts =
     (if insts = [] then return (Some (ErrText ''no send instances available''))
      else case client_json forwardReq of
          Inl e \<Rightarrow> return (Some e)
        | Inr j \<Rightarrow> then_io (rcPerm d (length insts))
            (\<lambda>indices. try_instances d (pushback_body targetID j) insts indices None))"

definition XAutoClaimWithContext :: "'w redis \<Rightarrow> string \<Rightarrow> string \<Rightarrow> string \<Rightarrow> int \<Rightarrow> string \<Rightarrow> nat \<Rightarrow>
    ('w, goerr + (string \<times> wire option) list \<times> string) io" where
  "XAutoClaimWithContext rd stream grp consumer idle start n = cXAutoClaim rd stream grp consumer idle start n"

text \<open>
  One claimed entry: undecodable entries are skipped, the first target that no instance accepts stops the
  entry, an acknowledgement that fails is only logged.
\<close>

definition reclaim_entry :: "'w reclaim_deps \<Rightarrow> string \<Rightarrow> string \<Rightarrow> send_info list \<Rightarrow> string \<times> wire option \<Rightarrow> ('w, unit) io" where
  "reclaim_entry d stream grp insts xmsg =
     (case xMessageToPushMessage (rcFloat d) (snd xmsg) of
        Inl _ \<Rightarrow> return ()
      | Inr m \<Rightarrow>
          then_io (for_each_err (\<lambda>uid. pushbackToSend d uid (client_of_push m) insts) (pTargetIDs m))
            (\<lambda>e. case e of
               Some _ \<Rightarrow> return ()
             | None \<Rightarrow> ignoring (XAckWithRetry (rcRedis d) 2 stream grp [fst xmsg]) (return ())))"

partial_function (option) reclaim_loop :: "reclaimer \<Rightarrow> 'w reclaim_deps \<Rightarrow> string \<Rightarrow> string \<Rightarrow> send_info list \<Rightarrow> string \<Rightarrow>
    'w \<Rightarrow> (goerr option \<times> 'w) option" where
  "reclaim_loop r d stream grp insts startID w =
     (case XAutoClaimWithContext (rcRedis d) stream grp (rcConsumer r) (sint (rcClaimIdle r)) startID (nat (sint (rcBatch r))) w of
        (Inl e, w1) \<Rightarrow> Some (if e = RedisNil then None else Some e, w1)
      | (Inr (xmsgs, nextStart), w1) \<Rightarrow>
          (case for_each (reclaim_entry d stream grp insts) xmsgs w1 of
             (_, w2) \<Rightarrow>
               if xmsgs = [] \<or> nextStart = [] \<or> nextStart = ''0-0'' \<or> nextStart = startID then Some (None, w2)
               else reclaim_loop r d stream grp insts nextStart w2))"

definition reclaimStream :: "reclaimer \<Rightarrow> 'w reclaim_deps \<Rightarrow> string \<Rightarrow> string \<Rightarrow> send_info list \<Rightarrow> 'w \<Rightarrow> (goerr option \<times> 'w) option" where
  "reclaimStream r d stream grp insts = reclaim_loop r d stream grp insts ''0-0''"

text \<open>The gateways in turn; a cancelled context ends the pass, any other error only the gateway's turn.\<close>

fun reclaim_gateways :: "reclaimer \<Rightarrow> 'w reclaim_deps \<Rightarrow> send_info list \<Rightarrow> gateway_info list \<Rightarrow> 'w \<Rightarrow> 'w option" where
  "reclaim_gateways r d insts [] w = Some w"
| "reclaim_gateways r d insts (gw # gws) w =
     (case reclaimStream r d (giID gw @ rcStreamSuffix r) (giID gw @ rcGroupSuffix r) insts w of
        None \<Rightarrow> None
      | Some (e, w1) \<Rightarrow> if e = Some CtxCanceled then Some w1 else reclaim_gateways r d insts gws w1)"

definition runOnce :: "reclaimer \<Rightarrow> 'w reclaim_deps \<Rightarrow> 'w \<Rightarrow> 'w option" where
  "runOnce r d w =
     (case ListGateways (rcFloat d) (rcEnv d) (rcRegistry d) w of
        (Inl _, w1) \<Rightarrow> Some w1
      | (Inr gateways, w1) \<Rightarrow>
          if gateways = [] then Some w1
          else (case ListSendInstances (rcFloat d) (rcEnv d) (rcRegistry d) w1 of
                 (Inl _, w2) \<Rightarrow> Some w2
               | (Inr insts, w2) \<Rightarrow> if insts = [] then Some w2 else reclaim_gateways r d insts gateways w2))"

text \<open>\<open>Run\<close> over what its select receives: ticks until the context is done.\<close>

datatype ticker_event = TickerFired | CtxDone

fun Run_ticks :: "reclaimer \<Rightarrow> 'w reclaim_deps \<Rightarrow> ticker_event list \<Rightarrow> 'w \<Rightarrow> 'w option" where
  "Run_ticks r d [] w = Some w"
| "Run_ticks r d (CtxDone # evs) w = Some w"
| "Run_ticks r d (TickerFired # evs) w = (case runOnce r d w of None \<Rightarrow> None | Some w1 \<Rightarrow> Run_ticks r d evs w1)"

text \<open>
  \<open>time.NewTicker\<close> panics on an interval that is not positive: \<open>Inl\<close> of the panic, \<open>Inr\<close> of the world when
  the context is done.
\<close>

definition Run :: "reclaimer \<Rightarrow> 'w reclaim_deps \<Rightarrow> ticker_event list \<Rightarrow> 'w \<Rightarrow> (halt + 'w) option" where
  "Run r d evs w = (case runOnce r d w of None \<Rightarrow> None
     | Some w1 \<Rightarrow> if sint (rcInterval r) \<le> 0 then Some (Inl Panicked) else map_option Inr (Run_ticks r d evs w1))"

section \<open>What Redis and the send instances promise\<close>

text \<open>
  The pending entries of the stream, in the order of their ids, beside the list of POSTs that were answered
  by a 2xx status. An entry is \<open>(id, Some data)\<close>, or \<open>(id, None)\<close> when its message has been deleted.
  \<open>XAUTOCLAIM\<close> scans entries from the start id on, at least one if it is to scan any; the cursor it returns
  is the next entry, or \<open>0-0\<close> after the last one; it removes deleted entries only.
\<close>

type_synonym pending_entry = "string \<times> wire option option"
type_synonym reclaim_view = "pending_entry list \<times> (string \<times> wire) list"

definition in_order :: "(string \<Rightarrow> nat) \<Rightarrow> pending_entry list \<Rightarrow> bool" where
  "in_order rank p \<longleftrightarrow> sorted_wrt (<) (map (\<lambda>x. rank (fst x)) p)"

definition from_id :: "(string \<Rightarrow> nat) \<Rightarrow> string \<Rightarrow> pending_entry list \<Rightarrow> pending_entry list" where
  "from_id rank start p = filter (\<lambda>x. rank start \<le> rank (fst x)) p"

definition purged :: "pending_entry list \<Rightarrow> pending_entry list \<Rightarrow> bool" where
  "purged p p' \<longleftrightarrow> subseq p' p \<and> (\<forall>x\<in>set p. snd x \<noteq> None \<longrightarrow> x \<in> set p')"

definition claimed :: "(string \<Rightarrow> nat) \<Rightarrow> string \<Rightarrow> nat \<Rightarrow> pending_entry list \<Rightarrow> (string \<times> wire option) list \<times> string \<Rightarrow> bool" where
  "claimed rank start n p r \<longleftrightarrow>
     (\<exists>scanned rest. from_id rank start p = scanned @ rest \<and> (0 < n \<and> rest \<noteq> [] \<longrightarrow> scanned \<noteq> [])
        \<and> snd r = (case rest of [] \<Rightarrow> ''0-0'' | x # _ \<Rightarrow> fst x)
        \<and> (\<forall>x\<in>set (fst r). (fst x, Some (snd x)) \<in> set scanned))"

definition accepting :: "nat \<Rightarrow> bool" where
  "accepting st \<longleftrightarrow> 200 \<le> st \<and> st < 300"

definition reclaim_services :: "(string \<Rightarrow> nat) \<Rightarrow> 'w reclaim_deps \<Rightarrow> string \<Rightarrow> string \<Rightarrow> ('w \<Rightarrow> reclaim_view) \<Rightarrow> bool" where
  "reclaim_services rank d stream grp vw \<longleftrightarrow>
     (\<forall>c idle start n s. post vw s (cXAutoClaim (rcRedis d) stream grp c idle start n)
        (\<lambda>r t. snd t = snd s \<and> purged (fst s) (fst t) \<and> (\<forall>v. r = Inr v \<longrightarrow> claimed rank start n (fst s) v)))
   \<and> (\<forall>ids s. post vw s (cXAck (rcRedis d) stream grp ids)
        (\<lambda>r t. t = (filter (\<lambda>x. fst x \<notin> set ids) (fst s), snd s) \<or> (t = s \<and> (\<exists>e. r = Inl e))))
   \<and> (\<forall>url b s. post vw s (rcDo d url b)
        (\<lambda>r t. t = (fst s, snd s @ (case r of Inl _ \<Rightarrow> [] | Inr st \<Rightarrow> if accepting st then [(url, b)] else []))))
   \<and> (\<forall>n s. post vw s (rcPerm d n) (\<lambda>is t. t = s \<and> set is = {..<n}))"

lemma sorted_wrt_subseq: "subseq ys xs \<Longrightarrow> sorted_wrt P xs \<Longrightarrow> sorted_wrt P ys"
proof (induction rule: list_emb.induct)
  case (list_emb_Cons2 x y xs ys)
  moreover have "set xs \<subseteq> set ys" using list_emb_Cons2.hyps by (auto dest: list_emb_set)
  ultimately show ?case by auto
qed auto

lemma in_order_subseq: "in_order rank p \<Longrightarrow> subseq q p \<Longrightarrow> in_order rank q"
  unfolding in_order_def by (blast intro: sorted_wrt_subseq subseq_map)

lemma in_order_same: "in_order rank p \<Longrightarrow> x \<in> set p \<Longrightarrow> y \<in> set p \<Longrightarrow> fst x = fst y \<Longrightarrow> x = y"
  by (induction p) (auto simp: in_order_def)

lemma length_from_id: "subseq q p \<Longrightarrow> length (from_id rank i q) \<le> length (from_id rank i p)"
  unfolding from_id_def by (rule list_emb_length) (rule subseq_filter)

text \<open>After a cursor other than \<open>0-0\<close> fewer entries are left to scan.\<close>

lemma cursor_advances:
  assumes "in_order rank p" "claimed rank start n p (ms, next')" "0 < n" "next' \<noteq> ''0-0''"
  shows "length (from_id rank next' p) < length (from_id rank start p)"
proof -
  from assms(2) obtain scanned rest where
    sp: "from_id rank start p = scanned @ rest" "0 < n \<and> rest \<noteq> [] \<longrightarrow> scanned \<noteq> []"
      "next' = (case rest of [] \<Rightarrow> ''0-0'' | x # _ \<Rightarrow> fst x)" unfolding claimed_def by auto
  with assms(3,4) obtain x xs where rest: "rest = x # xs" "next' = fst x" "scanned \<noteq> []" by (cases rest) auto
  have "in_order rank (scanned @ rest)"
    using in_order_subseq [OF assms(1), of "from_id rank start p"] sp(1) by (simp add: from_id_def)
  then have before: "\<forall>y\<in>set scanned. rank (fst y) < rank next'" "\<forall>y\<in>set xs. rank next' < rank (fst y)"
    by (auto simp: in_order_def sorted_wrt_append rest)
  have start: "rank start \<le> rank next'"
    using sp(1) rest by (metis (mono_tags, lifting) from_id_def in_set_conv_decomp mem_Collect_eq set_filter)
  have "from_id rank next' p = from_id rank next' (from_id rank start p)"
    unfolding from_id_def filter_filter by (rule filter_cong [OF refl]) (use start in auto)
  also have "\<dots> = rest"
  proof -
    have "filter (\<lambda>y. rank next' \<le> rank (fst y)) scanned = []" using before(1) by (auto simp: filter_empty_conv)
    moreover have "filter (\<lambda>y. rank next' \<le> rank (fst y)) xs = xs" using before(2) by (auto intro!: filter_True)
    ultimately show ?thesis unfolding sp(1) by (simp add: from_id_def rest)
  qed
  finally show ?thesis using sp(1) rest by simp
qed

section \<open>Effects of the operations\<close>

text \<open>The POSTs of a message that count: one of the instances answered a 2xx status.\<close>

definition accepted :: "send_info list \<Rightarrow> (string \<times> wire) list \<Rightarrow> client_message \<Rightarrow> int64 \<Rightarrow> bool" where
  "accepted insts l m uid \<longleftrightarrow>
     (\<exists>inst\<in>set insts. \<exists>j. client_json m = Inr j \<and> (send_url inst, Doc (pushback_body uid j)) \<in> set l)"

lemma accepted_mono: "accepted insts l m uid \<Longrightarrow> accepted insts (l @ k) m uid"
  by (auto simp: accepted_def)

definition delivered :: "(int \<Rightarrow> int) \<Rightarrow> send_info list \<Rightarrow> (string \<times> wire) list \<Rightarrow> wire option \<Rightarrow> bool" where
  "delivered f64 insts l data \<longleftrightarrow>
     (\<exists>m. xMessageToPushMessage f64 data = Inr m \<and> (\<forall>uid\<in>set (pTargetIDs m). accepted insts l (client_of_push m) uid))"

lemma delivered_mono: "delivered f64 insts l data \<Longrightarrow> delivered f64 insts (l @ k) data"
  unfolding delivered_def by (blast intro: accepted_mono)

text \<open>An entry leaves the pending list only when it was decoded and all its targets were accepted.\<close>

definition entry_result :: "(int \<Rightarrow> int) \<Rightarrow> send_info list \<Rightarrow> string \<times> wire option \<Rightarrow> reclaim_view \<Rightarrow> reclaim_view \<Rightarrow> bool" where
  "entry_result f64 insts x s t \<longleftrightarrow> (\<exists>k. snd t = snd s @ k) \<and>
     (fst t = fst s \<or> fst t = filter (\<lambda>y. fst y \<noteq> fst x) (fst s) \<and> delivered f64 insts (snd t) (snd x))"

locale reclaim_world =
  fixes rank :: "string \<Rightarrow> nat" and d :: "'w reclaim_deps" and stream grp :: string and vw :: "'w \<Rightarrow> reclaim_view"
  assumes services: "reclaim_services rank d stream grp vw"
begin

lemma claim_post:
  "post vw s (cXAutoClaim (rcRedis d) stream grp c idle start n)
     (\<lambda>r t. snd t = snd s \<and> purged (fst s) (fst t) \<and> (\<forall>v. r = Inr v \<longrightarrow> claimed rank start n (fst s) v))"
  using services unfolding reclaim_services_def by blast

lemma ack_post:
  "post vw s (cXAck (rcRedis d) stream grp ids)
     (\<lambda>r t. t = (filter (\<lambda>x. fst x \<notin> set ids) (fst s), snd s) \<or> (t = s \<and> (\<exists>e. r = Inl e)))"
  using services unfolding reclaim_services_def by blast

lemma do_post:
  "post vw s (rcDo d url b)
     (\<lambda>r t. t = (fst s, snd s @ (case r of Inl _ \<Rightarrow> [] | Inr st \<Rightarrow> if accepting st then [(url, b)] else [])))"
  using services unfolding reclaim_services_def by blast

lemma perm_post: "post vw s (rcPerm d n) (\<lambda>is t. t = s \<and> set is = {..<n})"
  using services unfolding reclaim_services_def by blast

lemma try_instances_post:
  "set is \<subseteq> {..<length insts} \<Longrightarrow>
   post vw s (try_instances d body insts is lastErr)
     (\<lambda>e t. \<exists>k. t = (fst s, snd s @ k) \<and> (e = None \<longrightarrow> (\<exists>inst\<in>set insts. (send_url inst, Doc body) \<in> set k)))"
proof (induction "is" arbitrary: lastErr s)
  case Nil
  then show ?case by (auto simp: post_def intro!: exI [of _ "[]"] split: option.splits)
next
  case (Cons i "is")
  let ?url = "send_url (insts ! i)"
  have i: "insts ! i \<in> set insts" "set is \<subseteq> {..<length insts}" using Cons.prems by auto
  show ?case
  proof (cases "rcRequest d ?url")
    case (Some e)
    then show ?thesis using Cons.IH [OF i(2)] by (simp add: Let_def)
  next
    case None
    show ?thesis unfolding try_instances.simps Let_def None option.case
    proof (rule post_call [OF do_post], goal_cases)
      case (1 st t)
      then show ?case
      proof (cases "accepting st")
        case True
        with 1 i(1) show ?thesis by (auto simp: accepting_def post_def)
      next
        case False
        with 1 have "t = s" by simp
        with False Cons.IH [OF i(2)] show ?thesis by (auto simp: accepting_def)
      qed
    next
      case (2 e t)
      with Cons.IH [OF i(2)] show ?case by simp
    qed
  qed
qed

lemma pushback_post:
  "post vw s (pushbackToSend d uid m insts)
     (\<lambda>e t. \<exists>k. t = (fst s, snd s @ k) \<and> (e = None \<longrightarrow> accepted insts (snd t) m uid))"
proof (cases "insts = [] \<or> (\<exists>e. client_json m = Inl e)")
  case True
  then show ?thesis by (auto simp: pushbackToSend_def post_def intro!: exI [of _ "[]"] split: sum.split)
next
  case False
  then obtain j where j: "client_json m = Inr j" "insts \<noteq> []" by (cases "client_json m") auto
  have "post vw s (then_io (rcPerm d (length insts)) (\<lambda>is. try_instances d (pushback_body uid j) insts is None))
     (\<lambda>e t. \<exists>k. t = (fst s, snd s @ k) \<and> (e = None \<longrightarrow> accepted insts (snd t) m uid))"
  proof (rule post_then [OF perm_post], goal_cases)
    case (1 "is" t)
    then show ?case
      by (auto simp: accepted_def j(1) intro!: post_mono [OF try_instances_post])
  qed
  with j show ?thesis by (simp add: pushbackToSend_def)
qed

lemma targets_post:
  "post vw s (for_each_err (\<lambda>uid. pushbackToSend d uid m insts) uids)
     (\<lambda>e t. \<exists>k. t = (fst s, snd s @ k) \<and> (e = None \<longrightarrow> (\<forall>uid\<in>set uids. accepted insts (snd t) m uid)))"
proof (induction uids arbitrary: s)
  case Nil
  then show ?case by (auto simp: post_def intro!: exI [of _ "[]"])
next
  case (Cons u us)
  show ?case unfolding for_each_err.simps
  proof (rule post_then [OF pushback_post], goal_cases)
    case (1 e t)
    then obtain k where t: "t = (fst s, snd s @ k)" "e = None \<longrightarrow> accepted insts (snd t) m u" by blast
    then show ?case
    proof (cases e)
      case None
      with t Cons.IH [of t] show ?thesis
        by (auto elim!: post_mono intro: accepted_mono) (metis accepted_mono append.assoc)
    qed (auto simp: post_def)
  qed
qed

lemma retried_ack_post:
  "post vw s (XAckWithRetry (rcRedis d) n stream grp [i]) (\<lambda>r t. t = (filter (\<lambda>x. fst x \<noteq> i) (fst s), snd s) \<or> t = s)"
proof -
  have "post vw t (retry_loop n never acc (cXAck (rcRedis d) stream grp [i]))
      (\<lambda>r t. t = (filter (\<lambda>x. fst x \<noteq> i) (fst s), snd s) \<or> t = s)"
    if "t = (filter (\<lambda>x. fst x \<noteq> i) (fst s), snd s) \<or> t = s" for t acc
    using that
  proof (induction n arbitrary: t acc)
    case 0
    then show ?case by (auto simp: post_def)
  next
    case (Suc n)
    show ?case
    proof (rule postI)
      fix w r w' assume w: "vw w = t" "retry_loop (Suc n) never acc (cXAck (rcRedis d) stream grp [i]) w = (r, w')"
      obtain r1 w1 where c: "cXAck (rcRedis d) stream grp [i] w = (r1, w1)" by (cases "cXAck (rcRedis d) stream grp [i] w")
      from postD [OF ack_post w(1) c] Suc.prems
      have t1: "vw w1 = (filter (\<lambda>x. fst x \<noteq> i) (fst s), snd s) \<or> vw w1 = s" by auto
      show "vw w' = (filter (\<lambda>x. fst x \<noteq> i) (fst s), snd s) \<or> vw w' = s"
      proof (cases r1)
        case (Inl e)
        with w(2) c have "retry_loop n never (Inl e) (cXAck (rcRedis d) stream grp [i]) w1 = (r, w')" by simp
        from postD [OF Suc.IH [OF t1] refl this] show ?thesis .
      qed (use w(2) c t1 in auto)
    qed
  qed
  then show ?thesis by (simp add: XAckWithRetry_def)
qed

lemma entry_post: "post vw s (reclaim_entry d stream grp insts x) (\<lambda>_. entry_result (rcFloat d) insts x s)"
proof (cases "xMessageToPushMessage (rcFloat d) (snd x)")
  case (Inl e)
  then show ?thesis by (auto simp: reclaim_entry_def entry_result_def post_def)
next
  case (Inr m)
  show ?thesis unfolding reclaim_entry_def Inr sum.case
  proof (rule post_then [OF targets_post], goal_cases)
    case (1 e t)
    then obtain k where t: "t = (fst s, snd s @ k)" by blast
    show ?case
    proof (cases e)
      case None
      with 1 have dv: "delivered (rcFloat d) insts (snd t) (snd x)" by (auto simp: delivered_def Inr)
      have "entry_result (rcFloat d) insts x s u" if "u = (filter (\<lambda>y. fst y \<noteq> fst x) (fst t), snd t) \<or> u = t" for u
        using that dv t by (auto simp: entry_result_def)
      then show ?thesis unfolding None option.case ignoring_def
        by (intro post_call [OF retried_ack_post] post_return) (auto simp del: return_simp)
    qed (use t in \<open>auto simp: entry_result_def post_def\<close>)
  qed
qed

text \<open>A loop over claimed entries, and the claiming loop: any invariant of the two kinds of step holds at the end.\<close>

lemma entries_post:
  assumes "\<And>x s. x \<in> set xs \<Longrightarrow> I s \<Longrightarrow> post vw s (reclaim_entry d stream grp insts x) (\<lambda>_. I)" "I s"
  shows "post vw s (for_each (reclaim_entry d stream grp insts) xs) (\<lambda>_ t. I t)"
  using assms by (rule post_for_each)

theorem reclaim_loop_total:
  assumes "0 < sint (rcBatch r)" "in_order rank p0"
    and claim: "\<And>s p'. I s \<Longrightarrow> purged (fst s) p' \<Longrightarrow> I (p', snd s)"
    and entry: "\<And>x s. (fst x, Some (snd x)) \<in> set p0 \<Longrightarrow> I s \<Longrightarrow> post vw s (reclaim_entry d stream grp insts x) (\<lambda>_ t. I t)"
    and start: "I (vw w)" "subseq (fst (vw w)) p0"
  shows "\<exists>e w'. reclaim_loop r d stream grp insts i w = Some (e, w') \<and> I (vw w')"
  using start
proof (induction "length (from_id rank i (fst (vw w)))" arbitrary: i w rule: less_induct)
  case less
  let ?c = "XAutoClaimWithContext (rcRedis d) stream grp (rcConsumer r) (sint (rcClaimIdle r)) i (nat (sint (rcBatch r)))"
  obtain res w1 where c: "?c w = (res, w1)" by (cases "?c w")
  from postD [OF claim_post refl c [unfolded XAutoClaimWithContext_def]]
  have w1: "snd (vw w1) = snd (vw w)" "purged (fst (vw w)) (fst (vw w1))"
    and cl: "\<forall>v. res = Inr v \<longrightarrow> claimed rank i (nat (sint (rcBatch r))) (fst (vw w)) v" by auto
  from claim [OF less.prems(1) w1(2)] w1(1) have I1: "I (vw w1)" by (metis prod.collapse)
  have sub1: "subseq (fst (vw w1)) p0" using w1(2) less.prems(2) unfolding purged_def by (blast intro: subseq_order.trans)
  show ?case
  proof (cases res)
    case (Inl e)
    with c I1 show ?thesis by (subst reclaim_loop.simps) simp
  next
    case (Inr v)
    obtain ms nxt where v: "v = (ms, nxt)" by (cases v)
    from cl Inr v have cl: "claimed rank i (nat (sint (rcBatch r))) (fst (vw w)) (ms, nxt)" by simp
    have ms: "(fst x, Some (snd x)) \<in> set p0" if "x \<in> set ms" for x
    proof -
      from cl that have "(fst x, Some (snd x)) \<in> set (from_id rank i (fst (vw w)))" unfolding claimed_def by (auto simp: set_append)
      with less.prems(2) show ?thesis by (auto simp: from_id_def dest: list_emb_set)
    qed
    obtain w2 where w2: "for_each (reclaim_entry d stream grp insts) ms w1 = ((), w2)"
      by (cases "for_each (reclaim_entry d stream grp insts) ms w1") auto
    let ?J = "\<lambda>t. I t \<and> subseq (fst t) (fst (vw w1))"
    have "?J (vw w2)"
    proof (rule postD [OF entries_post refl w2], goal_cases)
      case (1 x s)
      then show ?case
        by (intro post_mono [OF post_conj [OF entry_post entry [OF ms]]]) (auto simp: entry_result_def intro: subseq_order.trans [OF subseq_filter_left])
    qed (use I1 in simp)
    then have I2: "I (vw w2)" "subseq (fst (vw w2)) (fst (vw w1))" by simp_all
    show ?thesis
    proof (cases "ms = [] \<or> nxt = [] \<or> nxt = ''0-0'' \<or> nxt = i")
      case True
      with c Inr v w2 I2 show ?thesis by (subst reclaim_loop.simps) simp
    next
      case False
      have "length (from_id rank nxt (fst (vw w2))) \<le> length (from_id rank nxt (fst (vw w)))"
        using I2(2) w1(2) unfolding purged_def by (blast intro: length_from_id subseq_order.trans)
      also have "\<dots> < length (from_id rank i (fst (vw w)))"
        by (rule cursor_advances [OF in_order_subseq [OF assms(2) less.prems(2)] cl]) (use assms(1) False in auto)
      finally have "\<exists>e w'. reclaim_loop r d stream grp insts nxt w2 = Some (e, w') \<and> I (vw w')"
        by (rule less.hyps) (use I2 sub1 in \<open>auto intro: subseq_order.trans\<close>)
      with c Inr v w2 False show ?thesis by (subst reclaim_loop.simps) simp
    qed
  qed
qed

end

section \<open>Properties\<close>

text \<open>
  C7: the claiming loop of a stream returns, and an entry that is gone afterwards, and whose message was not
  deleted, was decoded and each of its targets was accepted by one of the send instances: what fails stays
  pending for a later pass. The cursor moves on at every round, so the pending entries bound the rounds.
\<close>

theorem reclaim_keeps_undelivered:
  assumes "reclaim_services rank d stream grp vw" "NewReclaimer now cfg = Inr r" "in_order rank (fst (vw w))"
  shows "\<exists>e w'. reclaimStream r d stream grp insts w = Some (e, w')
    \<and> (\<forall>i data. (i, Some data) \<in> set (fst (vw w)) - set (fst (vw w')) \<longrightarrow> delivered (rcFloat d) insts (snd (vw w')) data)"
proof -
  note total = reclaim_world.reclaim_loop_total [OF reclaim_world.intro [OF assms(1)] new_reclaimer_batch [OF assms(2)] assms(3)]
  let ?I = "\<lambda>s. \<forall>i data. (i, Some data) \<in> set (fst (vw w)) - set (fst s) \<longrightarrow> delivered (rcFloat d) insts (snd s) data"
  have "\<exists>e w'. reclaim_loop r d stream grp insts ''0-0'' w = Some (e, w') \<and> ?I (vw w')"
  proof (rule total, goal_cases)
    case (1 s p')
    then show ?case unfolding purged_def by fastforce
  next
    case (2 x s)
    show ?case
    proof (rule post_mono [OF reclaim_world.entry_post [OF reclaim_world.intro [OF assms(1)]]], goal_cases)
      case (1 _ t)
      then obtain k where x: "snd t = snd s @ k"
        "fst t = fst s \<or> fst t = filter (\<lambda>y. fst y \<noteq> fst x) (fst s) \<and> delivered (rcFloat d) insts (snd t) (snd x)"
        unfolding entry_result_def by blast
      from in_order_same [OF assms(3) 2(1)] have "data = snd x" if "(fst x, Some data) \<in> set (fst (vw w))" for data
        using that by fastforce
      with 2(2) x show ?case by (auto simp: delivered_mono)
    qed
  qed auto
  then show ?thesis unfolding reclaimStream_def .
qed

text \<open>
  C8: an entry that the send service wrote is lost: the reclaimer decodes it without targets, so its turn
  is nothing but the acknowledgement, and a pass over a stream of such entries makes no request at all.
\<close>

theorem reclaim_drops_sent:
  assumes "reclaim_services rank d stream grp vw" "NewReclaimer now cfg = Inr r" "in_order rank (fst (vw w))"
    and "\<And>i data. (i, Some data) \<in> set (fst (vw w)) \<Longrightarrow> \<exists>m j. send_push_json m = Inr j \<and> data = Some (Doc j)"
  shows "(\<exists>e w'. reclaimStream r d stream grp insts w = Some (e, w') \<and> snd (vw w') = snd (vw w))
    \<and> (\<forall>i data. (i, Some data) \<in> set (fst (vw w)) \<longrightarrow>
         reclaim_entry d stream grp insts (i, data) = ignoring (XAckWithRetry (rcRedis d) 2 stream grp [i]) (return ()))"
proof -
  note total = reclaim_world.reclaim_loop_total [OF reclaim_world.intro [OF assms(1)] new_reclaimer_batch [OF assms(2)] assms(3)]
  have ack: "reclaim_entry d stream grp insts (i, data) = ignoring (XAckWithRetry (rcRedis d) 2 stream grp [i]) (return ())"
    if e: "(i, Some data) \<in> set (fst (vw w))" for i data
  proof -
    from assms(4) [OF e] obtain m j where "send_push_json m = Inr j" "data = Some (Doc j)" by blast
    with reclaimer_misreads_send [of m j "rcFloat d"] show ?thesis
      by (auto simp: reclaim_entry_def then_io_def fun_eq_iff)
  qed
  have "\<exists>e w'. reclaim_loop r d stream grp insts ''0-0'' w = Some (e, w') \<and> snd (vw w') = snd (vw w)"
  proof (rule total, goal_cases)
    case (2 x s)
    have "post vw s (ignoring (XAckWithRetry (rcRedis d) 2 stream grp [fst x]) (return ())) (\<lambda>_ t. snd t = snd s)"
      unfolding ignoring_def
      by (rule post_call [OF reclaim_world.retried_ack_post [OF reclaim_world.intro [OF assms(1)]]])
         (auto simp del: return_simp)
    with 2 ack [of "fst x" "snd x"] show ?case by simp
  qed auto
  with ack show ?thesis unfolding reclaimStream_def by blast
qed

section \<open>An in-memory stream\<close>

text \<open>Stream ids are \<open>ms-seq\<close>, both decimal.\<close>

definition decimal :: "string \<Rightarrow> nat" where
  "decimal s = foldl (\<lambda>n c. 10 * n + (of_char c - 48)) 0 s"

definition stream_rank :: "string \<Rightarrow> nat" where
  "stream_rank s = decimal (takeWhile (\<lambda>c. c \<noteq> CHR ''-'') s) * 2 ^ 64 + decimal (tl (dropWhile (\<lambda>c. c \<noteq> CHR ''-'') s))"

definition mem_claim :: "string \<Rightarrow> nat \<Rightarrow> reclaim_view \<Rightarrow> (goerr + (string \<times> wire option) list \<times> string) \<times> reclaim_view" where
  "mem_claim start n s =
     (let scanned = take n (from_id stream_rank start (fst s)); rest = drop n (from_id stream_rank start (fst s))
      in (Inr (List.map_filter (\<lambda>x. map_option (Pair (fst x)) (snd x)) scanned, case rest of [] \<Rightarrow> ''0-0'' | x # _ \<Rightarrow> fst x),
          (filter (\<lambda>x. snd x \<noteq> None) (fst s), snd s)))"

definition mem_reclaim :: "(wire \<Rightarrow> nat) \<Rightarrow> reclaim_view reclaim_deps" where
  "mem_reclaim answer = \<lparr>rcRedis = \<lparr>cRPush = (\<lambda>_ _ w. (Inr (), w)), cLPop = (\<lambda>_ w. (Inl RedisNil, w)), cLLen = (\<lambda>_ w. (Inr 0, w)),
       cSetEx = (\<lambda>_ _ _ w. (Inr (), w)), cGet = (\<lambda>_ w. (Inl RedisNil, w)), cMGet = (\<lambda>ks w. (Inr (map (\<lambda>_. None) ks), w)),
       cDel = (\<lambda>_ w. (Inr (), w)), cExists = (\<lambda>_ w. (Inr 0, w)), cExpire = (\<lambda>_ _ w. (Inr (), w)), cPersist = (\<lambda>_ w. (Inr (), w)),
       cSAdd = (\<lambda>_ _ w. (Inr (), w)), cSRem = (\<lambda>_ _ w. (Inr (), w)), cSMembers = (\<lambda>_ w. (Inr [], w)),
       cSIsMember = (\<lambda>_ _ w. (Inr False, w)), cSCard = (\<lambda>_ w. (Inr 0, w)), cSRandMember = (\<lambda>_ w. (Inl RedisNil, w)),
       cZAdd = (\<lambda>_ _ _ w. (Inr (), w)), cZRem = (\<lambda>_ _ w. (Inr (), w)), cZRange = (\<lambda>_ _ _ w. (Inr [], w)),
       cZRangeByScore = (\<lambda>_ _ w. (Inr [], w)), cZScore = (\<lambda>_ _ w. (Inl RedisNil, w)), cXAdd = (\<lambda>_ _ w. (Inr (), w)),
       cXAck = (\<lambda>_ _ ids w. (Inr (), (filter (\<lambda>x. fst x \<notin> set ids) (fst w), snd w))),
       cXGroupCreate = (\<lambda>_ _ _ w. (Inr (), w)), cXReadGroup = (\<lambda>_ _ _ _ _ w. (Inr [], w)),
       cXAutoClaim = (\<lambda>_ _ _ _. mem_claim), cPing = (\<lambda>w. (Inr ''PONG'', w))\<rparr>,
     rcRegistry = \<lparr>baseURL = [], hDo = (\<lambda>_ _ _ w. (Inl CtxCanceled, w))\<rparr>, rcRequest = (\<lambda>_. None),
     rcDo = (\<lambda>url b w. (Inr (answer b), if accepting (answer b) then (fst w, snd w @ [(url, b)]) else w)),
     rcPerm = (\<lambda>n w. ([0..<n], w)), rcFloat = (\<lambda>n. n), rcEnv = demo_env\<rparr>"

lemma mem_reclaim_services: "reclaim_services stream_rank (mem_reclaim answer) stream grp id"
proof -
  have claim: "mem_claim start n s = (r, t) \<Longrightarrow>
      snd t = snd s \<and> purged (fst s) (fst t) \<and> (\<forall>v. r = Inr v \<longrightarrow> claimed stream_rank start n (fst s) v)" for start n s r t
  proof -
    assume c: "mem_claim start n s = (r, t)"
    let ?p = "from_id stream_rank start (fst s)"
    have "claimed stream_rank start n (fst s) (List.map_filter (\<lambda>x. map_option (Pair (fst x)) (snd x)) (take n ?p),
        case drop n ?p of [] \<Rightarrow> ''0-0'' | x # _ \<Rightarrow> fst x)"
      unfolding claimed_def by (rule exI [of _ "take n ?p"], rule exI [of _ "drop n ?p"]) (auto simp: List.map_filter_def)
    with c show ?thesis by (auto simp: mem_claim_def Let_def purged_def)
  qed
  show ?thesis unfolding reclaim_services_def
    by (auto simp: mem_reclaim_def post_def claim dest: claim) 
qed

interpretation mr: reclaim_world stream_rank "mem_reclaim answer" stream grp id for answer stream grp
  by unfold_locales (rule mem_reclaim_services)

definition demo_conf :: app_config where
  "demo_conf = zero_conf\<lparr>acName := ''flusher'', acMachineID := 1, acRegistry := Some \<lparr>rgURL = ''http://r'',
     rgGatewayHeartbeatTimeout = 30, rgSendHeartbeatTimeout = 30, rgUserRouteTTL = 300, rgCleanupInterval = 60\<rparr>\<rparr>"

definition demo_settings :: reclaimer where
  "demo_settings = \<lparr>rcRegistryURL = ''http://r'', rcConsumer = ''msgflusher-flusher-'' @ FormatInt 1, rcStreamSuffix = ''_stream'',
     rcGroupSuffix = ''_group'', rcClaimIdle = seconds 30, rcInterval = seconds 5, rcBatch = 100\<rparr>"

lemma demo_new: "NewReclaimer 0 (Some demo_conf) = Inr demo_settings"
  by (simp add: NewReclaimer_def demo_conf_def demo_settings_def zero_conf_def)

definition demo_instance :: send_info where
  "demo_instance = zero_send\<lparr>siAddress := ''10.0.0.1'', siPort := 8082\<rparr>"

text \<open>Two entries: one with the reclaimer's own keys and two targets, one as the send service writes it.\<close>

definition demo_tagged :: json where
  "demo_tagged = JObj [(''id'', JInt 5), (''type'', JStr ''chat''), (''room_id'', JInt 7), (''sender_id'', JInt 3),
     (''target_ids'', JArr [JInt 1, JInt 2]), (''payload'', JStr ''hi'')]"

definition demo_stream :: "pending_entry list" where
  "demo_stream = [(''1-0'', Some (Some (Doc demo_tagged))), (''1-1'', Some (Some (Doc demo_json)))]"

lemma demo_stream_order: "in_order stream_rank demo_stream"
  by (simp add: in_order_def demo_stream_def stream_rank_def decimal_def)

text \<open>The instance refuses everybody: the first entry is still pending after the pass.\<close>

theorem reclaim_keeps_undelivered_witness:
  "\<exists>e w'. reclaimStream demo_settings (mem_reclaim (\<lambda>_. 503)) ''g_stream'' ''g_group'' [demo_instance] (demo_stream, []) = Some (e, w')
    \<and> (\<forall>i data. (i, Some data) \<in> set demo_stream - set (fst w') \<longrightarrow> delivered (\<lambda>n. n) [demo_instance] (snd w') data)"
  using reclaim_keeps_undelivered [OF mem_reclaim_services [of "\<lambda>_. 503" "''g_stream''" "''g_group''"] demo_new,
      of "(demo_stream, [])" "[demo_instance]"] demo_stream_order
  by (simp add: mem_reclaim_def)

theorem reclaim_drops_sent_witness:
  "\<exists>e w'. reclaimStream demo_settings (mem_reclaim (\<lambda>_. 200)) ''g_stream'' ''g_group'' [demo_instance] (tl demo_stream, []) = Some (e, w')
    \<and> snd w' = []"
proof -
  have o: "in_order stream_rank (fst (id (tl demo_stream, [])))"
    by (simp add: in_order_def demo_stream_def)
  show ?thesis
    using reclaim_drops_sent [OF mem_reclaim_services [of "\<lambda>_. 200" "''g_stream''" "''g_group''"] demo_new o, of "[demo_instance]"] demo_push_json
    by (auto simp: demo_stream_def)
qed

end
