(* ===== verification/Processes.thy ===== *)
theory Processes
  imports Bootstrap GwWs Offline Reclaimer
begin

text \<open>
  The main functions of \<open>cmd/\<close> after \<open>InitAll\<close>: what each process sets up from its configuration, what its
  timers do and what it undoes when it ends. The routes are in \<open>Routers\<close>. A goroutine that a main function
  starts is the definition of its body; listening and signals are the arguments that say how they end.
\<close>

section \<open>Serving\<close>

text \<open>What \<open>ListenAndServe\<close> returns, and how a process ends: \<open>os.Exit\<close> runs no deferred function.\<close>

datatype listen_result = ListenFailed goerr | ServerClosed

datatype finish = ExitCode nat | Returned

definition listen_addr :: "int64 \<Rightarrow> string" where
  "listen_addr port = '':'' @ FormatInt port"

text \<open>The end of \<open>main\<close> in the meta, registry and send services: \<open>deferred\<close> are its deferred functions.\<close>

definition end_main :: "listen_result \<Rightarrow> ('s \<Rightarrow> 's) \<Rightarrow> 's \<Rightarrow> finish \<times> 's" where
  "end_main r deferred s = (case r of ListenFailed e \<Rightarrow> (ExitCode 1, s) | ServerClosed \<Rightarrow> (Returned, deferred s))"

text \<open>\<open>cmd/meta\<close> and \<open>cmd/registry\<close>: the start, the address, the end.\<close>

definition service_main :: "('w, 'doc) boot_lib \<Rightarrow> string \<Rightarrow> (string \<Rightarrow> 'w \<Rightarrow> listen_result \<times> 'w) \<Rightarrow> ('w process, finish) proc" where
  "service_main lib path listen =
     then_do (InitAll lib path) (\<lambda>e s.
       case e of
         Some err \<Rightarrow> Inr (ExitCode 1, s)
       | None \<Rightarrow>
           (case listen (listen_addr (acPort (psConf s))) (psWorld s) of
              (ListenFailed err, w) \<Rightarrow> Inr (ExitCode 1, s\<lparr>psWorld := w\<rparr>)
            | (ServerClosed, w) \<Rightarrow> then_do cleanup (\<lambda>_. returns Returned) (s\<lparr>psWorld := w\<rparr>)))"

section \<open>Gateway\<close>

text \<open>
  What the gateway's components get from outside: the client of its Redis, a registry client for a URL, the
  environment of the registry's data, and \<open>float32\<close> quotients as they are printed.
\<close>

record 'w gateway_env =
  gbRedis :: "'w redis"
  gbClient :: "string \<Rightarrow> 'w http"
  gbEnv :: regenv
  gbFloat :: "int \<Rightarrow> int"
  gbPick :: "nat \<Rightarrow> nat"
  gbRatio :: "int64 \<Rightarrow> int64 \<Rightarrow> string"

definition gateway_id :: "app_config \<Rightarrow> string" where
  "gateway_id c = ''gateway-'' @ acName c @ ''-'' @ FormatInt (acMachineID c)"

definition registry_url :: "app_config \<Rightarrow> string option" where
  "registry_url c = (case acRegistry c of None \<Rightarrow> None | Some r \<Rightarrow> if rgURL r = [] then None else Some (rgURL r))"

text \<open>The package variables of \<open>push\<close> after the start, as the dependencies its definitions take.\<close>

definition gateway_deps :: "'w gateway_env \<Rightarrow> app_config \<Rightarrow> 'w gw_deps" where
  "gateway_deps b c = \<lparr>gdRedis = gbRedis b, gdRegistry = map_option (gbClient b) (registry_url c),
     gdReport = map_option (gbClient b) (registry_url c), gdGatewayID = gateway_id c, gdEnv = gbEnv b, gdFloat = gbFloat b,
     gdPick = gbPick b, gdConfigured = True,
     gdBuffer = (case acGatewayDispatcher c of None \<Rightarrow> None | Some g \<Rightarrow> if 0 <s gwSendChannelSize g then Some (nat (sint (gwSendChannelSize g))) else None),
     gdThreshold = (case acGatewayDispatcher c of Some g \<Rightarrow> if registry_url c \<noteq> None then gwThresholdPending g else 10000 | None \<Rightarrow> 10000)\<rparr>"

text \<open>\<open>push.MaxConnections\<close>, which admits connections, and \<open>maxConns\<close>, which heartbeats divide by.\<close>

definition max_connections :: "app_config \<Rightarrow> int64" where
  "max_connections c = (case acGatewayDispatcher c of None \<Rightarrow> 100000 | Some g \<Rightarrow> gwMaxConnections g)"

definition heartbeat_max :: "app_config \<Rightarrow> int64" where
  "heartbeat_max c = (case acGatewayDispatcher c of None \<Rightarrow> 0 | Some g \<Rightarrow> gwMaxConnections g)"

definition stream_of :: "gateway_dispatcher_config \<Rightarrow> stream_config" where
  "stream_of g = \<lparr>streamName = gwStreamName g, groupName = gwGroupName g, consumerGroup = gwConsumerName g\<rparr>"

text \<open>
  \<open>main\<close> up to the server. The result is \<open>None\<close> without a registry, else what the registration returned, which
  is only logged. A missing registry section is dereferenced before its URL is looked at.
\<close>

definition gateway_setup :: "'w gateway_env \<Rightarrow> app_config \<Rightarrow> ('w gw_proc, goerr option option) proc" where
  "gateway_setup b c s =
     (let s1 = (case acGatewayDispatcher c of None \<Rightarrow> s | Some _ \<Rightarrow> InitDispatcher s) in
      case acRegistry c of
        None \<Rightarrow> Inl Panicked
      | Some reg \<Rightarrow>
          if rgURL reg = [] then Inr (None, s1)
          else (case Register_gw (gbFloat b) (gbClient b (rgURL reg)) (gateway_id c) (acAddress c) (acPort c) 10000 (gw_world s1) of
              (err, w) \<Rightarrow>
                let s2 = s1\<lparr>gw_world := w\<rparr> in
                Inr (Some err, (case acGatewayDispatcher c of
                    None \<Rightarrow> s2
                  | Some g \<Rightarrow> InitStreamAndGroup (gateway_deps b c) (stream_of g) s2))))"

text \<open>A tick of the heartbeat's ticker; an error is only logged.\<close>

definition heartbeat_load :: "'w gateway_env \<Rightarrow> app_config \<Rightarrow> int64 \<Rightarrow> string" where
  "heartbeat_load b c n = (if 0 <s heartbeat_max c then gbRatio b n (heartbeat_max c) else ''0'')"

definition gateway_beat :: "'w gateway_env \<Rightarrow> app_config \<Rightarrow> string \<Rightarrow> 'w gw_proc \<Rightarrow> goerr option \<times> 'w gw_proc" where
  "gateway_beat b c url s =
     (let n = GetConnectionCount s in
      case Heartbeat_gw (gbFloat b) (gbClient b url) (gateway_id c) (heartbeat_load b c n) n ''0'' 0 (gw_world s) of
        (err, w) \<Rightarrow> (err, s\<lparr>gw_world := w\<rparr>))"

text \<open>The loop over its select: the ticks until the channel is closed; the errors of the ticks are kept.\<close>

fun gateway_beats :: "'w gateway_env \<Rightarrow> app_config \<Rightarrow> string \<Rightarrow> ticker_event list \<Rightarrow> 'w gw_proc \<Rightarrow> goerr option list \<times> 'w gw_proc" where
  "gateway_beats b c url [] s = ([], s)"
| "gateway_beats b c url (CtxDone # evs) s = ([], s)"
| "gateway_beats b c url (TickerFired # evs) s =
     (case gateway_beat b c url s of (e, s1) \<Rightarrow> (case gateway_beats b c url evs s1 of (es, s2) \<Rightarrow> (e # es, s2)))"

text \<open>\<open>GatewayClient.StartHeartbeat\<close>, the same loop in the client package; \<open>getLoad\<close> is the function it is given.\<close>

fun StartHeartbeat_gw :: "(int \<Rightarrow> int) \<Rightarrow> 'w http \<Rightarrow> string \<Rightarrow> ('w, string \<times> int64) io \<Rightarrow> ticker_event list \<Rightarrow> ('w, unit) io" where
  "StartHeartbeat_gw f64 h gid getLoad [] w = ((), w)"
| "StartHeartbeat_gw f64 h gid getLoad (CtxDone # evs) w = ((), w)"
| "StartHeartbeat_gw f64 h gid getLoad (TickerFired # evs) w =
     (case getLoad w of ((load, n), w1) \<Rightarrow>
        (case Heartbeat_gw f64 h gid load n ''0'' 0 w1 of (_, w2) \<Rightarrow> StartHeartbeat_gw f64 h gid getLoad evs w2))"

text \<open>After the signal.\<close>

definition gateway_shutdown :: "'w gateway_env \<Rightarrow> app_config \<Rightarrow> 'w gw_proc \<Rightarrow> goerr option \<times> 'w gw_proc" where
  "gateway_shutdown b c s =
     (case registry_url c of
        None \<Rightarrow> (None, s)
      | Some url \<Rightarrow> (case Unregister_gw (gbFloat b) (gbClient b url) (gateway_id c) (gw_world s) of (e, w) \<Rightarrow> (e, s\<lparr>gw_world := w\<rparr>)))"

section \<open>Send service\<close>

definition send_id :: "app_config \<Rightarrow> string" where
  "send_id c = ''send-'' @ acName c @ ''-'' @ FormatInt (acMachineID c)"

fun role_config :: "send_redis_config \<Rightarrow> role \<Rightarrow> redis_config option" where
  "role_config c RoleStream = srStream c"
| "role_config c RoleQueue = srQueue c"
| "role_config c RoleCache = srCache c"

text \<open>
  \<open>mk\<close> is \<open>newRedisClient\<close> on a present configuration, \<open>ord\<close> is the order in which the map of roles is walked; \<open>Rdb\<close> is the client
  that \<open>InitAll\<close> made. \<open>mkCache\<close> is the route cache.
\<close>

record ('w, 'c) send_started =
  ssClients :: "'c role_clients"
  ssRegistered :: "goerr option option"
  ssRouting :: "'w route_service"
  ssWorkers :: "(int64 \<times> int64) option"
  ssProc :: "'w ws_proc"

definition InitRouteService :: "(int \<Rightarrow> int) \<Rightarrow> 'w rcache \<Rightarrow> 'w http \<Rightarrow> 'w route_service" where
  "InitRouteService f64 mkCache client = \<lparr>localCache = Some mkCache, registryClient = Some client, floatRead = f64\<rparr>"

text \<open>The switch on \<open>push_mod\<close>: how many workers and which queue capacity \<open>StartGatewayDispatcher\<close> gets.\<close>

definition start_push :: "app_config \<Rightarrow> ('w ws_proc, (int64 \<times> int64) option) proc" where
  "start_push c s =
     (if acPushMod c = ''standalone'' then Inr (None, InitDispatcher_ws s)
      else if acPushMod c = ''gateway'' then
        (case acSendDispatcher c of
           None \<Rightarrow> Inl Panicked
         | Some d \<Rightarrow> Inr (Some (positive_or (sdGatewayWorkerCount d) 1, positive_or (sdGatewayQueueSize d) 1024),
             s\<lparr>wsSend := StartGatewayDispatcher (wsSend s)\<rparr>))
      else Inr (None, s))"

definition send_setup :: "(redis_config \<Rightarrow> ('w, goerr + 'c) io) \<Rightarrow> role list \<Rightarrow> 'w rcache \<Rightarrow> (string \<Rightarrow> 'w http) \<Rightarrow> (int \<Rightarrow> int) \<Rightarrow>
    app_config \<Rightarrow> 'c role_clients \<Rightarrow> 'w ws_proc \<Rightarrow> halt + finish + ('w, 'c) send_started" where
  "send_setup mk ord mkCache client f64 c st s =
     (case InitSendRoleClients mk (acRedis c) (map_option role_config (acSendRedis c)) ord st (sp_world (wsSend s)) of
        ((Some e, st1), w) \<Rightarrow> Inr (Inl (ExitCode 1))
      | ((None, st1), w) \<Rightarrow>
          (case acRegistry c of
             None \<Rightarrow> Inl Panicked
           | Some reg \<Rightarrow>
               let h = client (rgURL reg);
                   (registered, w1) = (if rgURL reg = [] then (None, w)
                     else (case Register_send f64 h (send_id c) (acAddress c) (acPort c) w of (e, w') \<Rightarrow> (Some e, w')));
                   routing = (if rgURL reg = [] then \<lparr>localCache = None, registryClient = None, floatRead = f64\<rparr>
                     else InitRouteService f64 mkCache h) in
               (case start_push c (s\<lparr>wsSend := (wsSend s)\<lparr>sp_world := w1\<rparr>\<rparr>) of
                  Inl p \<Rightarrow> Inl p
                | Inr (workers, s1) \<Rightarrow> Inr (Inr \<lparr>ssClients = st1, ssRegistered = registered, ssRouting = routing,
                    ssWorkers = workers, ssProc = s1\<rparr>))))"

text \<open>\<open>SendClient.StartHeartbeat\<close>: its loop over its select.\<close>

fun send_beats :: "(int \<Rightarrow> int) \<Rightarrow> 'w http \<Rightarrow> string \<Rightarrow> ticker_event list \<Rightarrow> ('w, goerr option list) io" where
  "send_beats f64 h sid [] w = ([], w)"
| "send_beats f64 h sid (CtxDone # evs) w = ([], w)"
| "send_beats f64 h sid (TickerFired # evs) w =
     (case Heartbeat_send f64 h sid w of (e, w1) \<Rightarrow> (case send_beats f64 h sid evs w1 of (es, w2) \<Rightarrow> (e # es, w2)))"

text \<open>The deferred functions, run when the server is closed only.\<close>

definition send_deferred :: "(int \<Rightarrow> int) \<Rightarrow> (string \<Rightarrow> 'w http) \<Rightarrow> app_config \<Rightarrow> 'c role_clients \<times> 'w \<Rightarrow> 'c role_clients \<times> 'w" where
  "send_deferred f64 client c sw =
     (case registry_url c of
        None \<Rightarrow> (closeSendRoleClientsLocked (fst sw), snd sw)
      | Some url \<Rightarrow> (closeSendRoleClientsLocked (fst sw), snd (Unregister_send f64 (client url) (send_id c) (snd sw))))"

definition send_end :: "(int \<Rightarrow> int) \<Rightarrow> (string \<Rightarrow> 'w http) \<Rightarrow> app_config \<Rightarrow> listen_result \<Rightarrow> 'c role_clients \<times> 'w \<Rightarrow>
    finish \<times> 'c role_clients \<times> 'w" where
  "send_end f64 client c r = end_main r (send_deferred f64 client c)"

section \<open>Flusher and reclaimer\<close>

text \<open>The interval and the batch size of the group flusher; the message flusher has constants.\<close>

definition flusher_settings :: "app_config \<Rightarrow> int64 \<times> int64" where
  "flusher_settings c =
     (case acGroupCache c of
        None \<Rightarrow> (seconds 5, 100)
      | Some g \<Rightarrow> (if 0 <s gcFlushIntervalSeconds g then seconds (gcFlushIntervalSeconds g) else seconds 5,
          positive_or (gcBatchSize g) 100))"

definition message_flusher_settings :: "int64 \<times> int64" where
  "message_flusher_settings = (seconds 5, 100)"

text \<open>\<open>cmd/msgflusher\<close>: \<open>None\<close> is a pass that does not end.\<close>

definition msgflusher_main :: "('w, 'doc) boot_lib \<Rightarrow> string \<Rightarrow> int64 \<Rightarrow> (app_config \<Rightarrow> 'w reclaim_deps) \<Rightarrow> ticker_event list \<Rightarrow>
    'w process \<Rightarrow> (halt + finish \<times> 'w process) option" where
  "msgflusher_main lib path now deps evs s =
     (case then_do (\<lambda>s. case InitFromFile (blViper lib) path (psConf s) of (e, c) \<Rightarrow> Inr (e, s\<lparr>psConf := c\<rparr>))
             (\<lambda>e s. if e \<noteq> None then Inr (e, s) else then_do (LoggerInit lib (acLog (psConf s)))
             (\<lambda>e s. if e \<noteq> None then Inr (e, s) else RedisInit lib (acRedis (psConf s)) s) s) s of
        Inl h \<Rightarrow> Some (Inl h)
      | Inr (Some e, s1) \<Rightarrow> Some (Inr (ExitCode 1, s1))
      | Inr (None, s1) \<Rightarrow>
          (case NewReclaimer now (Some (psConf s1)) of
             Inl e \<Rightarrow> Some (Inr (ExitCode 1, s1))
           | Inr r \<Rightarrow>
               (case Run r (deps (psConf s1)) evs (psWorld s1) of
                  None \<Rightarrow> None
                | Some (Inl h) \<Rightarrow> Some (Inl h)
                | Some (Inr w) \<Rightarrow> Some (case RedisClose (s1\<lparr>psWorld := w\<rparr>) of Inl h \<Rightarrow> Inl h | Inr (_, s2) \<Rightarrow> Inr (Returned, s2)))))"

section \<open>Settings\<close>

text \<open>A configured interval is positive up to 292 years; a batch and a worker pool are never empty.\<close>

lemma flusher_settings_positive:
  assumes "\<And>g. acGroupCache c = Some g \<Longrightarrow> sint (gcFlushIntervalSeconds g) \<le> 9223372036"
  shows "0 < sint (fst (flusher_settings c)) \<and> 0 < sint (snd (flusher_settings c))"
  using assms positive_or_pos [of 100]
  by (auto simp: flusher_settings_def word_sless_alt sint_seconds split: option.splits)

lemma start_push_workers: "start_push c s = Inr (Some (k, q), t) \<Longrightarrow> 0 < sint k \<and> 0 < sint q"
  using positive_or_pos [of 1] positive_or_pos [of 1024]
  by (auto simp: start_push_def word_sless_alt split: option.splits if_splits)

text \<open>A role without settings of its own shares the client of \<open>InitAll\<close>.\<close>

lemma flusher_uses_default: "sendRoleClients st = Map.empty \<Longrightarrow> getSendRoleClient st r = Rdb st"
  by (simp add: getSendRoleClient_def)

section \<open>Requests that are refused\<close>

text \<open>A call that keeps a view of the world and fails does so however often it is tried.\<close>

lemma retry_refused:
  assumes "\<And>w r w'. call w = (r, w') \<Longrightarrow> P w \<Longrightarrow> P w' \<and> (\<exists>e. r = Inl e)"
  shows "P w \<Longrightarrow> retry_loop (Suc n) stop acc call w = (r, w') \<Longrightarrow> P w' \<and> (\<exists>e. r = Inl e)"
proof (induction n arbitrary: acc w)
  case 0
  then show ?case using assms [of w] by (cases "call w") (auto split: sum.splits if_splits)
next
  case (Suc n)
  obtain e w1 where c: "call w = (Inl e, w1)" "P w1" using assms [of w] Suc.prems(1) by (cases "call w") auto
  show ?case
  proof (cases "stop e")
    case True
    with Suc.prems c show ?thesis by auto
  next
    case False
    then have "retry_loop (Suc n) stop (Inl e) call w1 = (r, w')"
      using Suc.prems(2) c(1) unfolding retry_loop.simps(2) [of "Suc n"] by (simp del: retry_loop.simps)
    from Suc.IH [OF c(2) this] show ?thesis .
  qed
qed

lemma doRequest_refused:
  assumes srv: "serves h meth path body handler"
    and refuse: "\<And>w r w'. handler w = (r, w') \<Longrightarrow> P w \<Longrightarrow> P w' \<and> 400 \<le> status r"
    and run: "P w" "no_error what (doRequest f64 h meth path body n) w = (e, w')"
  shows "P w' \<and> e \<noteq> None"
proof -
  have one: "P v' \<and> (\<exists>e. r = Inl e)" if "doSingleRequest f64 h meth path body v = (r, v')" "P v" for v r v'
  proof -
    obtain rep v1 where "handler v = (rep, v1)" by fastforce
    with doSingleRequest_serves [OF srv this, of f64] refuse [OF this that(2)] that(1) show ?thesis by simp
  qed
  obtain r w1 where r: "retry_loop (Suc n) (\<lambda>_. False) (Inr zero_response) (doSingleRequest f64 h meth path body) w = (r, w1)"
    by fastforce
  have "P w1 \<and> (\<exists>e. r = Inl e)"
    by (rule retry_refused [where P = P, OF _ run(1) r]) (rule one)
  then obtain e' where "P w1" "r = Inl e'" by blast
  with r run(2) show ?thesis by (auto simp: no_error_def doRequest_def on_call_def)
qed

lemma bind_heartbeat_id:
  "bind_heartbeat env (Doc (gateway_heartbeat_body gid load n cpu mem)) = Inr req \<Longrightarrow> hrID req = gid"
  by (auto simp: bind_heartbeat_def bind_json_def unmarshal_struct_def gateway_heartbeat_body_def heartbeat_setf_def
      dec_float_def upd_def split: option.splits if_splits)

lemma UpdateHeartbeat_missing:
  assumes laws: "store_laws rd vw" and none: "kv (vw w) (gatewayInfoPrefix @ hrID req) = None"
    and run: "UpdateHeartbeat env rd now req w = (e, w')"
  shows "vw w' = vw w \<and> e = Some ErrGatewayNotFound"
proof -
  obtain r w1 where g: "GetWithRetry rd 2 (gatewayInfoPrefix @ hrID req) w = (r, w1)" by fastforce
  from Get_reads [OF laws g] none run g show ?thesis
    by (cases r) (auto simp: UpdateHeartbeat_def Let_def on_call_def get_reply_def)
qed

lemma heartbeat_refused:
  assumes laws: "store_laws rd vw" and none: "kv (vw w) (gatewayInfoPrefix @ gid) = None"
    and run: "HeartbeatHandler_gw env rd now (Doc (gateway_heartbeat_body gid load n cpu mem)) w = (r, w')"
  shows "vw w' = vw w \<and> 400 \<le> status r"
proof (cases "bind_heartbeat env (Doc (gateway_heartbeat_body gid load n cpu mem))")
  case (Inl e)
  with run show ?thesis by (auto simp: HeartbeatHandler_gw_def invalid_request_def reply_defs)
next
  case (Inr req)
  obtain e w1 where u: "UpdateHeartbeat env rd now req w = (e, w1)" by fastforce
  from UpdateHeartbeat_missing [OF laws _ u] none bind_heartbeat_id [OF Inr] u Inr run show ?thesis
    by (auto simp: HeartbeatHandler_gw_def reply_defs)
qed

section \<open>Properties\<close>

text \<open>
  C38: a gateway whose record is not in the registry, because its registration failed or because the record
  expired, does not come back: however long it runs, all its heartbeats are refused and the registry's
  data stay as they are. The comment next to the registration says that the heartbeats will retry it.
\<close>

theorem lost_gateway_stays_out:
  assumes laws: "store_laws rd vw" and client: "gbClient b url = registry_http env rd now url"
    and none: "kv (vw (gw_world s)) (gatewayInfoPrefix @ gateway_id c) = None"
    and run: "gateway_beats b c url evs s = (es, t)"
  shows "vw (gw_world t) = vw (gw_world s) \<and> None \<notin> set es"
proof -
  let ?P = "\<lambda>w. vw w = vw (gw_world s)"
  have beat: "?P (gw_world u') \<and> e \<noteq> None" if u: "?P (gw_world u)" and b: "gateway_beat b c url u = (e, u')" for u e u'
  proof -
    obtain w' where h: "Heartbeat_gw (gbFloat b) (registry_http env rd now url) (gateway_id c)
        (heartbeat_load b c (GetConnectionCount u)) (GetConnectionCount u) ''0'' 0 (gw_world u) = (e, w')" "gw_world u' = w'"
      using b by (auto simp: gateway_beat_def Let_def client split: prod.splits)
    have "?P w' \<and> e \<noteq> None"
      by (rule doRequest_refused [where P = ?P, OF registry_serves(2) _ u h(1) [unfolded Heartbeat_gw_def]])
         (use heartbeat_refused [OF laws] none in force)
    with h(2) show ?thesis by simp
  qed
  have "?P (gw_world u) \<Longrightarrow> gateway_beats b c url evs u = (es, t) \<Longrightarrow> ?P (gw_world t) \<and> None \<notin> set es" for u
  proof (induction evs arbitrary: u es)
    case (Cons ev evs)
    show ?case
    proof (cases ev)
      case TickerFired
      obtain e u1 where b: "gateway_beat b c url u = (e, u1)" by fastforce
      obtain es1 t1 where r: "gateway_beats b c url evs u1 = (es1, t1)" by fastforce
      from Cons.prems(2) b r TickerFired have "es = e # es1" "t1 = t" by simp_all
      with Cons.IH [of u1 es1] r beat [OF Cons.prems(1) b] show ?thesis by auto
    qed (use Cons.prems in auto)
  qed simp
  with run show ?thesis by blast
qed

definition demo_genv :: "mem gateway_env" where
  "demo_genv = \<lparr>gbRedis = mem_redis, gbClient = registry_http demo_env mem_redis ''t'', gbEnv = demo_env, gbFloat = (\<lambda>n. n),
     gbPick = (\<lambda>n. 0), gbRatio = (\<lambda>a b. ''0.5'')\<rparr>"

theorem lost_gateway_stays_out_witness:
  "\<exists>e t. gateway_beats demo_genv demo_file ''r'' [TickerFired, CtxDone] (gw_init mem_empty) = ([e], t)
     \<and> e \<noteq> None \<and> mem_store (gw_world t) = mem_store mem_empty"
proof -
  obtain e t where run: "gateway_beats demo_genv demo_file ''r'' [TickerFired, CtxDone] (gw_init mem_empty) = ([e], t)"
    by (cases "gateway_beat demo_genv demo_file ''r'' (gw_init mem_empty)") simp
  have c: "gbClient demo_genv ''r'' = registry_http demo_env mem_redis ''t'' ''r''" by (simp add: demo_genv_def)
  have n: "kv (mem_store (gw_world (gw_init mem_empty))) (gatewayInfoPrefix @ gateway_id demo_file) = None"
    by (simp add: gw_init_def mem_store_def mem_empty_def)
  from lost_gateway_stays_out [OF mem_store_laws c n run] have
    "mem_store (gw_world t) = mem_store mem_empty" "None \<notin> set [e]" by (auto simp: gw_init_def)
  then have "mem_store (gw_world t) = mem_store mem_empty" "e \<noteq> None" by auto
  with run show ?thesis by blast
qed

text \<open>
  C37: a gateway that starts against a working registry is registered there under its configured address and
  port, with load 0. Its capacity is 10000 whatever number of connections the configuration admits.
\<close>

theorem gateway_start_registers:
  assumes laws: "store_laws rd vw" and client: "gbClient b (rgURL reg) = registry_http env rd now (rgURL reg)"
    and reg: "acRegistry c = Some reg" "rgURL reg \<noteq> []" and addr: "acAddress c \<noteq> []" "acPort c \<noteq> 0"
    and srv: "RegisterGateway env rd now \<lparr>rrID = gateway_id c, rrAddress = acAddress c, rrPort = acPort c, rrCapacity = 10000\<rparr>
        (gw_world s) = (None, w')"
    and now: "time_ok env now" "float_text env (JFloat ''0'') = Some ''0''"
    and stream: "\<And>w n g. vw (snd (XGroupCreateMkStreamWithRetry (gbRedis b) 2 n g ''0'' w)) = vw w"
  shows "\<exists>t. gateway_setup b c s = Inr (Some None, t)
    \<and> stored_gateway env (vw (gw_world t)) (gateway_id c) = Some \<lparr>giID = gateway_id c, giAddress = acAddress c,
         giPort = acPort c, giLoad = ''0'', giCapacity = 10000, giConnected = 0, giHeartbeat = now\<rparr>
    \<and> gateway_id c \<in> sets (vw (gw_world t)) gatewayInstanceKey"
proof -
  let ?req = "\<lparr>rrID = gateway_id c, rrAddress = acAddress c, rrPort = acPort c, rrCapacity = 10000\<rparr>"
  have gid: "gateway_id c \<noteq> []" "gateway_id c \<noteq> ''ranking''" "gateway_id c \<noteq> ''instances''" by (simp_all add: gateway_id_def)
  have r: "Register_gw (gbFloat b) (registry_http env rd now (rgURL reg)) (gateway_id c) (acAddress c) (acPort c) 10000 (gw_world s) = (None, w')"
    by (rule register_end_to_end) (use gid addr srv in simp_all)
  have info: "registered_info now ?req = \<lparr>giID = gateway_id c, giAddress = acAddress c,
         giPort = acPort c, giLoad = ''0'', giCapacity = 10000, giConnected = 0, giHeartbeat = now\<rparr>"
    by (simp add: registered_info_def)
  have rdb: "readable env (registered_info now ?req)" using now by (simp add: readable_def info)
  have st: "stored_gateway env (vw w') (gateway_id c) = Some (registered_info now ?req)"
    "gateway_id c \<in> sets (vw w') gatewayInstanceKey"
    using register_gateway_stored [OF laws _ _ rdb srv] gid by simp_all
  obtain t where "gateway_setup b c s = Inr (Some None, t)" "vw (gw_world t) = vw w'"
    using reg r client stream
    by (cases "acGatewayDispatcher c") (simp_all add: gateway_setup_def Let_def InitDispatcher_def InitStreamAndGroup_def gateway_deps_def)
  with st info show ?thesis by auto
qed

lemma demo_registers: "\<exists>w'. RegisterGateway demo_env mem_redis ''t'' req mem_empty = (None, w')"
  by (simp add: RegisterGateway_def Let_def on_call_def SetEXWithRetry_def ZAddWithRetry_def SAddWithRetry_def mem_redis_def
      mem_write_def mem_empty_def numeral_2_eq_2)

theorem gateway_start_registers_witness:
  "\<exists>t. gateway_setup demo_genv (demo_file\<lparr>acRegistry := Some \<lparr>rgURL = ''r'', rgGatewayHeartbeatTimeout = 30, rgSendHeartbeatTimeout = 30,
        rgUserRouteTTL = 60, rgCleanupInterval = 60\<rparr>, acAddress := ''10.0.0.1''\<rparr>) (gw_init mem_empty) = Inr (Some None, t)
     \<and> (\<exists>info gid. stored_gateway demo_env (mem_store (gw_world t)) gid = Some info \<and> giCapacity info = 10000)"
proof -
  let ?reg = "\<lparr>rgURL = ''r'', rgGatewayHeartbeatTimeout = 30, rgSendHeartbeatTimeout = 30, rgUserRouteTTL = 60, rgCleanupInterval = 60\<rparr>"
  let ?c = "demo_file\<lparr>acRegistry := Some ?reg, acAddress := ''10.0.0.1''\<rparr>"
  let ?req = "\<lparr>rrID = gateway_id ?c, rrAddress = acAddress ?c, rrPort = acPort ?c, rrCapacity = 10000\<rparr>"
  obtain w' where srv: "RegisterGateway demo_env mem_redis ''t'' ?req (gw_world (gw_init mem_empty)) = (None, w')"
    using demo_registers [of ?req] by (auto simp: gw_init_def)
  have client: "gbClient demo_genv (rgURL ?reg) = registry_http demo_env mem_redis ''t'' (rgURL ?reg)" by (simp add: demo_genv_def)
  have addr: "acAddress ?c \<noteq> []" "acPort ?c \<noteq> 0" by (simp_all add: demo_file_def)
  have now: "time_ok demo_env ''t''" "float_text demo_env (JFloat ''0'') = Some ''0''" by (simp_all add: demo_env_def)
  have reg: "acRegistry ?c = Some ?reg" "rgURL ?reg \<noteq> []" by simp_all
  have stream: "mem_store (snd (XGroupCreateMkStreamWithRetry (gbRedis demo_genv) 2 n g ''0'' w)) = mem_store w" for w n g
    by (simp add: demo_genv_def XGroupCreateMkStreamWithRetry_def mem_redis_def mem_write_def numeral_2_eq_2 mem_store_def split: list.split fault.split)
  from gateway_start_registers [OF mem_store_laws client reg addr srv now stream] obtain t where
    "gateway_setup demo_genv ?c (gw_init mem_empty) = Inr (Some None, t)"
    "stored_gateway demo_env (mem_store (gw_world t)) (gateway_id ?c) = Some \<lparr>giID = gateway_id ?c, giAddress = acAddress ?c,
         giPort = acPort ?c, giLoad = ''0'', giCapacity = 10000, giConnected = 0, giHeartbeat = ''t''\<rparr>" by blast
  then show ?thesis by (intro exI [of _ t]) (auto intro!: exI)
qed

end
