(* ===== verification/Delivery.thy ===== *)
theory Delivery
  imports SendPush GwDispatch
begin

text \<open>
  From the send service to a gateway: both sides of a gateway's Redis stream in one world. \<open>strm\<close> is what the
  stream's consumer group has not read yet and what it has read but not acknowledged; \<open>stream_laws\<close> states
  what Redis documents about the three commands, with the ambiguity of a command that reports an error. An id
  passed to \<open>XACK\<close> without its second part stands for the entry with that part 0.
\<close>

record strm =
  smNew :: "(string \<times> wire) list"
  smPending :: "(string \<times> wire) list"

definition full_id :: "string \<Rightarrow> string" where
  "full_id i = (if CHR ''-'' \<in> set (tl i) then i else i @ ''-0'')"

definition appended :: "wire \<Rightarrow> nat \<Rightarrow> strm \<Rightarrow> strm \<Rightarrow> bool" where
  "appended v n s t \<longleftrightarrow> (\<exists>ids. length ids = n \<and> t = s\<lparr>smNew := smNew s @ map (\<lambda>i. (i, v)) ids\<rparr>)"

definition acked :: "string list \<Rightarrow> strm \<Rightarrow> strm" where
  "acked ids s = s\<lparr>smPending := filter (\<lambda>x. fst x \<notin> full_id ` set ids) (smPending s)\<rparr>"

definition taken :: "nat \<Rightarrow> strm \<Rightarrow> strm" where
  "taken n s = s\<lparr>smNew := drop n (smNew s), smPending := smPending s @ take n (smNew s)\<rparr>"

definition stream_laws :: "'w redis \<Rightarrow> string \<Rightarrow> string \<Rightarrow> ('w \<Rightarrow> strm) \<Rightarrow> bool" where
  "stream_laws rd stream grp vw \<longleftrightarrow>
     (\<forall>v w r w'. cXAdd rd stream v w = (r, w') \<longrightarrow> (\<exists>n \<le> 1. appended v n (vw w) (vw w') \<and> (r = Inr () \<longrightarrow> n = 1)))
   \<and> (\<forall>c n w r w'. cXReadGroup rd stream grp c n ''>'' w = (r, w') \<longrightarrow>
        (case r of
           Inr es \<Rightarrow> vw w' = taken n (vw w) \<and> es = map (\<lambda>(i, v). (i, Some v)) (take n (smNew (vw w)))
         | Inl e \<Rightarrow> vw w' = vw w \<or> vw w' = taken n (vw w)))
   \<and> (\<forall>ids w r w'. cXAck rd stream grp ids w = (r, w') \<longrightarrow>
        vw w' = acked ids (vw w) \<or> (vw w' = vw w \<and> (\<exists>e. r = Inl e)))"

lemma stream_lawsD:
  assumes "stream_laws rd stream grp vw"
  shows "cXAdd rd stream v w = (r, w') \<Longrightarrow> \<exists>n \<le> 1. appended v n (vw w) (vw w') \<and> (r = Inr () \<longrightarrow> n = 1)"
    and "cXReadGroup rd stream grp c n ''>'' w = (Inr es, w') \<Longrightarrow>
      vw w' = taken n (vw w) \<and> es = map (\<lambda>(i, v). (i, Some v)) (take n (smNew (vw w)))"
    and "cXAck rd stream grp ids w = (s, w') \<Longrightarrow> vw w' = acked ids (vw w) \<or> vw w' = vw w"
  using assms unfolding stream_laws_def by (blast, fastforce, blast)

section \<open>Writing\<close>

lemma appended_0: "appended v 0 s s"
  by (simp add: appended_def)

lemma appended_trans: "appended v m r s \<Longrightarrow> appended v n s t \<Longrightarrow> appended v (m + n) r t"
  by (auto simp: appended_def) (metis length_append map_append)

text \<open>An addition tried up to \<open>n\<close> times adds the entry at most \<open>n\<close> times, at least once if it succeeds.\<close>

lemma xadd_retried:
  assumes laws: "stream_laws rd stream grp vw"
  shows "retry_loop n never acc (cXAdd rd stream v) w = (r, w') \<Longrightarrow>
    \<exists>m \<le> n. appended v m (vw w) (vw w') \<and> (r = Inr () \<and> (0 < n \<or> acc \<noteq> Inr ()) \<longrightarrow> 1 \<le> m)"
proof (induction n arbitrary: acc w)
  case 0
  then show ?case using appended_0 by auto
next
  case (Suc n)
  obtain r1 w1 where c: "cXAdd rd stream v w = (r1, w1)" by fastforce
  obtain m where m: "m \<le> 1" "appended v m (vw w) (vw w1)" "r1 = Inr () \<longrightarrow> m = 1"
    using stream_lawsD(1) [OF laws c] by blast
  show ?case
  proof (cases r1)
    case (Inr u)
    with Suc.prems c m show ?thesis by (intro exI [of _ m]) auto
  next
    case (Inl e)
    with Suc.prems c have "retry_loop n never (Inl e) (cXAdd rd stream v) w1 = (r, w')" by simp
    from Suc.IH [OF this] obtain k where k: "k \<le> n" "appended v k (vw w1) (vw w')" "r = Inr () \<longrightarrow> 1 \<le> k" by auto
    from appended_trans [OF m(2) k(2)] m(1) k show ?thesis by (intro exI [of _ "m + k"]) auto
  qed
qed

lemma send_appends:
  assumes "getSendRoleClient (clients d) RoleStream = Some rs" "stream_laws rs (stream_name gid) grp vw"
    and "sendToGatewayWithRedisStream d gid msg s = Inr (None, s')"
  shows "\<exists>j n. send_push_json msg = Inr j \<and> 1 \<le> n \<and> n \<le> 2 \<and> appended (Doc j) n (vw (sp_world s)) (vw (sp_world s'))"
proof -
  from assms(3) obtain j where j: "send_push_json msg = Inr j"
    by (cases "send_push_json msg") (auto simp: sendToGatewayWithRedisStream_def)
  obtain r w where run: "SendStreamXAddWithRetry (clients d) 2 (stream_name gid) (Doc j) (sp_world s) = (r, w)" by fastforce
  with assms(3) j have s': "r = Inr ()" "sp_world s' = w"
    by (auto simp: sendToGatewayWithRedisStream_def then_do_def redis_call_def in_world_def split: sum.splits)
  from run assms(1) have "retry_loop 2 never (Inr ()) (cXAdd rs (stream_name gid) (Doc j)) (sp_world s) = (r, w)"
    by (simp add: SendStreamXAddWithRetry_def sendXAddWithRetry_def)
  from xadd_retried [OF assms(2) this] s' j show ?thesis by auto
qed

section \<open>Reading\<close>

lemma entries_append:
  "XStream2PushMessage f64 (es @ fs) = XStream2PushMessage f64 es @ XStream2PushMessage f64 fs"
  by (induction f64 es rule: XStream2PushMessage.induct) (auto split: option.split sum.split)

lemma entries_replicate:
  assumes "UnmarshalJSON f64 v zero_push = Inr m"
  shows "XStream2PushMessage f64 (map (\<lambda>i. (i, Some v)) ids) = replicate (length ids) m"
  using assms by (induction ids) simp_all

section \<open>Acknowledging\<close>

lemma no_dash: "CHR ''-'' \<notin> set (format_nat n)"
proof (induction n rule: format_nat.induct)
  case (1 n)
  then show ?case
    using digit_char_not_sign [of n] digit_char_not_sign [of "n mod 10"] by (subst format_nat.simps) auto
qed

lemma full_id_message: "full_id (FormatInt k) = FormatInt k @ ''-0''"
  using no_dash [of "nat (sint k)"] no_dash [of "nat (- sint k)"]
  by (auto simp: full_id_def FormatInt_def Let_def dest: list.set_sel(2) [rotated])

lemma acked_none:
  assumes "\<forall>x\<in>set (smPending s). \<forall>k\<in>K. fst x \<noteq> FormatInt k @ ''-0''" "set ids \<subseteq> FormatInt ` K"
  shows "acked ids s = s"
proof -
  have "fst x \<notin> full_id ` set ids" if "x \<in> set (smPending s)" for x
    using that assms by (auto simp: full_id_message subset_iff)
  then have "filter (\<lambda>x. fst x \<notin> full_id ` set ids) (smPending s) = smPending s" by (simp add: filter_id_conv)
  then show ?thesis by (simp add: acked_def)
qed

lemma retry_view:
  assumes "\<And>w r w'. call w = (r, w') \<Longrightarrow> P w \<Longrightarrow> P w'"
  shows "P w \<Longrightarrow> retry_loop n stop acc call w = (r, w') \<Longrightarrow> P w'"
proof (induction n arbitrary: acc w)
  case (Suc n)
  obtain r1 w1 where c: "call w = (r1, w1)" by fastforce
  with assms [OF c Suc.prems(1)] Suc show ?case by (cases r1) (auto split: if_splits)
qed simp

text \<open>What a round of the worker sends and keeps was put into the cache.\<close>

definition ack_ids :: "ack_cache \<Rightarrow> string set" where
  "ack_ids st = set (msgCh st) \<union> set (ackBatch st)"

lemma InsertAckCache_ids: "ack_ids (fst (InsertAckCache xs st)) \<subseteq> ack_ids st \<union> set xs"
proof (induction xs arbitrary: st)
  case (Cons x xs)
  from Cons.IH [of st] Cons.IH [of "st\<lparr>msgCh := msgCh st @ [x]\<rparr>"] show ?case
    by (auto simp: ack_ids_def split: prod.split)
qed (simp add: ack_ids_def)

lemma ack_step_ids:
  assumes "ack_step ev st = (st', out)" "ack_ids st \<subseteq> F" "\<And>xs. ev = Insert xs \<Longrightarrow> set xs \<subseteq> F"
  shows "ack_ids st' \<subseteq> F \<and> (\<forall>b\<in>set out. set b \<subseteq> F)"
proof (cases ev)
  case (Insert xs)
  with assms InsertAckCache_ids [of xs st] show ?thesis by force
qed (use assms in \<open>auto simp: ack_ids_def flush_batch_def Let_def split: if_splits list.splits\<close>)

section \<open>Properties\<close>



text \<open>A server with one stream.\<close>

definition refuse :: "('w, goerr + 'a) io" where
  "refuse = return (Inl net_err)"

definition demo_stream :: "strm redis" where
  "demo_stream = \<lparr>cRPush = (\<lambda>k v. refuse), cLPop = (\<lambda>k. refuse), cLLen = (\<lambda>k. refuse), cSetEx = (\<lambda>k v t. refuse),
     cGet = (\<lambda>k. refuse), cMGet = (\<lambda>k. refuse), cDel = (\<lambda>k. refuse), cExists = (\<lambda>k. refuse), cExpire = (\<lambda>k t. refuse),
     cPersist = (\<lambda>k. refuse), cSAdd = (\<lambda>k m. refuse), cSRem = (\<lambda>k m. refuse), cSMembers = (\<lambda>k. refuse),
     cSIsMember = (\<lambda>k m. refuse), cSCard = (\<lambda>k. refuse), cSRandMember = (\<lambda>k. refuse), cZAdd = (\<lambda>k s m. refuse),
     cZRem = (\<lambda>k m. refuse), cZRange = (\<lambda>k i j. refuse), cZRangeByScore = (\<lambda>k s. refuse), cZScore = (\<lambda>k m. refuse),
     cXAdd = (\<lambda>k v s. (Inr (), s\<lparr>smNew := smNew s @ [(''1700000000000-1'', v)]\<rparr>)),
     cXAck = (\<lambda>k g ids s. (Inr (), acked ids s)), cXGroupCreate = (\<lambda>k g i. refuse),
     cXReadGroup = (\<lambda>k g c n i s. (Inr (map (\<lambda>(i, v). (i, Some v)) (take n (smNew s))), taken n s)),
     cXAutoClaim = (\<lambda>k g c t i n. refuse), cPing = refuse\<rparr>"

lemma demo_stream_laws: "stream_laws demo_stream k g (\<lambda>s. s)"
  by (auto simp: stream_laws_def demo_stream_def appended_def intro!: exI [of _ "[''1700000000000-1'']"] exI [of _ 1])

definition demo_sender :: "strm send_deps" where
  "demo_sender = \<lparr>clients = \<lparr>sendRoleClients = (\<lambda>_. None), Rdb = Some demo_stream, closed = []\<rparr>,
     routing = \<lparr>localCache = None, registryClient = None, floatRead = (\<lambda>n. n)\<rparr>, walkRoutes = (\<lambda>m. []), walkGroups = (\<lambda>g. g)\<rparr>"

definition demo_receiver :: "strm gw_deps" where
  "demo_receiver = \<lparr>gdRedis = demo_stream, gdRegistry = None, gdReport = None, gdGatewayID = ''g1'', gdEnv = demo_env,
     gdFloat = (\<lambda>n. n), gdPick = (\<lambda>n. 0), gdConfigured = True, gdBuffer = None, gdThreshold = 10000\<rparr>"

definition demo_streams :: stream_config where
  "demo_streams = \<lparr>streamName = stream_name ''g1'', groupName = ''g1_group'', consumerGroup = ''g1_consumer''\<rparr>"

definition demo_send_state :: "strm send_proc" where
  "demo_send_state = \<lparr>sp_world = \<lparr>smNew = [], smPending = []\<rparr>, sp_pm = NewPendingManager, msg2sender = Map.empty,
     gatewayQueue = [], offlineMsg = Map.empty\<rparr>"



end
