(* ===== verification/Metrics.thy ===== *)
theory Metrics
  imports Monitor
begin

text \<open>
  \<open>pkg/monitor/exporter.go\<close>: the monitors registered under their names and the gauges that a sampler sets
  from them. Monitors are shared with the goroutines that fill them, so the register holds indices into the
  list of all monitors. Prometheus is third-party code of which the code uses gauges with one label: a
  gauge is a map from label values to numbers. The numbers are \<open>float64\<close>, the type variable \<open>'f\<close>, with the
  division \<open>quot\<close> and the conversion \<open>num\<close> as arguments.
\<close>

section \<open>State and operations\<close>

record 'f exporter =
  exCells :: "monitor list"
  exMonitors :: "string \<rightharpoonup> nat"
  avgTimeGauge :: "string \<rightharpoonup> 'f"
  successRateGauge :: "string \<rightharpoonup> 'f"
  countGauge :: "string \<rightharpoonup> 'f"

definition new_exporter :: "'f exporter" where
  "new_exporter = \<lparr>exCells = [], exMonitors = Map.empty, avgTimeGauge = Map.empty, successRateGauge = Map.empty,
     countGauge = Map.empty\<rparr>"

text \<open>A pointer to a monitor is its index, \<open>None\<close> for nil.\<close>

definition registerMonitor :: "string \<Rightarrow> nat option \<Rightarrow> 'f exporter \<Rightarrow> 'f exporter" where
  "registerMonitor name m s =
     (case m of None \<Rightarrow> s | Some i \<Rightarrow> s\<lparr>exMonitors := (exMonitors s)(name \<mapsto> i)\<rparr>)"

definition NewMonitor_named :: "string \<Rightarrow> nat \<Rightarrow> int64 \<Rightarrow> 'f exporter \<Rightarrow> nat \<times> 'f exporter" where
  "NewMonitor_named name n dur s =
     (let i = length (exCells s) in
      (i, registerMonitor name (Some i) (s\<lparr>exCells := exCells s @ [NewMonitor n dur]\<rparr>)))"

text \<open>The body of the loop over the map, for one entry of it.\<close>

definition sample :: "(int64 \<Rightarrow> nat \<Rightarrow> 'f) \<Rightarrow> 'f \<Rightarrow> (nat \<Rightarrow> 'f) \<Rightarrow> string \<times> nat \<Rightarrow> 'f exporter \<Rightarrow> 'f exporter" where
  "sample quot zero num e s =
     (case e of (name, i) \<Rightarrow>
        (case GetStats quot zero (exCells s ! i) of (avg, succ, cnt) \<Rightarrow>
           s\<lparr>avgTimeGauge := (avgTimeGauge s)(name \<mapsto> avg), successRateGauge := (successRateGauge s)(name \<mapsto> succ),
             countGauge := (countGauge s)(name \<mapsto> num cnt)\<rparr>))"

text \<open>Go walks through a map in any order: \<open>walk\<close> lists the entries in the order of this call.\<close>

definition CollectMetrics :: "(int64 \<Rightarrow> nat \<Rightarrow> 'f) \<Rightarrow> 'f \<Rightarrow> (nat \<Rightarrow> 'f) \<Rightarrow> (string \<times> nat) list \<Rightarrow> 'f exporter \<Rightarrow> 'f exporter" where
  "CollectMetrics quot zero num walk s = fold (sample quot zero num) walk s"

definition sampling_interval :: "int64 \<Rightarrow> int64" where
  "sampling_interval interval = (if interval \<le>s 0 then 5000000000 else interval)"

text \<open>
  The sampler's goroutine has a ticker for the interval, which panics unless it is positive, and collects at
  each tick, with the walks of the list. \<open>listen\<close> is \<open>http.ListenAndServe\<close>, whose error is returned when the
  server ends; \<open>ticks\<close> are those until then.
\<close>

definition StartExporter :: "(int64 \<Rightarrow> nat \<Rightarrow> 'f) \<Rightarrow> 'f \<Rightarrow> (nat \<Rightarrow> 'f) \<Rightarrow> (string \<Rightarrow> goerr option) \<Rightarrow> string \<Rightarrow> int64 \<Rightarrow>
    (string \<times> nat) list list \<Rightarrow> ('f exporter, goerr option) proc" where
  "StartExporter quot zero num listen addr interval ticks s =
     (if sampling_interval interval \<le>s 0 then Inl Panicked
      else Inr (listen addr, fold (CollectMetrics quot zero num) ticks s))"

text \<open>What a monitor's goroutine and its clients do to a monitor.\<close>

definition update_monitor :: "nat \<Rightarrow> (monitor \<Rightarrow> monitor) \<Rightarrow> 'f exporter \<Rightarrow> 'f exporter" where
  "update_monitor i f s = s\<lparr>exCells := (exCells s)[i := f (exCells s ! i)]\<rparr>"

section \<open>Invariant\<close>

definition walk_of :: "'f exporter \<Rightarrow> (string \<times> nat) list \<Rightarrow> bool" where
  "walk_of s walk \<longleftrightarrow> distinct (map fst walk) \<and> map_of walk = exMonitors s"

definition exporter_ok :: "'f exporter \<Rightarrow> bool" where
  "exporter_ok s \<longleftrightarrow> (\<forall>i\<in>ran (exMonitors s). i < length (exCells s)) \<and> (\<forall>m\<in>set (exCells s). mon_ok m)"

text \<open>What the gauges show for a monitor.\<close>

definition shown :: "'f exporter \<Rightarrow> string \<Rightarrow> 'f option \<times> 'f option \<times> 'f option" where
  "shown s name = (avgTimeGauge s name, successRateGauge s name, countGauge s name)"

definition window_stats :: "(int64 \<Rightarrow> nat \<Rightarrow> 'f) \<Rightarrow> 'f \<Rightarrow> (nat \<Rightarrow> 'f) \<Rightarrow> task list \<Rightarrow> 'f option \<times> 'f option \<times> 'f option" where
  "window_stats quot zero num q =
     (if q = [] then (Some zero, Some zero, Some (num 0))
      else (Some (quot (elapsed q) (length q)), Some (quot (word_of_nat (successes q)) (length q)), Some (num (length q))))"

lemma exporter_ok_new: "exporter_ok new_exporter"
  by (simp add: exporter_ok_def new_exporter_def)

lemma exporter_ok_create:
  assumes "exporter_ok s" "0 < n"
  shows "exporter_ok (snd (NewMonitor_named name n dur s))"
  using assms mon_ok_new [of n dur]
  by (fastforce simp: exporter_ok_def NewMonitor_named_def registerMonitor_def ran_def Let_def less_Suc_eq split: if_splits)

lemma exporter_ok_update:
  assumes "exporter_ok s" "\<And>m. mon_ok m \<Longrightarrow> mon_ok (f m)"
  shows "exporter_ok (update_monitor i f s)"
proof (cases "i < length (exCells s)")
  case True
  with assms have "mon_ok (f (exCells s ! i))" by (simp add: exporter_ok_def)
  with assms(1) show ?thesis
    by (auto simp: exporter_ok_def update_monitor_def dest!: subsetD [OF set_update_subset_insert])
qed (use assms(1) in \<open>simp add: exporter_ok_def update_monitor_def list_update_beyond not_less\<close>)

section \<open>Sampling\<close>

lemma sample_keeps [simp]:
  "exCells (sample quot zero num e s) = exCells s" "exMonitors (sample quot zero num e s) = exMonitors s"
  by (simp_all add: sample_def split: prod.splits)

lemma stats_of_window:
  assumes "mon_ok m"
  shows "(case GetStats quot zero m of (avg, succ, cnt) \<Rightarrow> (Some avg, Some succ, Some (num cnt))) = window_stats quot zero num (window m)"
proof -
  have "window m = [] \<longleftrightarrow> inWindow m = 0" using window_length [of m] by (metis length_0_conv)
  with assms show ?thesis by (simp add: GetStats_def window_stats_def mon_ok_def)
qed

lemma shown_sample:
  "shown (sample quot zero num (name, i) s) n =
     (if n = name then (case GetStats quot zero (exCells s ! i) of (avg, succ, cnt) \<Rightarrow> (Some avg, Some succ, Some (num cnt)))
      else shown s n)"
  by (simp add: shown_def sample_def split: prod.splits)

lemma CollectMetrics_keeps [simp]:
  "exCells (CollectMetrics quot zero num walk s) = exCells s" "exMonitors (CollectMetrics quot zero num walk s) = exMonitors s"
  by (induction walk arbitrary: s) (simp_all add: CollectMetrics_def)

lemma shown_fold:
  assumes "distinct (map fst walk)"
  shows "shown (fold (sample quot zero num) walk s) n =
    (case map_of walk n of
       None \<Rightarrow> shown s n
     | Some i \<Rightarrow> (case GetStats quot zero (exCells s ! i) of (avg, succ, cnt) \<Rightarrow> (Some avg, Some succ, Some (num cnt))))"
  using assms
proof (induction walk arbitrary: s)
  case (Cons e walk)
  obtain name i where e: "e = (name, i)" by (cases e)
  from Cons.prems e have "map_of walk name = None" by (simp add: map_of_eq_None_iff)
  with Cons e show ?case by (auto simp: shown_sample split: option.split)
qed simp

lemma shown_collect:
  assumes ok: "exporter_ok s" and walk: "walk_of s walk"
  shows "shown (CollectMetrics quot zero num walk s) n =
    (case exMonitors s n of None \<Rightarrow> shown s n | Some i \<Rightarrow> window_stats quot zero num (window (exCells s ! i)))"
proof -
  have "mon_ok (exCells s ! i)" if "exMonitors s n = Some i" for i
    using ok that by (auto simp: exporter_ok_def ran_def)
  with walk show ?thesis
    by (auto simp: CollectMetrics_def shown_fold walk_of_def stats_of_window split: option.splits)
qed

text \<open>
  Collecting is independent of the order in which the map is walked through, and the gauges of every
  registered monitor are the statistics of exactly the tasks in its window; other gauges keep their value.
\<close>

theorem collected_metrics:
  assumes "exporter_ok s" "walk_of s walk"
  shows "exporter_ok (CollectMetrics quot zero num walk s)
    \<and> (\<forall>name. shown (CollectMetrics quot zero num walk s) name =
        (case exMonitors s name of None \<Rightarrow> shown s name | Some i \<Rightarrow> window_stats quot zero num (window (exCells s ! i))))
    \<and> (\<forall>walk'. walk_of s walk' \<longrightarrow> (\<forall>name. shown (CollectMetrics quot zero num walk' s) name =
        shown (CollectMetrics quot zero num walk s) name))"
  using assms by (auto simp: shown_collect) (simp add: exporter_ok_def)

lemma positive_default: "(0 :: int64) <s 5000000000"
  by code_simp

text \<open>The ticker always gets a positive interval.\<close>

theorem exporter_never_panics:
  "0 <s sampling_interval interval"
  "\<exists>s'. StartExporter quot zero num listen addr interval ticks s = Inr (listen addr, s') \<and> exCells s' = exCells s \<and> exMonitors s' = exMonitors s"
proof -
  show pos: "0 <s sampling_interval interval" for interval
    using positive_default by (auto simp: sampling_interval_def signed.not_le)
  have "exCells (fold (CollectMetrics quot zero num) ticks s) = exCells s
      \<and> exMonitors (fold (CollectMetrics quot zero num) ticks s) = exMonitors s"
    by (induction ticks arbitrary: s) simp_all
  with pos [of interval] show "\<exists>s'. StartExporter quot zero num listen addr interval ticks s = Inr (listen addr, s') \<and> exCells s' = exCells s \<and> exMonitors s' = exMonitors s"
    by (simp add: StartExporter_def signed.not_le [symmetric])
qed

section \<open>What the processes do\<close>

text \<open>
  The processes make monitors and fill them. No process calls \<open>StartExporter\<close> or \<open>CollectMetrics\<close>; the
  routes \<open>/metrics\<close> serve the gauges as they are.
\<close>

inductive process_step :: "'f exporter \<Rightarrow> 'f exporter \<Rightarrow> bool" where
  create: "0 < n \<Longrightarrow> process_step s (snd (NewMonitor_named name n dur s))"
| round: "i < length (exCells s) \<Longrightarrow> insert_task now t (exCells s ! i) = Some m \<Longrightarrow> process_step s (update_monitor i (\<lambda>_. m) s)"

inductive_cases process_stepE: "process_step s s'"

lemma process_step_ok:
  assumes "process_step s s'" "exporter_ok s"
  shows "exporter_ok s' \<and> shown s' = shown s"
  using assms
proof cases
  case (create n name dur)
  with assms(2) show ?thesis
    by (simp add: exporter_ok_create) (simp add: NewMonitor_named_def registerMonitor_def shown_def fun_eq_iff Let_def)
next
  case (round i now t m)
  with assms(2) have "mon_ok (exCells s ! i)" by (simp add: exporter_ok_def)
  from insert_task_window [OF this, of now t] round(3) have "mon_ok m" by auto
  with assms(2) round(1) show ?thesis
    by (simp add: exporter_ok_update) (simp add: update_monitor_def shown_def fun_eq_iff)
qed

text \<open>
  So the register always is in order, and in every process the gauges stay without a value: the metrics page
  never shows a monitor.
\<close>

theorem metrics_never_sampled:
  assumes "process_step\<^sup>*\<^sup>* new_exporter s"
  shows "exporter_ok s \<and> shown s name = (None, None, None)"
proof -
  from assms have "exporter_ok s \<and> shown s = shown new_exporter"
    by (induction rule: rtranclp_induct) (use exporter_ok_new process_step_ok in auto)
  then show ?thesis by (simp add: shown_def new_exporter_def)
qed

section \<open>Witnesses\<close>

definition demo_exporter :: "nat exporter" where
  "demo_exporter = update_monitor 0 (\<lambda>m. put_tail \<lparr>sTime = 1, lTime = 4, success = True\<rparr> m)
     (snd (NewMonitor_named ''redis'' 2 60 new_exporter))"

lemma demo_exporter_ok: "exporter_ok demo_exporter"
  by (simp add: demo_exporter_def exporter_ok_def update_monitor_def NewMonitor_named_def registerMonitor_def new_exporter_def
      Let_def NewMonitor_def put_tail_def mon_ok_def slot_def window_def elapsed_def successes_def numeral_2_eq_2)

theorem collected_metrics_witness:
  "shown (CollectMetrics (\<lambda>a b. unat a div b) 0 id [(''redis'', 0)] demo_exporter) ''redis'' = (Some 3, Some 1, Some 1)"
proof -
  have w: "walk_of demo_exporter [(''redis'', 0)]"
    by (simp add: walk_of_def demo_exporter_def update_monitor_def NewMonitor_named_def registerMonitor_def new_exporter_def Let_def)
  have "window (exCells demo_exporter ! 0) = [\<lparr>sTime = 1, lTime = 4, success = True\<rparr>]"
    by (simp add: demo_exporter_def update_monitor_def NewMonitor_named_def registerMonitor_def new_exporter_def
        Let_def NewMonitor_def put_tail_def slot_def window_def numeral_2_eq_2)
  moreover have "exMonitors demo_exporter ''redis'' = Some 0"
    by (simp add: demo_exporter_def update_monitor_def NewMonitor_named_def registerMonitor_def new_exporter_def Let_def)
  ultimately show ?thesis
    using collected_metrics [OF demo_exporter_ok w, of "\<lambda>a b. unat a div b" 0 id]
    by (simp add: window_stats_def elapsed_def successes_def)
qed

theorem metrics_never_sampled_witness:
  "shown (snd (NewMonitor_named ''redis'' 1000 60000 (new_exporter :: nat exporter))) ''redis'' = (None, None, None)"
  using metrics_never_sampled [OF r_into_rtranclp [of process_step, OF process_step.create [of 1000 "new_exporter :: nat exporter" "''redis''" 60000]], of "''redis''"] by simp

end
