(* ===== verification/Logger.thy ===== *)
theory Logger
  imports Json
begin

text \<open>
  The middleware of \<open>pkg/logger/logger.go\<close> that every server runs around its handlers: \<open>GinLogger\<close> writes one
  line per request, \<open>GinRecovery\<close> turns a panic into a reply. gin and zap are third-party code: the record
  \<open>gin\<close> holds the operations on a request's context \<open>'c\<close> that the code uses, and a line written is an entry
  of a list. A handler is a function that may end with the value of a panic, with the state it left.
\<close>

section \<open>Requests, panics, lines\<close>

text \<open>
  The value of a panic as the code tells it apart: a \<open>*net.OpError\<close>, with the text of the
  \<open>*os.SyscallError\<close> inside if there is one, or any other value.
\<close>

datatype panic_value = OpError "string option" | OtherPanic string

datatype log_line =
    AccessLine nat string string string string string string int64
  | BrokenLine string panic_value string
  | PanicLine panic_value string "string option"

record 'c gin =
  ginStatus :: "'c \<Rightarrow> nat"
  ginMethod :: "'c \<Rightarrow> string"
  ginPath :: "'c \<Rightarrow> string"
  ginRawQuery :: "'c \<Rightarrow> string"
  ginClientIP :: "'c \<Rightarrow> string"
  ginUserAgent :: "'c \<Rightarrow> string"
  ginErrors :: "'c \<Rightarrow> string"
  ginDump :: "'c \<Rightarrow> string"
  ginError :: "panic_value \<Rightarrow> 'c \<Rightarrow> 'c"
  ginAbort :: "'c \<Rightarrow> 'c"
  ginAbortWithStatus :: "nat \<Rightarrow> 'c \<Rightarrow> 'c"

text \<open>The state of a request: its context, the package variable \<open>lg\<close> (set or nil) and the lines written.\<close>

record 'c serving =
  svCtx :: 'c
  svLg :: bool
  svLines :: "log_line list"

type_synonym 'c handler = "'c serving \<Rightarrow> panic_value option \<times> 'c serving"

text \<open>A call of a method of a nil \<open>*zap.Logger\<close> is a nil dereference.\<close>

definition write_line :: "log_line \<Rightarrow> 'c handler" where
  "write_line l s =
     (if svLg s then (None, s\<lparr>svLines := svLines s @ [l]\<rparr>) else (Some (OtherPanic ''nil pointer dereference''), s))"

section \<open>The middleware\<close>

fun contains_str :: "string \<Rightarrow> string \<Rightarrow> bool" where
  "contains_str sub [] \<longleftrightarrow> sub = []"
| "contains_str sub (c # cs) \<longleftrightarrow> take (length sub) (c # cs) = sub \<or> contains_str sub cs"

text \<open>The texts of syscall errors are ASCII, so \<open>strings.ToLower\<close> is \<open>fold_name\<close>.\<close>

definition broken_pipe :: "panic_value \<Rightarrow> bool" where
  "broken_pipe p =
     (case p of
        OpError (Some text) \<Rightarrow>
          contains_str ''broken pipe'' (fold_name text) \<or> contains_str ''connection reset by peer'' (fold_name text)
      | _ \<Rightarrow> False)"

text \<open>The deferred function, run when the handlers have panicked with \<open>p\<close>; \<open>trace\<close> is \<open>debug.Stack()\<close>.\<close>

definition recovered :: "'c gin \<Rightarrow> bool \<Rightarrow> string \<Rightarrow> panic_value \<Rightarrow> 'c handler" where
  "recovered g stack trace p s =
     (let c = svCtx s; request = ginDump g c in
      if broken_pipe p then
        (case write_line (BrokenLine (ginPath g c) p request) s of
           (None, s1) \<Rightarrow> (None, s1\<lparr>svCtx := ginAbort g (ginError g p (svCtx s1))\<rparr>)
         | (Some q, s1) \<Rightarrow> (Some q, s1))
      else
        (case write_line (PanicLine p request (if stack then Some trace else None)) s of
           (None, s1) \<Rightarrow> (None, s1\<lparr>svCtx := ginAbortWithStatus g 500 (svCtx s1)\<rparr>)
         | (Some q, s1) \<Rightarrow> (Some q, s1)))"

definition GinRecovery :: "'c gin \<Rightarrow> bool \<Rightarrow> string \<Rightarrow> 'c handler \<Rightarrow> 'c handler" where
  "GinRecovery g stack trace handlers s =
     (case handlers s of (None, s1) \<Rightarrow> (None, s1) | (Some p, s1) \<Rightarrow> recovered g stack trace p s1)"

text \<open>Path and query are read before the handlers run, the rest after; \<open>cost\<close> is the time they took.\<close>

definition GinLogger :: "'c gin \<Rightarrow> int64 \<Rightarrow> 'c handler \<Rightarrow> 'c handler" where
  "GinLogger g cost handlers s =
     (let path = ginPath g (svCtx s); query = ginRawQuery g (svCtx s) in
      case handlers s of
        (Some p, s1) \<Rightarrow> (Some p, s1)
      | (None, s1) \<Rightarrow>
          (let c = svCtx s1 in
           write_line (AccessLine (ginStatus g c) (ginMethod g c) path query (ginClientIP g c) (ginUserAgent g c) (ginErrors g c) cost) s1))"

text \<open>\<open>g.Use(logger.GinLogger(), logger.GinRecovery(true))\<close>, as every server has it.\<close>

definition logged :: "'c gin \<Rightarrow> int64 \<Rightarrow> string \<Rightarrow> 'c handler \<Rightarrow> 'c handler" where
  "logged g cost trace handlers = GinLogger g cost (GinRecovery g True trace handlers)"

section \<open>Which errors are broken connections\<close>

lemma contains_str_iff: "contains_str sub s \<longleftrightarrow> (\<exists>u v. s = u @ sub @ v)"
proof (induction s)
  case (Cons c cs)
  have "take (length sub) (c # cs) = sub \<longleftrightarrow> (\<exists>v. c # cs = sub @ v)"
    by (metis append_eq_conv_conj)
  moreover have "(\<exists>u v. c # cs = u @ sub @ v) \<longleftrightarrow> (\<exists>v. c # cs = sub @ v) \<or> (\<exists>u v. cs = u @ sub @ v)"
    by (metis append_Cons append_Nil neq_Nil_conv list.inject)
  ultimately show ?case using Cons.IH by simp
qed auto

lemma broken_pipe_iff:
  "broken_pipe p \<longleftrightarrow> (\<exists>text u v. p = OpError (Some text)
     \<and> (fold_name text = u @ ''broken pipe'' @ v \<or> fold_name text = u @ ''connection reset by peer'' @ v))"
  by (auto simp: broken_pipe_def contains_str_iff split: panic_value.splits option.splits)

section \<open>A request is answered and logged once\<close>

text \<open>What the middleware makes of the context that the handlers left.\<close>

definition final_ctx :: "'c gin \<Rightarrow> panic_value option \<Rightarrow> 'c \<Rightarrow> 'c" where
  "final_ctx g p c =
     (case p of
        None \<Rightarrow> c
      | Some v \<Rightarrow> if broken_pipe v then ginAbort g (ginError g v c) else ginAbortWithStatus g 500 c)"

definition panic_lines :: "'c gin \<Rightarrow> string \<Rightarrow> panic_value option \<Rightarrow> 'c \<Rightarrow> log_line list" where
  "panic_lines g trace p c =
     (case p of
        None \<Rightarrow> []
      | Some v \<Rightarrow> [if broken_pipe v then BrokenLine (ginPath g c) v (ginDump g c) else PanicLine v (ginDump g c) (Some trace)])"

lemma GinRecovery_ends:
  assumes "handlers s = (p, s1)" "svLg s1"
  shows "GinRecovery g True trace handlers s =
    (None, s1\<lparr>svCtx := final_ctx g p (svCtx s1), svLines := svLines s1 @ panic_lines g trace p (svCtx s1)\<rparr>)"
  using assms
  by (cases p) (simp_all add: GinRecovery_def recovered_def write_line_def final_ctx_def panic_lines_def Let_def)

text \<open>
  However the handlers end, no panic reaches the server: a panic leaves one line and a reply with status 500,
  or no reply at all when the connection is gone, and every request leaves exactly one access line, its
  last, with the path of the request as it came and the status that was sent in the end.
\<close>

theorem request_logged_once:
  assumes "handlers s = (p, s1)" "svLg s1"
  shows "logged g cost trace handlers s = (None, s1\<lparr>svCtx := final_ctx g p (svCtx s1), svLines :=
    svLines s1 @ panic_lines g trace p (svCtx s1)
      @ [AccessLine (ginStatus g (final_ctx g p (svCtx s1))) (ginMethod g (final_ctx g p (svCtx s1)))
           (ginPath g (svCtx s)) (ginRawQuery g (svCtx s)) (ginClientIP g (final_ctx g p (svCtx s1)))
           (ginUserAgent g (final_ctx g p (svCtx s1))) (ginErrors g (final_ctx g p (svCtx s1))) cost]\<rparr>)"
  by (simp add: logged_def GinLogger_def GinRecovery_ends [of handlers s p s1, OF assms] assms(2) write_line_def Let_def)

text \<open>Before \<open>Init\<close> has set the logger, the middleware itself panics, with no recovery around it.\<close>

theorem unset_logger_panics:
  assumes "handlers s = (p, s1)" "\<not> svLg s1"
  shows "\<exists>q. logged g cost trace handlers s = (Some q, s1)"
  using assms by (cases p) (simp_all add: logged_def GinLogger_def GinRecovery_def recovered_def write_line_def Let_def)

section \<open>Witnesses\<close>

text \<open>A context that is the status, the errors and whether the request was aborted.\<close>

definition demo_gin :: "(nat \<times> nat \<times> bool) gin" where
  "demo_gin = \<lparr>ginStatus = fst, ginMethod = (\<lambda>_. ''GET''), ginPath = (\<lambda>_. ''/ping''), ginRawQuery = (\<lambda>_. []), ginClientIP = (\<lambda>_. []),
     ginUserAgent = (\<lambda>_. []), ginErrors = (\<lambda>_. []), ginDump = (\<lambda>_. ''GET /ping''), ginError = (\<lambda>_ (c, n, a). (c, Suc n, a)),
     ginAbort = (\<lambda>(c, n, a). (c, n, True)), ginAbortWithStatus = (\<lambda>st (c, n, a). (st, n, True))\<rparr>"

theorem request_logged_once_witness:
  "svCtx (snd (logged demo_gin 7 [] (\<lambda>s. (Some (OpError (Some ''write: Broken Pipe'')), s)) \<lparr>svCtx = (200, 0, False), svLg = True, svLines = []\<rparr>))
     = (200, 1, True)
   \<and> svCtx (snd (logged demo_gin 7 [] (\<lambda>s. (Some (OpError (Some ''timeout'')), s)) \<lparr>svCtx = (200, 0, False), svLg = True, svLines = []\<rparr>))
     = (500, 0, True)"
proof -
  let ?s = "\<lparr>svCtx = (200, 0, False), svLg = True, svLines = []\<rparr>"
  have "broken_pipe (OpError (Some ''write: Broken Pipe''))" "\<not> broken_pipe (OpError (Some ''timeout''))"
    by (simp_all add: broken_pipe_def fold_name_def lower_def) code_simp+
  then show ?thesis
    using request_logged_once [of "\<lambda>s. (Some (OpError (Some ''write: Broken Pipe'')), s)" ?s _ ?s demo_gin 7 "[]"]
      request_logged_once [of "\<lambda>s. (Some (OpError (Some ''timeout'')), s)" ?s _ ?s demo_gin 7 "[]"]
    by (simp add: final_ctx_def demo_gin_def)
qed

theorem unset_logger_panics_witness:
  "\<exists>q. logged demo_gin 7 [] (\<lambda>s. (None, s)) \<lparr>svCtx = (200, 0, False), svLg = False, svLines = []\<rparr>
     = (Some q, \<lparr>svCtx = (200, 0, False), svLg = False, svLines = []\<rparr>)"
  by (rule unset_logger_panics [where p = None]) simp_all

end
