(* ===== verification/Spec2Isabelle.thy ===== *)
theory Spec2Isabelle
  imports PendingConc Chat GwWs Standalone Schema Routers CenterLinks Processes Delivery Metrics Logger
begin

text \<open>
  Verification of GoStacker, a chat back end in Go.

  The program. Six processes (\<open>src/cmd\<close>) share MySQL, Redis and a registry. \<^bold>\<open>meta\<close> serves users and
  groups; \<^bold>\<open>send\<close> takes messages, stores them through a list in Redis and hands them to gateways through one
  Redis stream per gateway; a \<^bold>\<open>gateway\<close> reads its stream, holds the users' WebSocket connections and spreads
  a message over them; the \<^bold>\<open>registry\<close> knows which gateways and send instances live and where a user is
  connected; the \<^bold>\<open>flusher\<close> writes cached groups and messages to MySQL; the \<^bold>\<open>msgflusher\<close> claims stream
  entries that a gateway did not acknowledge and returns them to a send instance. A message travels: handler of
  send (\<open>MsgStore\<close>), dispatcher and its queue (\<open>SendPush\<close>), stream (\<open>Delivery\<close>), gateway (\<open>GwDispatch\<close>),
  connection (\<open>GwConn\<close>), or, for a user who is not there, pushback to a send instance (\<open>Pushback\<close>) and the
  offline list (\<open>Offline\<close>), sent when the user returns.
\<close>

section \<open>How the code is modelled\<close>

text \<open>
  The world outside the program (Redis, MySQL, HTTP, clocks) is a type variable \<open>'w\<close>. A call of a service
  is a function \<open>('w, 'a) io\<close> in a record of parameters (\<open>redis\<close>, \<open>db\<close>, \<open>http\<close>, \<open>auth_lib\<close>, \<open>link_lib\<close>,
  \<open>boot_lib\<close>), so the definitions assume nothing about it. A theorem that needs a service's behaviour names a
  law: \<open>list_laws\<close>, \<open>store_laws\<close>, \<open>stream_laws\<close>, \<open>mysql_laws\<close>, \<open>auth_laws\<close>, \<open>reclaim_services\<close>. The laws state the
  documented effect of a command on a view of the world, and that a command which reports an error may or may
  not have been applied. In-memory servers (\<open>mem_redis\<close>, \<open>demo_stream\<close> and the others named \<open>demo\<close>) satisfy
  the laws and carry the witnesses.

  The memory of a process is a record with the package variables as fields: \<open>gw_proc\<close> for
  \<open>internal/gateway/push\<close>, \<open>send_proc\<close> and \<open>ws_proc\<close> for \<open>internal/send/push\<close>, \<open>center\<close> for the link to a
  center, \<open>process\<close> for what a start sets up. Its operations have type \<open>('w, 'a) proc\<close>: they return a value
  and a new state, or halt, because of a panic or because a goroutine is blocked for ever. Pointers to
  connections are indices into a list of cells, channels are lists with a capacity, \<open>sync.Map\<close> is a map.

  An \<open>int64\<close> is a word of 64 bits and an \<open>int32\<close> of 32; \<open>error\<close> is the datatype \<open>goerr\<close> with \<open>None\<close> for nil, a
  value with an error is a sum. Byte strings are character lists. JSON is a datatype of documents
  (\<open>Json\<close>), printing and decoding follow \<open>encoding/json\<close> field by field; a \<open>float64\<close> that an integer passes
  through is the parameter \<open>f64\<close>.

  A goroutine's loop is one of three things. A loop over a \<open>select\<close> is a function on the list of events it
  receives; what an unspecified order decides (the walk through a Go map, \<open>rand\<close>, what other goroutines do
  during a wait) is an argument, so theorems hold for all of them. Goroutines that interleave inside an
  operation are an inductive step relation (\<open>PendingConc\<close>, \<open>GwConn\<close>, \<open>GroupFlush\<close>, \<open>Schema\<close>). A loop that may not
  end is a partial function into \<open>option\<close> (\<open>reclaim_loop\<close>, \<open>serve_loop\<close>, \<open>evict\<close>); its termination, where it
  terminates, is a theorem. No fuel is used except as the number of rounds of a loop that is meant to run for
  ever (\<open>ListeningWaitQueue\<close>, \<open>drain_queue\<close>, \<open>link_rounds\<close>), where the theorems hold for every number.
\<close>

section \<open>The theories\<close>

text \<open>
  Shared. \<open>Prelude\<close>: integers, errors, the retry loop of every Redis wrapper, calls and outcomes.
  \<open>Outcomes\<close>: postconditions for calls, composed along the code's sequencing. \<open>Json\<close>, \<open>Http\<close>
  (\<open>pkg/response\<close>, \<open>pkg/registry_client/client.go\<close>), \<open>Config\<close> (\<open>pkg/config\<close>), \<open>Mysql\<close> (tables and statements),
  \<open>RedisApi\<close> (\<open>pkg/db/redis\<close>: wrappers, clients by role), \<open>Store\<close> (views of Redis and the in-memory server),
  \<open>ConnStore\<close> (the interface of a connection manager, a locale both managers provide).

  Libraries of the program. \<open>Pending\<close>: \<open>pkg/pendingTask\<close> as executed, with the specification that the
  reports of a message fire its callback exactly once; \<open>PendingConc\<close>: the same under every interleaving of the
  atomic steps. \<open>Monitor\<close>: \<open>pkg/monitor\<close>, a ring buffer that refines a list of tasks, and the hooks that feed
  it; \<open>Metrics\<close>: the gauges set from the monitors. \<open>AckCache\<close>: \<open>pkg/db/redis/AckCache.go\<close>. \<open>Logger\<close>: \<open>pkg/logger\<close>,
  the log of requests and the recovery from panics around every server's handlers.

  Send service (\<open>internal/send\<close>). \<open>Messages\<close> and \<open>Chat\<close>: the wire formats and who reads them how.
  \<open>MsgStore\<close>: \<open>chat/send\<close>, storing, flushing and resending. \<open>Route\<close>: \<open>route\<close>, the local cache over the registry.
  \<open>SendPush\<close>: the gateway dispatcher, which accounts for every target. \<open>SendConn\<close>, \<open>Offline\<close>, \<open>Standalone\<close>: the
  connection manager, offline and wait lists, and the dispatcher without gateways. \<open>Pushback\<close>: \<open>pushback\<close>,
  \<open>pushnotify\<close> and their caller \<open>internal/gateway/centerclient\<close>.

  Gateway (\<open>internal/gateway\<close>). \<open>GwConn\<close>: \<open>push/manager.go\<close> with the invariant on its counters. \<open>GwDispatch\<close>:
  dispatcher, wait queue and pulling. \<open>GwWs\<close>: synchronous writes and the WebSocket handler. \<open>CenterLinks\<close>:
  \<open>center_client\<close>, the link to a center server, with its ready channel.

  Registry (\<open>internal/registry\<close>, \<open>pkg/registry_client\<close>). \<open>RegGateway\<close>, \<open>RegSend\<close>, \<open>RegUser\<close>: model, service and
  handlers. \<open>RegClient\<close>: the client, and client and server composed through the router.

  Meta service (\<open>internal/meta\<close>). \<open>GroupStore\<close> and \<open>Group\<close>: repository, cache and service of groups; \<open>GroupApi\<close>: the
  handlers; \<open>GroupFlush\<close> and \<open>WriteBack\<close>: the flusher, and the invariant that a room that is not marked has equal
  rows and cached members; \<open>Users\<close>: users, tokens and the middleware; \<open>Schema\<close>: every operation that writes
  keeps the tables well formed.

  Processes. \<open>Routers\<close>: the routes of every server and what guards them. \<open>Bootstrap\<close>: \<open>pkg/bootstrap\<close> with the
  initialisers. \<open>Processes\<close>: the main functions. \<open>Reclaimer\<close>: \<open>internal/msgflusher\<close>. \<open>Delivery\<close>: both ends of a
  gateway's stream.
\<close>

section \<open>What is shown\<close>

text \<open>
  Delivery. The pending manager fires exactly once, sequentially and concurrently; the send dispatcher
  acknowledges a message exactly once and accounts for every target; what it puts on a stream is read
  unchanged and becomes a task; the gateway's dispatch accounts for every target and its counters are exact in
  every reachable state; the standalone dispatcher loses no target. The messages in the cache of the send service
  survive a failed flush, and a sent message is found in the table after a flush.

  Data. Rooms that are not marked have equal rows and cache, and a flush stores what it unmarks; tables keep
  their form; who registers can log in; group changes need the role that the code asks for; a start of a process
  sets up everything or leaves no connection open.

  Defects. Where the code does not do what it means to, the theorem states what it does: acknowledgements that
  match no entry, claimed entries dropped without delivery, gateways that never come back after they were
  forgotten, monitors that block their writers, offline messages lost by a failed batch, members lost by late or
  overlapping changes, owners made by every flush, members removed without a check, and the link to a silent
  center that stops the gateway.
\<close>

section \<open>Bounds\<close>

text \<open>
  Counts stay below \<open>2 ^ 31\<close> where the code converts lengths to \<open>int32\<close>: the theorems on the pending manager and
  on dispatching say so. Settings in seconds are multiplied into 64-bit nanoseconds; the lemmas on intervals
  assume at most 9223372036 seconds, the largest that does not wrap. Channel capacities (100, 128, 1000, 1024,
  10000), batch sizes (50, 100, 1024) and retries are the code's constants.
\<close>

section \<open>Not modelled\<close>

text \<open>
  Log lines inside the services and handlers, the encoder and file rotation that \<open>pkg/logger\<close> configures
  are left out throughout. Signals, tickers, sleeps and deadlines appear only as the events they cause.
  Goroutines that only wait for a signal and cancel a context are the event that the canceled loop receives.
  \<open>go test\<close> files, scripts and the compose files are not part of the program.
\<close>

end
